theory Spec2Isabelle
  imports Complex_Main "HOL-Library.Word"
begin

section \<open>Numbers, bytes and records\<close>

text \<open>
  The simulator computes with JavaScript numbers. The embedding computes with the real
  numbers the formulas denote: \<open>Math.max\<close>, \<open>Math.min\<close>, \<open>Math.sin\<close> and
  \<open>Math.PI\<close> are \<open>max\<close>, \<open>min\<close>, \<open>sin\<close> and \<open>pi\<close>, and \<open>Math.round\<close>
  is rounding to the nearest integer with ties towards plus infinity. A channel of a
  \<open>Uint8ClampedArray\<close> is an 8-bit word. An RGBA buffer is the \<open>data\<close> of an
  \<open>ImageData\<close>: four bytes per pixel, so its length is a multiple of 4. It is a list of
  pixels here: \<open>pixels[i*4 + j]\<close> is component \<open>j\<close> of \<open>pixels ! i\<close>, and
  \<open>pixels.length / 4\<close> is the length of the list. The two result buffers are lists of
  pixels as well, created full of zeros and updated by index.
\<close>

type_synonym byte = "8 word"

definition js_round :: "real \<Rightarrow> int" where
  "js_round x = \<lfloor>x + 1 / 2\<rfloor>"

text \<open>Storing a number in a \<open>Uint8ClampedArray\<close> clamps it to 0..255.\<close>

definition to_uint8_clamped :: "int \<Rightarrow> byte" where
  "to_uint8_clamped v = word_of_int (max 0 (min 255 v))"

definition byte_val :: "byte \<Rightarrow> real" where
  "byte_val x = real (unat x)"

record pixel =
  px_r :: byte
  px_g :: byte
  px_b :: byte
  px_a :: byte

record cmyk =
  cmyk_c :: real
  cmyk_m :: real
  cmyk_y :: real
  cmyk_k :: real

record rgb =
  rgb_r :: int
  rgb_g :: int
  rgb_b :: int

section \<open>Paper profiles\<close>

datatype paper = Coated | Uncoated | Newsprint

record profile =
  p_name :: string
  p_dotGain :: real
  p_inkLimit :: int
  p_gamutReduction :: real
  p_shadowGain :: real
  p_highlightGain :: real

text \<open>\<open>PAPER_PROFILES\<close> of worker.js (lines 21-46).\<close>

fun PAPER_PROFILES :: "paper \<Rightarrow> profile" where
  "PAPER_PROFILES Coated =
     \<lparr>p_name = ''Coated'', p_dotGain = 15 / 100, p_inkLimit = 300,
      p_gamutReduction = 0, p_shadowGain = 8 / 10, p_highlightGain = 4 / 10\<rparr>"
| "PAPER_PROFILES Uncoated =
     \<lparr>p_name = ''Uncoated'', p_dotGain = 22 / 100, p_inkLimit = 280,
      p_gamutReduction = 8 / 100, p_shadowGain = 1, p_highlightGain = 5 / 10\<rparr>"
| "PAPER_PROFILES Newsprint =
     \<lparr>p_name = ''Newsprint'', p_dotGain = 30 / 100, p_inkLimit = 240,
      p_gamutReduction = 18 / 100, p_shadowGain = 13 / 10, p_highlightGain = 6 / 10\<rparr>"

section \<open>Channel converter\<close>

text \<open>\<open>rgbToCmyk\<close> of colorEngine.js (lines 66-76): the guard is \<open>k === 1\<close>.\<close>

definition rgbToCmyk :: "real \<Rightarrow> real \<Rightarrow> real \<Rightarrow> cmyk" where
  "rgbToCmyk r g b =
     (let k = 1 - max (max r g) b in
      if k = 1 then \<lparr>cmyk_c = 0, cmyk_m = 0, cmyk_y = 0, cmyk_k = 1\<rparr>
      else let denom = 1 - k in
        \<lparr>cmyk_c = (1 - r - k) / denom,
         cmyk_m = (1 - g - k) / denom,
         cmyk_y = (1 - b - k) / denom,
         cmyk_k = k\<rparr>)"

text \<open>
  \<open>rgbToCmyk\<close> of worker.js (lines 48-58), of the worker inlined in main.js and of
  main-demo.js: the guard is \<open>k >= 1\<close>.
\<close>

definition rgbToCmyk_w :: "real \<Rightarrow> real \<Rightarrow> real \<Rightarrow> cmyk" where
  "rgbToCmyk_w r g b =
     (let k = 1 - max (max r g) b in
      if k \<ge> 1 then \<lparr>cmyk_c = 0, cmyk_m = 0, cmyk_y = 0, cmyk_k = 1\<rparr>
      else let denom = 1 - k in
        \<lparr>cmyk_c = (1 - r - k) / denom,
         cmyk_m = (1 - g - k) / denom,
         cmyk_y = (1 - b - k) / denom,
         cmyk_k = k\<rparr>)"

text \<open>
  A JavaScript division by zero raises nothing. To observe it, the two converters are
  instrumented: the result is \<open>Inl DivisionByZero\<close> when a division is reached with a
  zero denominator, and the converter's own result otherwise.
\<close>

datatype fault = DivisionByZero

definition rgbToCmyk_checked :: "real \<Rightarrow> real \<Rightarrow> real \<Rightarrow> fault + cmyk" where
  "rgbToCmyk_checked r g b =
     (let k = 1 - max (max r g) b in
      if k = 1 then Inr \<lparr>cmyk_c = 0, cmyk_m = 0, cmyk_y = 0, cmyk_k = 1\<rparr>
      else let denom = 1 - k in
        if denom = 0 then Inl DivisionByZero
        else Inr \<lparr>cmyk_c = (1 - r - k) / denom,
                  cmyk_m = (1 - g - k) / denom,
                  cmyk_y = (1 - b - k) / denom,
                  cmyk_k = k\<rparr>)"

definition rgbToCmyk_w_checked :: "real \<Rightarrow> real \<Rightarrow> real \<Rightarrow> fault + cmyk" where
  "rgbToCmyk_w_checked r g b =
     (let k = 1 - max (max r g) b in
      if k \<ge> 1 then Inr \<lparr>cmyk_c = 0, cmyk_m = 0, cmyk_y = 0, cmyk_k = 1\<rparr>
      else let denom = 1 - k in
        if denom = 0 then Inl DivisionByZero
        else Inr \<lparr>cmyk_c = (1 - r - k) / denom,
                  cmyk_m = (1 - g - k) / denom,
                  cmyk_y = (1 - b - k) / denom,
                  cmyk_k = k\<rparr>)"

text \<open>
  \<open>cmykToRgb\<close> (colorEngine.js lines 87-93, worker.js lines 60-66). \<open>channel255 x k\<close>
  is the number handed to \<open>Math.round\<close>.
\<close>

definition channel255 :: "real \<Rightarrow> real \<Rightarrow> real" where
  "channel255 x k = 255 * (1 - x) * (1 - k)"

definition cmykToRgb :: "real \<Rightarrow> real \<Rightarrow> real \<Rightarrow> real \<Rightarrow> rgb" where
  "cmykToRgb c m y k =
     \<lparr>rgb_r = js_round (channel255 c k),
      rgb_g = js_round (channel255 m k),
      rgb_b = js_round (channel255 y k)\<rparr>"

section \<open>Tone shift\<close>

text \<open>
  \<open>applyDotGain\<close> (colorEngine.js lines 111-125, worker.js lines 68-76; \<open>dotGain\<close>
  of main-demo.js has the same body).
\<close>

definition applyDotGain :: "real \<Rightarrow> real \<Rightarrow> real \<Rightarrow> real \<Rightarrow> real" where
  "applyDotGain v gain shadowGain highlightGain =
     (if v \<le> 0 then 0
      else if v \<ge> 1 then 1
      else let midtoneBoost = sin (pi * v);
               positionalWeight =
                 (if v < 1 / 2
                  then highlightGain + (shadowGain - highlightGain) * (v * 2)
                  else shadowGain - (shadowGain - highlightGain) * ((v - 1 / 2) * 2))
           in min 1 (max 0 (v + gain * midtoneBoost * positionalWeight)))"

section \<open>Gamut classifier\<close>

text \<open>
  \<open>isOutOfGamut\<close> (worker.js lines 78-101; colorEngine.js lines 139-174 has the same
  body and the same \<open>gamutReduction\<close> values). The three colour components arrive as
  8-bit values.
\<close>

definition isOutOfGamut :: "real \<Rightarrow> real \<Rightarrow> real \<Rightarrow> paper \<Rightarrow> bool" where
  "isOutOfGamut r g b paperType =
     (let profile = PAPER_PROFILES paperType;
          rn = r / 255; gn = g / 255; bn = b / 255;
          mx = max (max rn gn) bn;
          mn = min (min rn gn) bn;
          lightness = (mx + mn) / 2;
          saturation =
            (if mx = mn then 0
             else (mx - mn) / (if lightness > 1 / 2 then 2 - mx - mn else mx + mn));
          hue =
            (if mx \<noteq> mn then
               (let d = mx - mn in
                if mx = rn then ((gn - bn) / d + (if gn < bn then 6 else 0)) / 6
                else if mx = gn then ((bn - rn) / d + 2) / 6
                else ((rn - gn) / d + 4) / 6)
             else 0);
          gamutThreshold = 82 / 100 - p_gamutReduction profile;
          isNeonGreen = (hue > 22 / 100 \<and> hue < 42 / 100 \<and> saturation > 7 / 10);
          isElectricBlue =
            (hue > 55 / 100 \<and> hue < 72 / 100 \<and> saturation > 75 / 100 \<and> lightness > 3 / 10);
          isBrightOrange = (hue > 5 / 100 \<and> hue < 12 / 100 \<and> saturation > 85 / 100);
          gamutThreshold' =
            (if isNeonGreen \<or> isElectricBlue \<or> isBrightOrange
             then gamutThreshold - 12 / 100 else gamutThreshold)
      in if lightness < 8 / 100 \<or> lightness > 94 / 100 then False
         else saturation > gamutThreshold')"

section \<open>Settings, statistics and messages\<close>

record settings =
  paperType :: paper
  dotGain :: real
  showC :: bool
  showM :: bool
  showY :: bool
  showK :: bool
  gamutOverlay :: bool

record risk =
  level :: string
  label :: string
  message :: string

text \<open>An entry of \<open>dominantColors\<close> as worker.js and main-demo.js build it.\<close>

record dominant =
  dc_r :: int
  dc_g :: int
  dc_b :: int
  dc_c :: int
  dc_m :: int
  dc_y :: int
  dc_k :: int

text \<open>
  The statistics record and the returned record. colorEngine.js builds its dominant-colour
  entries with other fields than worker.js, so the entry type is a parameter.
\<close>

record 'd stats =
  avgTAC :: int
  maxTAC :: int
  outOfGamutCount :: nat
  outOfGamutPercent :: real
  dominantColors :: "'d list"
  risk :: risk
  inkLimit :: int

record 'd result =
  outputPixels :: "pixel list"
  gamutPixels :: "pixel list"
  stats :: "'d stats"

text \<open>What the worker posts to its caller (worker.js lines 9-12).\<close>

datatype message =
  Progress int
| Result "pixel list" "pixel list" "dominant stats"
| Error string

text \<open>The decimal digits of a number, as a template literal or \<open>+\<close> on strings prints an integer.\<close>

fun digits :: "nat \<Rightarrow> string" where
  "digits n =
     (if n < 10 then [''0123456789'' ! n]
      else digits (n div 10) @ [''0123456789'' ! (n mod 10)])"

declare digits.simps [simp del]

definition js_string_of_int :: "int \<Rightarrow> string" where
  "js_string_of_int v = (if v < 0 then CHR ''-'' # digits (nat (- v)) else digits (nat v))"

section \<open>Dominant colour sampler (worker.js)\<close>

text \<open>
  The \<open>buckets\<close> object maps a key \<open>"r,g,b"\<close> to a count. Its keys are not array
  indices, so \<open>Object.entries\<close> lists them in insertion order: the object is an
  association list, and a key is the triple of numbers that the string holds.
\<close>

type_synonym bucket_key = "int \<times> int \<times> int"

text \<open>\<open>buckets[key] = (buckets[key] || 0) + 1\<close>\<close>

fun bump :: "bucket_key \<Rightarrow> (bucket_key \<times> nat) list \<Rightarrow> (bucket_key \<times> nat) list" where
  "bump key [] = [(key, 1)]"
| "bump key ((key', n) # rest) =
     (if key = key' then (key', n + 1) # rest else (key', n) # bump key rest)"

text \<open>
  The sampling loop of \<open>extractDominantColors\<close> (worker.js lines 106-114). It advances by
  \<open>sampleRate\<close>, which is an argument: with a stride of 0 it does not end, so the loop
  is a partial function and \<open>None\<close> stands for not returning.
\<close>

partial_function (option) extractDominantColors_loop ::
  "pixel list \<Rightarrow> nat \<Rightarrow> nat \<Rightarrow> (bucket_key \<times> nat) list \<Rightarrow> (bucket_key \<times> nat) list option"
where
  "extractDominantColors_loop pixels sampleRate i buckets =
     (if i < length pixels then
        (if px_a (pixels ! i) < 128
         then extractDominantColors_loop pixels sampleRate (i + sampleRate) buckets
         else
           (let r = js_round (byte_val (px_r (pixels ! i)) / 32) * 32;
                g = js_round (byte_val (px_g (pixels ! i)) / 32) * 32;
                b = js_round (byte_val (px_b (pixels ! i)) / 32) * 32
            in extractDominantColors_loop pixels sampleRate (i + sampleRate)
                 (bump (r, g, b) buckets)))
      else Some buckets)"

text \<open>
  \<open>.sort((a, b) => b[1] - a[1]).slice(0, 5)\<close>: a stable sort by descending count, then
  the first five.
\<close>

definition top5 :: "(bucket_key \<times> nat) list \<Rightarrow> (bucket_key \<times> nat) list" where
  "top5 entries = take 5 (sort_key (\<lambda>e. - int (snd e)) entries)"

definition dominant_of_entry :: "bucket_key \<times> nat \<Rightarrow> dominant" where
  "dominant_of_entry e =
     (case e of ((r, g, b), count) \<Rightarrow>
        let c = rgbToCmyk_w (real_of_int r / 255) (real_of_int g / 255) (real_of_int b / 255)
        in \<lparr>dc_r = r, dc_g = g, dc_b = b,
            dc_c = js_round (cmyk_c c * 100),
            dc_m = js_round (cmyk_m c * 100),
            dc_y = js_round (cmyk_y c * 100),
            dc_k = js_round (cmyk_k c * 100)\<rparr>)"

definition extractDominantColors :: "pixel list \<Rightarrow> nat \<Rightarrow> dominant list option" where
  "extractDominantColors pixels sampleRate =
     (case extractDominantColors_loop pixels sampleRate 0 [] of
        None \<Rightarrow> None
      | Some buckets \<Rightarrow> Some (map dominant_of_entry (top5 buckets)))"

section \<open>Pipeline driver (worker.js)\<close>

text \<open>The local variables of \<open>processImage\<close> that the pixel loop updates, and what it posts.\<close>

record pstate =
  st_outputPixels :: "pixel list"
  st_gamutPixels :: "pixel list"
  st_totalTAC :: real
  st_maxTAC :: real
  st_outOfGamutCount :: nat
  st_processedCount :: nat
  st_posted :: "message list"

text \<open>
  One iteration of the loop (worker.js lines 147-208) at pixel index \<open>i\<close>. When
  \<open>progressInterval\<close> is 0, \<open>i % progressInterval\<close> is \<open>NaN\<close> and nothing is posted.
\<close>

definition processImage_body :: "settings \<Rightarrow> pixel list \<Rightarrow> nat \<Rightarrow> pstate \<Rightarrow> pstate" where
  "processImage_body s pixels i st0 =
     (let profile = PAPER_PROFILES (paperType s);
          gain = dotGain s;
          pixelCount = length pixels;
          progressInterval = pixelCount div 20;
          st = (if progressInterval \<noteq> 0 \<and> i mod progressInterval = 0
                then st0\<lparr>st_posted := st_posted st0 @
                       [Progress (js_round (real i / real pixelCount * 100))]\<rparr>
                else st0);
          r = px_r (pixels ! i);
          g = px_g (pixels ! i);
          b = px_b (pixels ! i);
          a = px_a (pixels ! i)
      in if a = 0 then
           st\<lparr>st_outputPixels := (st_outputPixels st)
                  [i := \<lparr>px_r = 255, px_g = 255, px_b = 255, px_a = 255\<rparr>],
              st_gamutPixels := (st_gamutPixels st)
                  [i := (st_gamutPixels st ! i)\<lparr>px_a := 0\<rparr>]\<rparr>
         else
           (let q = rgbToCmyk_w (byte_val r / 255) (byte_val g / 255) (byte_val b / 255);
                c = applyDotGain (cmyk_c q) gain (p_shadowGain profile) (p_highlightGain profile);
                m = applyDotGain (cmyk_m q) gain (p_shadowGain profile) (p_highlightGain profile);
                y = applyDotGain (cmyk_y q) gain (p_shadowGain profile) (p_highlightGain profile);
                k = applyDotGain (cmyk_k q) gain (p_shadowGain profile) (p_highlightGain profile);
                c' = (if p_gamutReduction profile > 0
                      then min 1 (c + c * p_gamutReduction profile * (5 / 10)) else c);
                m' = (if p_gamutReduction profile > 0
                      then min 1 (m + m * p_gamutReduction profile * (3 / 10)) else m);
                y' = (if p_gamutReduction profile > 0
                      then min 1 (y + y * p_gamutReduction profile * (3 / 10)) else y);
                tac = (c' + m' + y' + k) * 100;
                oog = isOutOfGamut (byte_val r) (byte_val g) (byte_val b) (paperType s);
                fc = (if showC s then c' else 0);
                fm = (if showM s then m' else 0);
                fy = (if showY s then y' else 0);
                fk = (if showK s then k else 0);
                rgb = cmykToRgb fc fm fy fk
            in st\<lparr>st_totalTAC := st_totalTAC st + tac,
                  st_maxTAC := (if tac > st_maxTAC st then tac else st_maxTAC st),
                  st_outOfGamutCount :=
                    (if oog then st_outOfGamutCount st + 1 else st_outOfGamutCount st),
                  st_outputPixels := (st_outputPixels st)
                    [i := \<lparr>px_r = to_uint8_clamped (rgb_r rgb),
                            px_g = to_uint8_clamped (rgb_g rgb),
                            px_b = to_uint8_clamped (rgb_b rgb),
                            px_a = a\<rparr>],
                  st_gamutPixels := (st_gamutPixels st)
                    [i := (if gamutOverlay s \<and> oog
                           then \<lparr>px_r = 220, px_g = 38, px_b = 38, px_a = 150\<rparr>
                           else (st_gamutPixels st ! i)\<lparr>px_a := 0\<rparr>)],
                  st_processedCount := st_processedCount st + 1\<rparr>))"

text \<open>\<open>for (let i = 0; i < pixelCount; i++)\<close>\<close>

function processImage_loop :: "settings \<Rightarrow> pixel list \<Rightarrow> nat \<Rightarrow> pstate \<Rightarrow> pstate" where
  "processImage_loop s pixels i st =
     (if i < length pixels
      then processImage_loop s pixels (Suc i) (processImage_body s pixels i st)
      else st)"
  by pat_completeness auto
termination
  by (relation "measure (\<lambda>(s, pixels, i, st). length pixels - i)") auto

declare processImage_loop.simps [simp del]

text \<open>The two fresh \<open>Uint8ClampedArray\<close>s are filled with zeros.\<close>

definition processImage_init :: "pixel list \<Rightarrow> pstate" where
  "processImage_init pixels =
     \<lparr>st_outputPixels = replicate (length pixels) \<lparr>px_r = 0, px_g = 0, px_b = 0, px_a = 0\<rparr>,
      st_gamutPixels = replicate (length pixels) \<lparr>px_r = 0, px_g = 0, px_b = 0, px_a = 0\<rparr>,
      st_totalTAC = 0, st_maxTAC = 0, st_outOfGamutCount = 0, st_processedCount = 0,
      st_posted = []\<rparr>"

text \<open>
  The statistics and the risk verdict computed after the loop (worker.js lines 210-238),
  from the loop's final state and the dominant colours.
\<close>

definition processImage_finish ::
  "settings \<Rightarrow> pstate \<Rightarrow> dominant list \<Rightarrow> dominant result" where
  "processImage_finish s st dominantColors' =
     (let profile = PAPER_PROFILES (paperType s);
          avgTAC' = (if st_processedCount st > 0
                     then st_totalTAC st / real (st_processedCount st) else 0);
          outOfGamutPercent' =
            (if st_processedCount st > 0
             then real (st_outOfGamutCount st) / real (st_processedCount st) * 100 else 0);
          limit = p_inkLimit profile;
          risk' =
            (if st_maxTAC st > real_of_int (limit + 30) \<or> outOfGamutPercent' > 25 then
               \<lparr>level = ''danger'', label = ''High Risk'',
                message = ''Max ink coverage ('' @ js_string_of_int (js_round (st_maxTAC st))
                  @ ''%) exceeds the '' @ js_string_of_int limit @ ''% limit for ''
                  @ p_name profile @ '' paper. Printer may reject the file.''\<rparr>
             else if st_maxTAC st > real_of_int limit \<or> outOfGamutPercent' > 10 then
               \<lparr>level = ''caution'', label = ''Caution'',
                message = ''Some areas approach the '' @ js_string_of_int limit
                  @ ''% ink limit for '' @ p_name profile
                  @ '' paper. Review highlighted regions.''\<rparr>
             else
               \<lparr>level = ''safe'', label = ''Looking Good'',
                message = ''Ink coverage is within acceptable range for '' @ p_name profile
                  @ '' paper. Always verify with ICC soft proof before final production.''\<rparr>)
      in \<lparr>outputPixels = st_outputPixels st,
          gamutPixels = st_gamutPixels st,
          stats = \<lparr>avgTAC = js_round avgTAC',
                   maxTAC = js_round (st_maxTAC st),
                   outOfGamutCount = st_outOfGamutCount st,
                   outOfGamutPercent = real_of_int (js_round (outOfGamutPercent' * 10)) / 10,
                   dominantColors = dominantColors',
                   risk = risk',
                   inkLimit = limit\<rparr>\<rparr>)"

text \<open>
  \<open>processImage\<close> (worker.js lines 132-239): the progress messages it posts and the record
  it returns; \<open>None\<close> when it does not return.
\<close>

definition processImage ::
  "pixel list \<Rightarrow> settings \<Rightarrow> (message list \<times> dominant result) option" where
  "processImage pixels s =
     (let st = processImage_loop s pixels 0 (processImage_init pixels)
      in case extractDominantColors pixels 8 of
           None \<Rightarrow> None
         | Some dominantColors' \<Rightarrow> Some (st_posted st, processImage_finish s st dominantColors'))"

text \<open>
  The message handler (worker.js lines 242-269). A request whose \<open>pixels\<close> is absent is
  wrapped by \<open>new Uint8ClampedArray(undefined)\<close>, an array of length 0. The \<open>throw\<close> is
  caught by the handler's own \<open>catch\<close>, which posts the error's message.
\<close>

record request =
  req_type :: string
  req_pixels :: "pixel list option"
  req_settings :: settings

definition onmessage :: "request \<Rightarrow> message list option" where
  "onmessage e =
     (if req_type e \<noteq> ''process'' then Some []
      else
        (let pixelArray = (case req_pixels e of Some px \<Rightarrow> px | None \<Rightarrow> [])
         in if length pixelArray = 0
            then Some [Error ''No pixel data received. Image may not have loaded correctly.'']
            else
              (case processImage pixelArray (req_settings e) of
                 None \<Rightarrow> None
               | Some (posted, result) \<Rightarrow>
                   Some (posted @
                     [Result (outputPixels result) (gamutPixels result) (stats result)]))))"

section \<open>The pixel loop, pixel by pixel\<close>

text \<open>
  What one iteration of the worker's loop computes for a pixel that is not transparent,
  named stage by stage: \<open>c, m, y, k\<close> after the conversion (worker.js line 169), after
  the tone shift (lines 171-174) and after the gamut-reduction inflation (lines 176-180),
  the total coverage (line 182), the gamut flag (line 186), the output pixel
  (lines 189-198) and the overlay pixel (lines 200-205). The lemmas of section
  \<open>The worker's loop in closed form\<close> prove that the loop computes exactly these.
\<close>

definition converted_inks :: "pixel \<Rightarrow> cmyk" where
  "converted_inks p =
     rgbToCmyk_w (byte_val (px_r p) / 255) (byte_val (px_g p) / 255) (byte_val (px_b p) / 255)"

definition shifted_inks :: "settings \<Rightarrow> pixel \<Rightarrow> cmyk" where
  "shifted_inks s p =
     (let profile = PAPER_PROFILES (paperType s); q = converted_inks p in
      \<lparr>cmyk_c = applyDotGain (cmyk_c q) (dotGain s) (p_shadowGain profile) (p_highlightGain profile),
       cmyk_m = applyDotGain (cmyk_m q) (dotGain s) (p_shadowGain profile) (p_highlightGain profile),
       cmyk_y = applyDotGain (cmyk_y q) (dotGain s) (p_shadowGain profile) (p_highlightGain profile),
       cmyk_k = applyDotGain (cmyk_k q) (dotGain s) (p_shadowGain profile) (p_highlightGain profile)\<rparr>)"

definition inflated_inks :: "settings \<Rightarrow> pixel \<Rightarrow> cmyk" where
  "inflated_inks s p =
     (let profile = PAPER_PROFILES (paperType s); q = shifted_inks s p in
      if p_gamutReduction profile > 0 then
        \<lparr>cmyk_c = min 1 (cmyk_c q + cmyk_c q * p_gamutReduction profile * (5 / 10)),
         cmyk_m = min 1 (cmyk_m q + cmyk_m q * p_gamutReduction profile * (3 / 10)),
         cmyk_y = min 1 (cmyk_y q + cmyk_y q * p_gamutReduction profile * (3 / 10)),
         cmyk_k = cmyk_k q\<rparr>
      else q)"

definition pixel_tac :: "settings \<Rightarrow> pixel \<Rightarrow> real" where
  "pixel_tac s p =
     (let q = inflated_inks s p in (cmyk_c q + cmyk_m q + cmyk_y q + cmyk_k q) * 100)"

definition pixel_oog :: "settings \<Rightarrow> pixel \<Rightarrow> bool" where
  "pixel_oog s p =
     isOutOfGamut (byte_val (px_r p)) (byte_val (px_g p)) (byte_val (px_b p)) (paperType s)"

definition pixel_output :: "settings \<Rightarrow> pixel \<Rightarrow> pixel" where
  "pixel_output s p =
     (if px_a p = 0 then \<lparr>px_r = 255, px_g = 255, px_b = 255, px_a = 255\<rparr>
      else
        (let q = inflated_inks s p;
             rgb = cmykToRgb (if showC s then cmyk_c q else 0) (if showM s then cmyk_m q else 0)
                     (if showY s then cmyk_y q else 0) (if showK s then cmyk_k q else 0)
         in \<lparr>px_r = to_uint8_clamped (rgb_r rgb), px_g = to_uint8_clamped (rgb_g rgb),
             px_b = to_uint8_clamped (rgb_b rgb), px_a = px_a p\<rparr>))"

definition pixel_overlay :: "settings \<Rightarrow> pixel \<Rightarrow> pixel \<Rightarrow> pixel" where
  "pixel_overlay s p old =
     (if px_a p \<noteq> 0 \<and> gamutOverlay s \<and> pixel_oog s p
      then \<lparr>px_r = 220, px_g = 38, px_b = 38, px_a = 150\<rparr>
      else old\<lparr>px_a := 0\<rparr>)"

text \<open>
  The aggregates of an image, written over the list of its pixels: the pixels that are
  not transparent, the mean and the maximum of their total coverage, and the number and
  the percentage of those flagged out of gamut.
\<close>

definition opaque_pixels :: "pixel list \<Rightarrow> pixel list" where
  "opaque_pixels pixels = filter (\<lambda>p. px_a p \<noteq> 0) pixels"

definition image_avgTAC :: "settings \<Rightarrow> pixel list \<Rightarrow> real" where
  "image_avgTAC s pixels =
     (if length (opaque_pixels pixels) > 0
      then sum_list (map (pixel_tac s) (opaque_pixels pixels)) / real (length (opaque_pixels pixels))
      else 0)"

definition image_maxTAC :: "settings \<Rightarrow> pixel list \<Rightarrow> real" where
  "image_maxTAC s pixels = foldl max 0 (map (pixel_tac s) (opaque_pixels pixels))"

definition image_oogCount :: "settings \<Rightarrow> pixel list \<Rightarrow> nat" where
  "image_oogCount s pixels = length (filter (pixel_oog s) (opaque_pixels pixels))"

definition image_oogPercent :: "settings \<Rightarrow> pixel list \<Rightarrow> real" where
  "image_oogPercent s pixels =
     (if length (opaque_pixels pixels) > 0
      then real (image_oogCount s pixels) / real (length (opaque_pixels pixels)) * 100
      else 0)"

text \<open>
  The three-tier verdict as the specification words it: high risk (\<open>danger\<close>) if
  \<open>maxCoverage > limit + 30\<close> or \<open>outOfGamutPercent > 25\<close>, else \<open>caution\<close> if
  \<open>maxCoverage > limit\<close> or \<open>outOfGamutPercent > 10\<close>, else \<open>safe\<close>.
\<close>

definition spec_risk_level :: "real \<Rightarrow> real \<Rightarrow> int \<Rightarrow> string" where
  "spec_risk_level maxCoverage outOfGamutPercent' limit =
     (if maxCoverage > real_of_int limit + 30 \<or> outOfGamutPercent' > 25 then ''danger''
      else if maxCoverage > real_of_int limit \<or> outOfGamutPercent' > 10 then ''caution''
      else ''safe'')"

text \<open>Four channel values that all lie in [0,1].\<close>

definition unit_cmyk :: "cmyk \<Rightarrow> bool" where
  "unit_cmyk q =
     (0 \<le> cmyk_c q \<and> cmyk_c q \<le> 1 \<and> 0 \<le> cmyk_m q \<and> cmyk_m q \<le> 1 \<and>
      0 \<le> cmyk_y q \<and> cmyk_y q \<le> 1 \<and> 0 \<le> cmyk_k q \<and> cmyk_k q \<le> 1)"

section \<open>The pipeline of colorEngine.js\<close>

text \<open>
  colorEngine.js holds its own copy of the pipeline. Its profile table (lines 27-55)
  gives \<open>dotGain\<close> in percent. The \<open>description\<close> of a profile, which only the
  page displays, is left out.
\<close>

fun PAPER_PROFILES_ce :: "paper \<Rightarrow> profile" where
  "PAPER_PROFILES_ce Coated =
     \<lparr>p_name = ''Coated'', p_dotGain = 15, p_inkLimit = 300,
      p_gamutReduction = 0, p_shadowGain = 8 / 10, p_highlightGain = 4 / 10\<rparr>"
| "PAPER_PROFILES_ce Uncoated =
     \<lparr>p_name = ''Uncoated'', p_dotGain = 22, p_inkLimit = 280,
      p_gamutReduction = 8 / 100, p_shadowGain = 1, p_highlightGain = 5 / 10\<rparr>"
| "PAPER_PROFILES_ce Newsprint =
     \<lparr>p_name = ''Newsprint'', p_dotGain = 30, p_inkLimit = 240,
      p_gamutReduction = 18 / 100, p_shadowGain = 13 / 10, p_highlightGain = 6 / 10\<rparr>"

text \<open>\<open>isOutOfGamut\<close> of colorEngine.js (lines 139-174).\<close>

definition isOutOfGamut_ce :: "real \<Rightarrow> real \<Rightarrow> real \<Rightarrow> paper \<Rightarrow> bool" where
  "isOutOfGamut_ce r g b paperType' =
     (let profile = PAPER_PROFILES_ce paperType';
          rn = r / 255; gn = g / 255; bn = b / 255;
          mx = max (max rn gn) bn;
          mn = min (min rn gn) bn;
          lightness = (mx + mn) / 2;
          saturation =
            (if mx = mn then 0
             else (mx - mn) / (if lightness > 1 / 2 then 2 - mx - mn else mx + mn));
          hue =
            (if mx \<noteq> mn then
               (let d = mx - mn in
                if mx = rn then ((gn - bn) / d + (if gn < bn then 6 else 0)) / 6
                else if mx = gn then ((bn - rn) / d + 2) / 6
                else ((rn - gn) / d + 4) / 6)
             else 0);
          gamutThreshold = 82 / 100 - p_gamutReduction profile;
          isNeonGreen = (hue > 22 / 100 \<and> hue < 42 / 100 \<and> saturation > 7 / 10);
          isElectricBlue =
            (hue > 55 / 100 \<and> hue < 72 / 100 \<and> saturation > 75 / 100 \<and> lightness > 3 / 10);
          isBrightOrange = (hue > 5 / 100 \<and> hue < 12 / 100 \<and> saturation > 85 / 100);
          gamutThreshold' =
            (if isNeonGreen \<or> isElectricBlue \<or> isBrightOrange
             then gamutThreshold - 12 / 100 else gamutThreshold)
      in if lightness < 8 / 100 \<or> lightness > 94 / 100 then False
         else saturation > gamutThreshold')"

text \<open>\<open>totalInkCoverage\<close> (lines 185-187) and \<open>assessPrintRisk\<close> (lines 198-221).\<close>

definition totalInkCoverage :: "real \<Rightarrow> real \<Rightarrow> real \<Rightarrow> real \<Rightarrow> real" where
  "totalInkCoverage c m y k = (c + m + y + k) * 100"

definition assessPrintRisk :: "real \<Rightarrow> real \<Rightarrow> real \<Rightarrow> paper \<Rightarrow> risk" where
  "assessPrintRisk avgTAC' maxTAC' outOfGamutPercent' paperType' =
     (let profile = PAPER_PROFILES_ce paperType';
          limit = p_inkLimit profile
      in if maxTAC' > real_of_int (limit + 30) \<or> outOfGamutPercent' > 25 then
           \<lparr>level = ''danger'', label = ''High Risk'',
            message = ''Max ink coverage ('' @ js_string_of_int (js_round maxTAC')
              @ ''%) exceeds '' @ js_string_of_int limit @ ''% limit for '' @ p_name profile
              @ '' paper. Printer may reject file or drying issues may occur.''\<rparr>
         else if maxTAC' > real_of_int limit \<or> outOfGamutPercent' > 10 then
           \<lparr>level = ''caution'', label = ''Caution'',
            message = ''Some areas approach or exceed the '' @ js_string_of_int limit
              @ ''% ink limit. Review highlighted regions and consider reducing saturation in those areas.''\<rparr>
         else
           \<lparr>level = ''safe'', label = ''Looking Good'',
            message = ''Ink coverage within acceptable range for '' @ p_name profile
              @ '' paper. Always verify with ICC soft proof before final production.''\<rparr>)"

text \<open>
  \<open>extractDominantColors\<close> of colorEngine.js (lines 231-252). The loop reads the three
  colour bytes of every sampled pixel; it does not read the alpha byte.
\<close>

record dominant_ce =
  dce_r :: int
  dce_g :: int
  dce_b :: int
  dce_cmyk :: cmyk
  dce_count :: nat

partial_function (option) extractDominantColors_ce_loop ::
  "pixel list \<Rightarrow> nat \<Rightarrow> nat \<Rightarrow> (bucket_key \<times> nat) list \<Rightarrow> (bucket_key \<times> nat) list option"
where
  "extractDominantColors_ce_loop pixels sampleRate i buckets =
     (if i < length pixels then
        (let r = js_round (byte_val (px_r (pixels ! i)) / 32) * 32;
             g = js_round (byte_val (px_g (pixels ! i)) / 32) * 32;
             b = js_round (byte_val (px_b (pixels ! i)) / 32) * 32
         in extractDominantColors_ce_loop pixels sampleRate (i + sampleRate)
              (bump (r, g, b) buckets))
      else Some buckets)"

definition dominant_ce_of_entry :: "bucket_key \<times> nat \<Rightarrow> dominant_ce" where
  "dominant_ce_of_entry e =
     (case e of ((r, g, b), count) \<Rightarrow>
        \<lparr>dce_r = r, dce_g = g, dce_b = b,
         dce_cmyk = rgbToCmyk (real_of_int r / 255) (real_of_int g / 255) (real_of_int b / 255),
         dce_count = count\<rparr>)"

definition extractDominantColors_ce :: "pixel list \<Rightarrow> nat \<Rightarrow> dominant_ce list option" where
  "extractDominantColors_ce pixels sampleRate =
     (case extractDominantColors_ce_loop pixels sampleRate 0 [] of
        None \<Rightarrow> None
      | Some buckets \<Rightarrow> Some (map dominant_ce_of_entry (top5 buckets)))"

text \<open>The local variables of colorEngine.js's \<open>processImage\<close> that its loop updates.\<close>

record cstate =
  ce_outputPixels :: "pixel list"
  ce_gamutPixels :: "pixel list"
  ce_totalTAC :: real
  ce_maxTAC :: real
  ce_outOfGamutCount :: nat
  ce_processedCount :: nat

text \<open>One iteration of the loop (colorEngine.js lines 284-356) at pixel index \<open>i\<close>.\<close>

definition processImage_ce_body :: "settings \<Rightarrow> pixel list \<Rightarrow> nat \<Rightarrow> cstate \<Rightarrow> cstate" where
  "processImage_ce_body s sourcePixels i st =
     (let profile = PAPER_PROFILES_ce (paperType s);
          gain = dotGain s;
          r = px_r (sourcePixels ! i);
          g = px_g (sourcePixels ! i);
          b = px_b (sourcePixels ! i);
          a = px_a (sourcePixels ! i)
      in if a = 0 then
           st\<lparr>ce_outputPixels := (ce_outputPixels st)
                  [i := \<lparr>px_r = 255, px_g = 255, px_b = 255, px_a = 255\<rparr>],
              ce_gamutPixels := (ce_gamutPixels st)
                  [i := \<lparr>px_r = 255, px_g = 255, px_b = 255, px_a = 0\<rparr>]\<rparr>
         else
           (let q = rgbToCmyk (byte_val r / 255) (byte_val g / 255) (byte_val b / 255);
                c = applyDotGain (cmyk_c q) gain (p_shadowGain profile) (p_highlightGain profile);
                m = applyDotGain (cmyk_m q) gain (p_shadowGain profile) (p_highlightGain profile);
                y = applyDotGain (cmyk_y q) gain (p_shadowGain profile) (p_highlightGain profile);
                k = applyDotGain (cmyk_k q) gain (p_shadowGain profile) (p_highlightGain profile);
                c' = (if p_gamutReduction profile > 0
                      then min 1 (c * (1 + p_gamutReduction profile * (5 / 10))) else c);
                m' = (if p_gamutReduction profile > 0
                      then min 1 (m * (1 + p_gamutReduction profile * (3 / 10))) else m);
                y' = (if p_gamutReduction profile > 0
                      then min 1 (y * (1 + p_gamutReduction profile * (3 / 10))) else y);
                fc = (if showC s then c' else 0);
                fm = (if showM s then m' else 0);
                fy = (if showY s then y' else 0);
                fk = (if showK s then k else 0);
                tac = totalInkCoverage c' m' y' k;
                oog = isOutOfGamut_ce (byte_val r) (byte_val g) (byte_val b) (paperType s);
                rgb = cmykToRgb fc fm fy fk
            in st\<lparr>ce_totalTAC := ce_totalTAC st + tac,
                  ce_maxTAC := (if tac > ce_maxTAC st then tac else ce_maxTAC st),
                  ce_outOfGamutCount :=
                    (if oog then ce_outOfGamutCount st + 1 else ce_outOfGamutCount st),
                  ce_outputPixels := (ce_outputPixels st)
                    [i := \<lparr>px_r = to_uint8_clamped (rgb_r rgb),
                            px_g = to_uint8_clamped (rgb_g rgb),
                            px_b = to_uint8_clamped (rgb_b rgb),
                            px_a = a\<rparr>],
                  ce_gamutPixels := (ce_gamutPixels st)
                    [i := (if gamutOverlay s \<and> oog
                           then \<lparr>px_r = 220, px_g = 38, px_b = 38, px_a = 140\<rparr>
                           else \<lparr>px_r = 0, px_g = 0, px_b = 0, px_a = 0\<rparr>)],
                  ce_processedCount := ce_processedCount st + 1\<rparr>))"

function processImage_ce_loop :: "settings \<Rightarrow> pixel list \<Rightarrow> nat \<Rightarrow> cstate \<Rightarrow> cstate" where
  "processImage_ce_loop s sourcePixels i st =
     (if i < length sourcePixels
      then processImage_ce_loop s sourcePixels (Suc i) (processImage_ce_body s sourcePixels i st)
      else st)"
  by pat_completeness auto
termination
  by (relation "measure (\<lambda>(s, sourcePixels, i, st). length sourcePixels - i)") auto

declare processImage_ce_loop.simps [simp del]

definition processImage_ce_init :: "pixel list \<Rightarrow> cstate" where
  "processImage_ce_init sourcePixels =
     \<lparr>ce_outputPixels =
        replicate (length sourcePixels) \<lparr>px_r = 0, px_g = 0, px_b = 0, px_a = 0\<rparr>,
      ce_gamutPixels =
        replicate (length sourcePixels) \<lparr>px_r = 0, px_g = 0, px_b = 0, px_a = 0\<rparr>,
      ce_totalTAC = 0, ce_maxTAC = 0, ce_outOfGamutCount = 0, ce_processedCount = 0\<rparr>"

text \<open>\<open>processImage\<close> of colorEngine.js (lines 270-376); \<open>None\<close> when it does not return.\<close>

definition processImage_ce :: "pixel list \<Rightarrow> settings \<Rightarrow> dominant_ce result option" where
  "processImage_ce sourcePixels s =
     (let profile = PAPER_PROFILES_ce (paperType s);
          st = processImage_ce_loop s sourcePixels 0 (processImage_ce_init sourcePixels);
          avgTAC' = (if ce_processedCount st > 0
                     then ce_totalTAC st / real (ce_processedCount st) else 0);
          outOfGamutPercent' =
            (if ce_processedCount st > 0
             then real (ce_outOfGamutCount st) / real (ce_processedCount st) * 100 else 0)
      in case extractDominantColors_ce sourcePixels 8 of
           None \<Rightarrow> None
         | Some dominantColors' \<Rightarrow>
             Some \<lparr>outputPixels = ce_outputPixels st,
                   gamutPixels = ce_gamutPixels st,
                   stats = \<lparr>avgTAC = js_round avgTAC',
                            maxTAC = js_round (ce_maxTAC st),
                            outOfGamutCount = ce_outOfGamutCount st,
                            outOfGamutPercent =
                              real_of_int (js_round (outOfGamutPercent' * 10)) / 10,
                            dominantColors = dominantColors',
                            risk = assessPrintRisk avgTAC' (ce_maxTAC st) outOfGamutPercent'
                                     (paperType s),
                            inkLimit = p_inkLimit profile\<rparr>\<rparr>)"

text \<open>
  The same stages in colorEngine.js's loop: the conversion (line 305), the tone shift
  (lines 308-311), the inflation (lines 314-318), the total coverage (line 327), the gamut
  flag (line 332), the output pixel (lines 321-324 and 336-340) and the overlay pixel
  (lines 297-300 and 343-353).
\<close>

definition converted_inks_ce :: "pixel \<Rightarrow> cmyk" where
  "converted_inks_ce p =
     rgbToCmyk (byte_val (px_r p) / 255) (byte_val (px_g p) / 255) (byte_val (px_b p) / 255)"

definition shifted_inks_ce :: "settings \<Rightarrow> pixel \<Rightarrow> cmyk" where
  "shifted_inks_ce s p =
     (let profile = PAPER_PROFILES_ce (paperType s); q = converted_inks_ce p in
      \<lparr>cmyk_c = applyDotGain (cmyk_c q) (dotGain s) (p_shadowGain profile) (p_highlightGain profile),
       cmyk_m = applyDotGain (cmyk_m q) (dotGain s) (p_shadowGain profile) (p_highlightGain profile),
       cmyk_y = applyDotGain (cmyk_y q) (dotGain s) (p_shadowGain profile) (p_highlightGain profile),
       cmyk_k = applyDotGain (cmyk_k q) (dotGain s) (p_shadowGain profile) (p_highlightGain profile)\<rparr>)"

definition inflated_inks_ce :: "settings \<Rightarrow> pixel \<Rightarrow> cmyk" where
  "inflated_inks_ce s p =
     (let profile = PAPER_PROFILES_ce (paperType s); q = shifted_inks_ce s p in
      if p_gamutReduction profile > 0 then
        \<lparr>cmyk_c = min 1 (cmyk_c q * (1 + p_gamutReduction profile * (5 / 10))),
         cmyk_m = min 1 (cmyk_m q * (1 + p_gamutReduction profile * (3 / 10))),
         cmyk_y = min 1 (cmyk_y q * (1 + p_gamutReduction profile * (3 / 10))),
         cmyk_k = cmyk_k q\<rparr>
      else q)"

definition pixel_tac_ce :: "settings \<Rightarrow> pixel \<Rightarrow> real" where
  "pixel_tac_ce s p =
     (let q = inflated_inks_ce s p in totalInkCoverage (cmyk_c q) (cmyk_m q) (cmyk_y q) (cmyk_k q))"

definition pixel_oog_ce :: "settings \<Rightarrow> pixel \<Rightarrow> bool" where
  "pixel_oog_ce s p =
     isOutOfGamut_ce (byte_val (px_r p)) (byte_val (px_g p)) (byte_val (px_b p)) (paperType s)"

definition pixel_output_ce :: "settings \<Rightarrow> pixel \<Rightarrow> pixel" where
  "pixel_output_ce s p =
     (if px_a p = 0 then \<lparr>px_r = 255, px_g = 255, px_b = 255, px_a = 255\<rparr>
      else
        (let q = inflated_inks_ce s p;
             rgb = cmykToRgb (if showC s then cmyk_c q else 0) (if showM s then cmyk_m q else 0)
                     (if showY s then cmyk_y q else 0) (if showK s then cmyk_k q else 0)
         in \<lparr>px_r = to_uint8_clamped (rgb_r rgb), px_g = to_uint8_clamped (rgb_g rgb),
             px_b = to_uint8_clamped (rgb_b rgb), px_a = px_a p\<rparr>))"

definition pixel_overlay_ce :: "settings \<Rightarrow> pixel \<Rightarrow> pixel" where
  "pixel_overlay_ce s p =
     (if px_a p = 0 then \<lparr>px_r = 255, px_g = 255, px_b = 255, px_a = 0\<rparr>
      else if gamutOverlay s \<and> pixel_oog_ce s p
      then \<lparr>px_r = 220, px_g = 38, px_b = 38, px_a = 140\<rparr>
      else \<lparr>px_r = 0, px_g = 0, px_b = 0, px_a = 0\<rparr>)"

section \<open>The chunked pipeline of main-demo.js\<close>

text \<open>
  main-demo.js processes on the main thread. Its \<open>PAPERS\<close> table (lines 12-16) names the
  two responses \<open>sg\<close> and \<open>hg\<close>; the \<open>desc\<close> of a profile, which only the page
  displays, is left out. Its \<open>rgbToCmyk\<close>, \<open>cmykToRgb\<close> and \<open>dotGain\<close> (lines 19-40)
  have the bodies of worker.js's \<open>rgbToCmyk\<close>, \<open>cmykToRgb\<close> and \<open>applyDotGain\<close>, up
  to the names of the variables, and are \<open>rgbToCmyk_w\<close>, \<open>cmykToRgb\<close> and
  \<open>applyDotGain\<close> here.
\<close>

fun PAPERS :: "paper \<Rightarrow> profile" where
  "PAPERS Coated =
     \<lparr>p_name = ''Coated'', p_dotGain = 15 / 100, p_inkLimit = 300,
      p_gamutReduction = 0, p_shadowGain = 8 / 10, p_highlightGain = 4 / 10\<rparr>"
| "PAPERS Uncoated =
     \<lparr>p_name = ''Uncoated'', p_dotGain = 22 / 100, p_inkLimit = 280,
      p_gamutReduction = 8 / 100, p_shadowGain = 1, p_highlightGain = 5 / 10\<rparr>"
| "PAPERS Newsprint =
     \<lparr>p_name = ''Newsprint'', p_dotGain = 30 / 100, p_inkLimit = 240,
      p_gamutReduction = 18 / 100, p_shadowGain = 13 / 10, p_highlightGain = 6 / 10\<rparr>"

text \<open>\<open>outOfGamut\<close> of main-demo.js (lines 42-58): the hue is computed when \<open>d > 0\<close>.\<close>

definition outOfGamut :: "real \<Rightarrow> real \<Rightarrow> real \<Rightarrow> paper \<Rightarrow> bool" where
  "outOfGamut r g b pt =
     (let p = PAPERS pt;
          rn = r / 255; gn = g / 255; bn = b / 255;
          mx = max (max rn gn) bn; mn = min (min rn gn) bn;
          li = (mx + mn) / 2;
          sat = (if mx = mn then 0 else (mx - mn) / (if li > 1 / 2 then 2 - mx - mn else mx + mn));
          d = mx - mn;
          hue =
            (if d > 0 then
               (if mx = rn then ((gn - bn) / d + (if gn < bn then 6 else 0)) / 6
                else if mx = gn then ((bn - rn) / d + 2) / 6
                else ((rn - gn) / d + 4) / 6)
             else 0);
          thr = 82 / 100 - p_gamutReduction p;
          thr' =
            (if (hue > 22 / 100 \<and> hue < 42 / 100 \<and> sat > 7 / 10)
                \<or> (hue > 55 / 100 \<and> hue < 72 / 100 \<and> sat > 75 / 100 \<and> li > 3 / 10)
                \<or> (hue > 5 / 100 \<and> hue < 12 / 100 \<and> sat > 85 / 100)
             then thr - 12 / 100 else thr)
      in if li < 8 / 100 \<or> li > 94 / 100 then False else sat > thr')"

text \<open>
  \<open>dominantColors\<close> (main-demo.js lines 85-105): every tenth pixel is sampled.
\<close>

function dominantColors_loop ::
  "pixel list \<Rightarrow> nat \<Rightarrow> (bucket_key \<times> nat) list \<Rightarrow> (bucket_key \<times> nat) list"
where
  "dominantColors_loop pixels i buckets =
     (if i < length pixels then
        (if px_a (pixels ! i) < 128
         then dominantColors_loop pixels (i + 10) buckets
         else
           (let r = js_round (byte_val (px_r (pixels ! i)) / 32) * 32;
                g = js_round (byte_val (px_g (pixels ! i)) / 32) * 32;
                b = js_round (byte_val (px_b (pixels ! i)) / 32) * 32
            in dominantColors_loop pixels (i + 10) (bump (r, g, b) buckets)))
      else buckets)"
  by pat_completeness auto
termination
  by (relation "measure (\<lambda>(pixels, i, buckets). length pixels - i)") auto

declare dominantColors_loop.simps [simp del]

definition dominantColors_d :: "pixel list \<Rightarrow> dominant list" where
  "dominantColors_d pixels = map dominant_of_entry (top5 (dominantColors_loop pixels 0 []))"

definition CHUNK_SIZE :: nat where
  "CHUNK_SIZE = 80000"

text \<open>
  The variables of \<open>processPixels\<close> that \<open>chunk\<close> updates, with the index \<open>i\<close>, and
  the percentages handed to \<open>onProgress\<close>. When \<open>count\<close> is 0 the percentage is
  \<open>NaN\<close>, which is \<open>None\<close> here.
\<close>

record dstate =
  d_out :: "pixel list"
  d_gam :: "pixel list"
  d_totalTAC :: real
  d_maxTAC :: real
  d_oogCount :: nat
  d_procCount :: nat
  d_i :: nat
  d_progress :: "int option list"

text \<open>The body of the \<open>for\<close> loop of \<open>chunk\<close> (main-demo.js lines 124-160), at index \<open>i\<close>.\<close>

definition chunk_body :: "settings \<Rightarrow> pixel list \<Rightarrow> dstate \<Rightarrow> dstate" where
  "chunk_body s src st =
     (let p = PAPERS (paperType s);
          gain = dotGain s;
          i = d_i st;
          r = px_r (src ! i);
          g = px_g (src ! i);
          b = px_b (src ! i);
          a = px_a (src ! i)
      in if a = 0 then
           st\<lparr>d_out := (d_out st)[i := \<lparr>px_r = 255, px_g = 255, px_b = 255, px_a = 255\<rparr>],
              d_gam := (d_gam st)[i := (d_gam st ! i)\<lparr>px_a := 0\<rparr>]\<rparr>
         else
           (let raw = rgbToCmyk_w (byte_val r / 255) (byte_val g / 255) (byte_val b / 255);
                c = applyDotGain (cmyk_c raw) gain (p_shadowGain p) (p_highlightGain p);
                m = applyDotGain (cmyk_m raw) gain (p_shadowGain p) (p_highlightGain p);
                y = applyDotGain (cmyk_y raw) gain (p_shadowGain p) (p_highlightGain p);
                k = applyDotGain (cmyk_k raw) gain (p_shadowGain p) (p_highlightGain p);
                c' = (if p_gamutReduction p > 0
                      then min 1 (c + c * p_gamutReduction p * (5 / 10)) else c);
                m' = (if p_gamutReduction p > 0
                      then min 1 (m + m * p_gamutReduction p * (3 / 10)) else m);
                y' = (if p_gamutReduction p > 0
                      then min 1 (y + y * p_gamutReduction p * (3 / 10)) else y);
                tac = (c' + m' + y' + k) * 100;
                oog = outOfGamut (byte_val r) (byte_val g) (byte_val b) (paperType s);
                rgb = cmykToRgb (if showC s then c' else 0) (if showM s then m' else 0)
                        (if showY s then y' else 0) (if showK s then k else 0)
            in st\<lparr>d_totalTAC := d_totalTAC st + tac,
                  d_maxTAC := (if tac > d_maxTAC st then tac else d_maxTAC st),
                  d_oogCount := (if oog then d_oogCount st + 1 else d_oogCount st),
                  d_out := (d_out st)
                    [i := \<lparr>px_r = to_uint8_clamped (rgb_r rgb),
                            px_g = to_uint8_clamped (rgb_g rgb),
                            px_b = to_uint8_clamped (rgb_b rgb),
                            px_a = a\<rparr>],
                  d_gam := (d_gam st)
                    [i := (if gamutOverlay s \<and> oog
                           then \<lparr>px_r = 220, px_g = 38, px_b = 38, px_a = 150\<rparr>
                           else (d_gam st ! i)\<lparr>px_a := 0\<rparr>)],
                  d_procCount := d_procCount st + 1\<rparr>))"

text \<open>\<open>for (; i < end; i++)\<close>: a \<open>continue\<close> still increments \<open>i\<close>.\<close>

function chunk_for :: "settings \<Rightarrow> pixel list \<Rightarrow> nat \<Rightarrow> dstate \<Rightarrow> dstate" where
  "chunk_for s src end_i st =
     (if d_i st < end_i
      then chunk_for s src end_i ((chunk_body s src st)\<lparr>d_i := d_i st + 1\<rparr>)
      else st)"
  by pat_completeness auto
termination
  by (relation "measure (\<lambda>(s, src, end_i, st). end_i - d_i st)") auto

declare chunk_for.simps [simp del]

text \<open>
  \<open>chunk\<close> (main-demo.js lines 120-194) up to the test \<open>i < count\<close>: it runs the
  \<open>for\<close> loop over at most \<open>CHUNK_SIZE\<close> pixels, reports the percentage, and is
  scheduled again by \<open>setTimeout\<close> while pixels remain. Every chunk advances \<open>i\<close>, which
  the termination proof shows.
\<close>

function chunk :: "settings \<Rightarrow> pixel list \<Rightarrow> dstate \<Rightarrow> dstate" where
  "chunk s src st =
     (let count = length src;
          end_i = min (d_i st + CHUNK_SIZE) count;
          st1 = chunk_for s src end_i st;
          pct = (if count = 0 then None
                 else Some (js_round (real (d_i st1) / real count * 100)));
          st2 = st1\<lparr>d_progress := d_progress st1 @ [pct]\<rparr>
      in if d_i st2 < count then chunk s src st2 else st2)"
  by pat_completeness auto
termination
proof (relation "measure (\<lambda>(s, src, st). length src - d_i st)")
  show "wf (measure (\<lambda>(s, src, st). length src - d_i st))"
    by simp
next
  fix s :: settings and src :: "pixel list" and st :: dstate
    and count end_i :: nat and st1 :: dstate and pct :: "int option" and st2 :: dstate
  assume a: "count = length src" "end_i = min (d_i st + CHUNK_SIZE) count"
    "st1 = chunk_for s src end_i st"
    "st2 = st1\<lparr>d_progress := d_progress st1 @ [pct]\<rparr>"
    "d_i st2 < count"
  have reach: "d_i (chunk_for s src e t) = max (d_i t) e" for e t
  proof (induction s src e t rule: chunk_for.induct)
    case (1 s src e t)
    show ?case
    proof (cases "d_i t < e")
      case True
      then show ?thesis
        using 1 [OF True] by (subst chunk_for.simps) (simp add: max_def)
    next
      case False
      then show ?thesis
        by (subst chunk_for.simps) (simp add: max_def)
    qed
  qed
  have "d_i st2 = max (d_i st) end_i"
    using a reach by simp
  moreover have "0 < CHUNK_SIZE"
    by (simp add: CHUNK_SIZE_def)
  ultimately have "d_i st < d_i st2"
    using a by (auto simp: max_def min_def split: if_splits)
  then show "((s, src, st2), (s, src, st)) \<in> measure (\<lambda>(s, src, st). length src - d_i st)"
    using a by simp
qed

declare chunk.simps [simp del]

text \<open>The record handed to \<open>onDone\<close>: its statistics have no \<open>outOfGamutCount\<close>.\<close>

record stats_d =
  sd_avgTAC :: int
  sd_maxTAC :: int
  sd_outOfGamutPercent :: real
  sd_dominantColors :: "dominant list"
  sd_risk :: risk
  sd_inkLimit :: int

record result_d =
  rd_outputPixels :: "pixel list"
  rd_gamutPixels :: "pixel list"
  rd_stats :: stats_d

definition processPixels_init :: "pixel list \<Rightarrow> dstate" where
  "processPixels_init src =
     \<lparr>d_out = replicate (length src) \<lparr>px_r = 0, px_g = 0, px_b = 0, px_a = 0\<rparr>,
      d_gam = replicate (length src) \<lparr>px_r = 0, px_g = 0, px_b = 0, px_a = 0\<rparr>,
      d_totalTAC = 0, d_maxTAC = 0, d_oogCount = 0, d_procCount = 0, d_i = 0,
      d_progress = []\<rparr>"

text \<open>
  \<open>processPixels\<close> (main-demo.js lines 111-197): the percentages handed to
  \<open>onProgress\<close> and the record handed to \<open>onDone\<close>.
\<close>

definition processPixels :: "pixel list \<Rightarrow> settings \<Rightarrow> int option list \<times> result_d" where
  "processPixels src s =
     (let p = PAPERS (paperType s);
          st = chunk s src (processPixels_init src);
          avgTAC' = (if d_procCount st > 0 then d_totalTAC st / real (d_procCount st) else 0);
          oogPct = (if d_procCount st > 0
                    then real (d_oogCount st) / real (d_procCount st) * 100 else 0);
          lim = p_inkLimit p;
          risk' =
            (if d_maxTAC st > real_of_int (lim + 30) \<or> oogPct > 25 then
               \<lparr>level = ''danger'', label = ''High Risk'',
                message = ''Max ink coverage ('' @ js_string_of_int (js_round (d_maxTAC st))
                  @ ''%) exceeds the '' @ js_string_of_int lim @ ''% limit for ''
                  @ p_name p @ '' paper. Printer may reject the file.''\<rparr>
             else if d_maxTAC st > real_of_int lim \<or> oogPct > 10 then
               \<lparr>level = ''caution'', label = ''Caution'',
                message = ''Some areas approach the '' @ js_string_of_int lim
                  @ ''% ink limit for '' @ p_name p
                  @ '' paper. Review highlighted regions.''\<rparr>
             else
               \<lparr>level = ''safe'', label = ''Looking Good'',
                message = ''Ink coverage is within acceptable range for '' @ p_name p
                  @ '' paper. Always verify with ICC soft proof before final production.''\<rparr>)
      in (d_progress st,
          \<lparr>rd_outputPixels = d_out st,
           rd_gamutPixels = d_gam st,
           rd_stats = \<lparr>sd_avgTAC = js_round avgTAC',
                       sd_maxTAC = js_round (d_maxTAC st),
                       sd_outOfGamutPercent = real_of_int (js_round (oogPct * 10)) / 10,
                       sd_dominantColors = dominantColors_d src,
                       sd_risk = risk',
                       sd_inkLimit = lim\<rparr>\<rparr>))"

section \<open>The worker inlined in main.js\<close>

text \<open>
  main.js embeds a worker as the string \<open>WORKER_CODE\<close> (lines 12-148). Its profile
  table and its \<open>rgbToCmyk\<close>, \<open>cmykToRgb\<close>, \<open>applyDotGain\<close> and \<open>isOutOfGamut\<close>
  have the values and the bodies of worker.js, up to the names of the variables. Its
  sampler has the stride 8 written in, its progress interval is at least 1, and its
  high-risk message is shorter.
\<close>

function extractDominantColors_inline_loop ::
  "pixel list \<Rightarrow> nat \<Rightarrow> (bucket_key \<times> nat) list \<Rightarrow> (bucket_key \<times> nat) list"
where
  "extractDominantColors_inline_loop pixels i b =
     (if i < length pixels then
        (if px_a (pixels ! i) < 128
         then extractDominantColors_inline_loop pixels (i + 8) b
         else
           (let r = js_round (byte_val (px_r (pixels ! i)) / 32) * 32;
                g = js_round (byte_val (px_g (pixels ! i)) / 32) * 32;
                bv = js_round (byte_val (px_b (pixels ! i)) / 32) * 32
            in extractDominantColors_inline_loop pixels (i + 8) (bump (r, g, bv) b)))
      else b)"
  by pat_completeness auto
termination
  by (relation "measure (\<lambda>(pixels, i, b). length pixels - i)") auto

declare extractDominantColors_inline_loop.simps [simp del]

definition extractDominantColors_inline :: "pixel list \<Rightarrow> dominant list" where
  "extractDominantColors_inline pixels =
     map dominant_of_entry (top5 (extractDominantColors_inline_loop pixels 0 []))"

definition processImage_inline_body ::
  "settings \<Rightarrow> pixel list \<Rightarrow> nat \<Rightarrow> pstate \<Rightarrow> pstate" where
  "processImage_inline_body s pixels i st0 =
     (let prof = PAPER_PROFILES (paperType s);
          count = length pixels;
          interval = max 1 (count div 20);
          st = (if i mod interval = 0
                then st0\<lparr>st_posted := st_posted st0 @
                       [Progress (js_round (real i / real count * 100))]\<rparr>
                else st0);
          r = px_r (pixels ! i);
          g = px_g (pixels ! i);
          bv = px_b (pixels ! i);
          a = px_a (pixels ! i)
      in if a = 0 then
           st\<lparr>st_outputPixels := (st_outputPixels st)
                  [i := \<lparr>px_r = 255, px_g = 255, px_b = 255, px_a = 255\<rparr>],
              st_gamutPixels := (st_gamutPixels st)
                  [i := (st_gamutPixels st ! i)\<lparr>px_a := 0\<rparr>]\<rparr>
         else
           (let q = rgbToCmyk_w (byte_val r / 255) (byte_val g / 255) (byte_val bv / 255);
                c = applyDotGain (cmyk_c q) (dotGain s) (p_shadowGain prof) (p_highlightGain prof);
                m = applyDotGain (cmyk_m q) (dotGain s) (p_shadowGain prof) (p_highlightGain prof);
                y = applyDotGain (cmyk_y q) (dotGain s) (p_shadowGain prof) (p_highlightGain prof);
                k = applyDotGain (cmyk_k q) (dotGain s) (p_shadowGain prof) (p_highlightGain prof);
                c' = (if p_gamutReduction prof > 0
                      then min 1 (c + c * p_gamutReduction prof * (5 / 10)) else c);
                m' = (if p_gamutReduction prof > 0
                      then min 1 (m + m * p_gamutReduction prof * (3 / 10)) else m);
                y' = (if p_gamutReduction prof > 0
                      then min 1 (y + y * p_gamutReduction prof * (3 / 10)) else y);
                tac = (c' + m' + y' + k) * 100;
                oog = isOutOfGamut (byte_val r) (byte_val g) (byte_val bv) (paperType s);
                rgb = cmykToRgb (if showC s then c' else 0) (if showM s then m' else 0)
                        (if showY s then y' else 0) (if showK s then k else 0)
            in st\<lparr>st_totalTAC := st_totalTAC st + tac,
                  st_maxTAC := (if tac > st_maxTAC st then tac else st_maxTAC st),
                  st_outOfGamutCount :=
                    (if oog then st_outOfGamutCount st + 1 else st_outOfGamutCount st),
                  st_outputPixels := (st_outputPixels st)
                    [i := \<lparr>px_r = to_uint8_clamped (rgb_r rgb),
                            px_g = to_uint8_clamped (rgb_g rgb),
                            px_b = to_uint8_clamped (rgb_b rgb),
                            px_a = a\<rparr>],
                  st_gamutPixels := (st_gamutPixels st)
                    [i := (if gamutOverlay s \<and> oog
                           then \<lparr>px_r = 220, px_g = 38, px_b = 38, px_a = 150\<rparr>
                           else (st_gamutPixels st ! i)\<lparr>px_a := 0\<rparr>)],
                  st_processedCount := st_processedCount st + 1\<rparr>))"

function processImage_inline_loop ::
  "settings \<Rightarrow> pixel list \<Rightarrow> nat \<Rightarrow> pstate \<Rightarrow> pstate" where
  "processImage_inline_loop s pixels i st =
     (if i < length pixels
      then processImage_inline_loop s pixels (Suc i) (processImage_inline_body s pixels i st)
      else st)"
  by pat_completeness auto
termination
  by (relation "measure (\<lambda>(s, pixels, i, st). length pixels - i)") auto

declare processImage_inline_loop.simps [simp del]

definition processImage_inline :: "pixel list \<Rightarrow> settings \<Rightarrow> message list \<times> dominant result" where
  "processImage_inline pixels s =
     (let prof = PAPER_PROFILES (paperType s);
          st = processImage_inline_loop s pixels 0 (processImage_init pixels);
          avgTAC' = (if st_processedCount st > 0
                     then st_totalTAC st / real (st_processedCount st) else 0);
          oogPct = (if st_processedCount st > 0
                    then real (st_outOfGamutCount st) / real (st_processedCount st) * 100
                    else 0);
          lim = p_inkLimit prof;
          risk' =
            (if st_maxTAC st > real_of_int (lim + 30) \<or> oogPct > 25 then
               \<lparr>level = ''danger'', label = ''High Risk'',
                message = ''Max ink coverage ('' @ js_string_of_int (js_round (st_maxTAC st))
                  @ ''%) exceeds the '' @ js_string_of_int lim @ ''% limit for ''
                  @ p_name prof @ '' paper.''\<rparr>
             else if st_maxTAC st > real_of_int lim \<or> oogPct > 10 then
               \<lparr>level = ''caution'', label = ''Caution'',
                message = ''Some areas approach the '' @ js_string_of_int lim
                  @ ''% ink limit for '' @ p_name prof
                  @ '' paper. Review highlighted regions.''\<rparr>
             else
               \<lparr>level = ''safe'', label = ''Looking Good'',
                message = ''Ink coverage is within acceptable range for '' @ p_name prof
                  @ '' paper. Always verify with ICC soft proof before final production.''\<rparr>)
      in (st_posted st,
          \<lparr>outputPixels = st_outputPixels st,
           gamutPixels = st_gamutPixels st,
           stats = \<lparr>avgTAC = js_round avgTAC',
                    maxTAC = js_round (st_maxTAC st),
                    outOfGamutCount = st_outOfGamutCount st,
                    outOfGamutPercent = real_of_int (js_round (oogPct * 10)) / 10,
                    dominantColors = extractDominantColors_inline pixels,
                    risk = risk',
                    inkLimit = lim\<rparr>\<rparr>))"

text \<open>
  The inlined handler (main.js lines 137-147): \<open>!px || px.length === 0\<close> holds for an
  absent and for an empty buffer.
\<close>

definition onmessage_inline :: "request \<Rightarrow> message list" where
  "onmessage_inline e =
     (if req_type e \<noteq> ''process'' then []
      else
        (case req_pixels e of
           None \<Rightarrow> [Error ''No pixel data received.'']
         | Some px \<Rightarrow>
             if length px = 0 then [Error ''No pixel data received.'']
             else
               (let posted_result = processImage_inline px (req_settings e)
                in fst posted_result @
                   [Result (outputPixels (snd posted_result)) (gamutPixels (snd posted_result))
                      (stats (snd posted_result))])))"

section \<open>The converter in double arithmetic\<close>

text \<open>
  The definitions above compute with real numbers. A JavaScript number is an IEEE 754
  double, and every arithmetic operation rounds its exact result to the nearest double,
  ties to the even significand. \<open>fl\<close> is that rounding for results of magnitude below
  \<open>2 ^ 1024\<close>: the quantum of a double with binary exponent \<open>e\<close> is \<open>2 ^ (e - 52)\<close>,
  and the exponent does not go below \<open>-1022\<close> (subnormal numbers).
\<close>

definition pow2 :: "int \<Rightarrow> real" where
  "pow2 e = (if 0 \<le> e then 2 ^ nat e else 1 / 2 ^ nat (- e))"

definition round_ties_even :: "real \<Rightarrow> int" where
  "round_ties_even y =
     (if y - of_int \<lfloor>y\<rfloor> < 1 / 2 then \<lfloor>y\<rfloor>
      else if y - of_int \<lfloor>y\<rfloor> > 1 / 2 then \<lfloor>y\<rfloor> + 1
      else if even \<lfloor>y\<rfloor> then \<lfloor>y\<rfloor> else \<lfloor>y\<rfloor> + 1)"

definition binade :: "real \<Rightarrow> int" where
  "binade x = max \<lfloor>log 2 \<bar>x\<bar>\<rfloor> (- 1022)"

definition fl :: "real \<Rightarrow> real" where
  "fl x =
     (if x = 0 then 0
      else of_int (round_ties_even (x / pow2 (binade x - 52))) * pow2 (binade x - 52))"

text \<open>
  \<open>rgbToCmyk\<close> of colorEngine.js (lines 66-76) and the expression under \<open>Math.round\<close>
  in \<open>cmykToRgb\<close> (lines 87-93), with every subtraction, division and multiplication
  rounded: \<open>(1 - r - k) / denom\<close> is \<open>((1 - r) - k) / denom\<close> and
  \<open>255 * (1 - c) * (1 - k)\<close> is \<open>(255 * (1 - c)) * (1 - k)\<close>. \<open>Math.max\<close> and
  \<open>Math.round\<close> return exact results.
\<close>

definition rgbToCmyk_fl :: "real \<Rightarrow> real \<Rightarrow> real \<Rightarrow> cmyk" where
  "rgbToCmyk_fl r g b =
     (let k = fl (1 - max (max r g) b) in
      if k = 1 then \<lparr>cmyk_c = 0, cmyk_m = 0, cmyk_y = 0, cmyk_k = 1\<rparr>
      else let denom = fl (1 - k) in
        \<lparr>cmyk_c = fl (fl (fl (1 - r) - k) / denom),
         cmyk_m = fl (fl (fl (1 - g) - k) / denom),
         cmyk_y = fl (fl (fl (1 - b) - k) / denom),
         cmyk_k = k\<rparr>)"

definition channel255_fl :: "real \<Rightarrow> real \<Rightarrow> real" where
  "channel255_fl x k = fl (fl (255 * fl (1 - x)) * fl (1 - k))"

definition cmykToRgb_fl :: "real \<Rightarrow> real \<Rightarrow> real \<Rightarrow> real \<Rightarrow> rgb" where
  "cmykToRgb_fl c m y k =
     \<lparr>rgb_r = js_round (channel255_fl c k),
      rgb_g = js_round (channel255_fl m k),
      rgb_b = js_round (channel255_fl y k)\<rparr>"

section \<open>The converter and the tone shift\<close>

lemma js_round_near: "\<bar>real_of_int (js_round x) - x\<bar> \<le> 1 / 2"
  unfolding js_round_def by linarith

lemma rgbToCmyk_same_on_unit:
  assumes "0 \<le> r" "0 \<le> g" "0 \<le> b"
  shows "rgbToCmyk_w r g b = rgbToCmyk r g b"
  using assms unfolding rgbToCmyk_w_def rgbToCmyk_def Let_def by auto

lemma channel255_roundtrip:
  assumes "M \<noteq> 0"
  shows "channel255 ((M - x) / M) (1 - M) = 255 * x"
proof -
  have "(M - x) / M = 1 - x / M"
    using assms by (simp add: diff_divide_distrib)
  then have e: "(1 - (M - x) / M) * M = x"
    using assms by simp
  have m: "1 - (1 - M) = M"
    by simp
  show ?thesis
    unfolding channel255_def m mult.assoc e by (rule refl)
qed

lemma applyDotGain_zero_gain:
  assumes "0 \<le> v" "v \<le> 1"
  shows "applyDotGain v 0 sg hg = v"
  using assms unfolding applyDotGain_def Let_def by auto

lemma applyDotGain_range: "0 \<le> applyDotGain v gain sg hg \<and> applyDotGain v gain sg hg \<le> 1"
  unfolding applyDotGain_def Let_def by auto

text \<open>
  C8. Whatever the magnitude and the shadow and highlight responses, the tone shift leaves
  the boundary values alone, \<open>applyDotGain 0 = 0\<close> and \<open>applyDotGain 1 = 1\<close>, and maps
  every value of [0,1] into [0,1].
\<close>

theorem C8_applyDotGain_boundaries_and_range:
  "applyDotGain 0 gain sg hg = 0 \<and> applyDotGain 1 gain sg hg = 1 \<and>
   (\<forall>v. 0 \<le> v \<and> v \<le> 1 \<longrightarrow>
        0 \<le> applyDotGain v gain sg hg \<and> applyDotGain v gain sg hg \<le> 1)"
  unfolding applyDotGain_def Let_def by auto

theorem C8_applyDotGain_witness:
  "(0::real) \<le> 1 / 2 \<and> (1 / 2 :: real) \<le> 1 \<and>
   applyDotGain 0 (15 / 100) (8 / 10) (4 / 10) = 0 \<and>
   applyDotGain 1 (15 / 100) (8 / 10) (4 / 10) = 1 \<and>
   0 \<le> applyDotGain (1 / 2) (15 / 100) (8 / 10) (4 / 10) \<and>
   applyDotGain (1 / 2) (15 / 100) (8 / 10) (4 / 10) \<le> 1"
  using C8_applyDotGain_boundaries_and_range [of "15 / 100" "8 / 10" "4 / 10"]
  by simp

lemma rgbToCmyk_unit:
  assumes "0 \<le> r" "r \<le> 1" "0 \<le> g" "g \<le> 1" "0 \<le> b" "b \<le> 1"
  shows "0 \<le> cmyk_c (rgbToCmyk r g b) \<and> cmyk_c (rgbToCmyk r g b) \<le> 1 \<and>
         0 \<le> cmyk_m (rgbToCmyk r g b) \<and> cmyk_m (rgbToCmyk r g b) \<le> 1 \<and>
         0 \<le> cmyk_y (rgbToCmyk r g b) \<and> cmyk_y (rgbToCmyk r g b) \<le> 1 \<and>
         0 \<le> cmyk_k (rgbToCmyk r g b) \<and> cmyk_k (rgbToCmyk r g b) \<le> 1"
  using assms unfolding rgbToCmyk_def Let_def
  by (auto simp: field_simps max_def)

text \<open>
  Over the real numbers the round trip is exact before the rounding to 8 bits. This is a
  fact of real arithmetic only: the doubles of the program round every operation, and
  the section on double arithmetic below treats them.
\<close>

lemma roundtrip_exact:
  assumes "0 \<le> r" "0 \<le> g" "0 \<le> b"
  shows "channel255 (cmyk_c (rgbToCmyk r g b)) (cmyk_k (rgbToCmyk r g b)) = 255 * r"
    and "channel255 (cmyk_m (rgbToCmyk r g b)) (cmyk_k (rgbToCmyk r g b)) = 255 * g"
    and "channel255 (cmyk_y (rgbToCmyk r g b)) (cmyk_k (rgbToCmyk r g b)) = 255 * b"
proof -
  let ?M = "max (max r g) b"
  show "channel255 (cmyk_c (rgbToCmyk r g b)) (cmyk_k (rgbToCmyk r g b)) = 255 * r"
  proof (cases "?M = 0")
    case True
    with assms have "r = 0" by (auto simp: max_def split: if_splits)
    with True show ?thesis by (simp add: rgbToCmyk_def channel255_def)
  next
    case False
    then show ?thesis by (simp add: rgbToCmyk_def Let_def channel255_roundtrip)
  qed
  show "channel255 (cmyk_m (rgbToCmyk r g b)) (cmyk_k (rgbToCmyk r g b)) = 255 * g"
  proof (cases "?M = 0")
    case True
    with assms have "g = 0" by (auto simp: max_def split: if_splits)
    with True show ?thesis by (simp add: rgbToCmyk_def channel255_def)
  next
    case False
    then show ?thesis by (simp add: rgbToCmyk_def Let_def channel255_roundtrip)
  qed
  show "channel255 (cmyk_y (rgbToCmyk r g b)) (cmyk_k (rgbToCmyk r g b)) = 255 * b"
  proof (cases "?M = 0")
    case True
    with assms have "b = 0" by (auto simp: max_def split: if_splits)
    with True show ?thesis by (simp add: rgbToCmyk_def channel255_def)
  next
    case False
    then show ?thesis by (simp add: rgbToCmyk_def Let_def channel255_roundtrip)
  qed
qed

text \<open>
  C9. \<open>rgbToCmyk(0, 0, 0)\<close> is exactly \<open>(0, 0, 0, 1)\<close>, in colorEngine.js and in worker.js,
  and for \<open>r, g, b\<close> in [0,1] neither converter reaches its division with a zero
  denominator: the instrumented converter returns the converter's result, never the fault.
\<close>

theorem C9_rgbToCmyk_black_no_zero_division:
  "rgbToCmyk 0 0 0 = \<lparr>cmyk_c = 0, cmyk_m = 0, cmyk_y = 0, cmyk_k = 1\<rparr> \<and>
   rgbToCmyk_w 0 0 0 = \<lparr>cmyk_c = 0, cmyk_m = 0, cmyk_y = 0, cmyk_k = 1\<rparr> \<and>
   (\<forall>r g b. 0 \<le> r \<and> r \<le> 1 \<and> 0 \<le> g \<and> g \<le> 1 \<and> 0 \<le> b \<and> b \<le> 1 \<longrightarrow>
      rgbToCmyk_checked r g b = Inr (rgbToCmyk r g b) \<and>
      rgbToCmyk_w_checked r g b = Inr (rgbToCmyk_w r g b))"
  by (auto simp: rgbToCmyk_def rgbToCmyk_w_def rgbToCmyk_checked_def rgbToCmyk_w_checked_def
      Let_def)

theorem C9_rgbToCmyk_witness:
  "(0::real) \<le> 1 / 2 \<and> (1 / 2::real) \<le> 1 \<and> (0::real) \<le> 1 / 4 \<and> (1 / 4::real) \<le> 1 \<and>
   (0::real) \<le> 0 \<and> (0::real) \<le> 1 \<and>
   rgbToCmyk_checked (1 / 2) (1 / 4) 0 = Inr (rgbToCmyk (1 / 2) (1 / 4) 0) \<and>
   rgbToCmyk_w_checked (1 / 2) (1 / 4) 0 = Inr (rgbToCmyk_w (1 / 2) (1 / 4) 0) \<and>
   rgbToCmyk (1 / 2) (1 / 4) 0 = \<lparr>cmyk_c = 0, cmyk_m = 1 / 2, cmyk_y = 1, cmyk_k = 1 / 2\<rparr>"
proof -
  have "rgbToCmyk (1 / 2) (1 / 4) 0 = \<lparr>cmyk_c = 0, cmyk_m = 1 / 2, cmyk_y = 1, cmyk_k = 1 / 2\<rparr>"
    by (simp add: rgbToCmyk_def Let_def)
  then show ?thesis
    using C9_rgbToCmyk_black_no_zero_division by simp
qed

section \<open>The worker's loop in closed form\<close>

lemma w_body_totalTAC:
  "st_totalTAC (processImage_body s pixels i st) =
     (if px_a (pixels ! i) = 0 then st_totalTAC st
      else st_totalTAC st + pixel_tac s (pixels ! i))"
  by (simp add: processImage_body_def Let_def pixel_tac_def inflated_inks_def shifted_inks_def
      converted_inks_def pixel_oog_def pixel_output_def pixel_overlay_def)

lemma w_body_maxTAC:
  "st_maxTAC (processImage_body s pixels i st) =
     (if px_a (pixels ! i) = 0 then st_maxTAC st
      else max (st_maxTAC st) (pixel_tac s (pixels ! i)))"
  by (simp add: processImage_body_def Let_def pixel_tac_def inflated_inks_def shifted_inks_def
      converted_inks_def pixel_oog_def pixel_output_def pixel_overlay_def max_def)

lemma w_body_outOfGamutCount:
  "st_outOfGamutCount (processImage_body s pixels i st) =
     (if px_a (pixels ! i) \<noteq> 0 \<and> pixel_oog s (pixels ! i)
      then st_outOfGamutCount st + 1 else st_outOfGamutCount st)"
  by (simp add: processImage_body_def Let_def pixel_tac_def inflated_inks_def shifted_inks_def
      converted_inks_def pixel_oog_def pixel_output_def pixel_overlay_def)

lemma w_body_processedCount:
  "st_processedCount (processImage_body s pixels i st) =
     (if px_a (pixels ! i) \<noteq> 0 then st_processedCount st + 1 else st_processedCount st)"
  by (simp add: processImage_body_def Let_def pixel_tac_def inflated_inks_def shifted_inks_def
      converted_inks_def pixel_oog_def pixel_output_def pixel_overlay_def)

lemma w_body_outputPixels:
  "st_outputPixels (processImage_body s pixels i st) =
     (st_outputPixels st)[i := pixel_output s (pixels ! i)]"
  by (simp add: processImage_body_def Let_def pixel_tac_def inflated_inks_def shifted_inks_def
      converted_inks_def pixel_oog_def pixel_output_def pixel_overlay_def)

lemma w_body_gamutPixels:
  "st_gamutPixels (processImage_body s pixels i st) =
     (st_gamutPixels st)[i := pixel_overlay s (pixels ! i) (st_gamutPixels st ! i)]"
  by (simp add: processImage_body_def Let_def pixel_tac_def inflated_inks_def shifted_inks_def
      converted_inks_def pixel_oog_def pixel_output_def pixel_overlay_def)

lemma w_loop_step:
  "i < length pixels \<Longrightarrow>
   processImage_loop s pixels i st = processImage_loop s pixels (Suc i) (processImage_body s pixels i st)"
  by (subst processImage_loop.simps) simp

lemma w_loop_done:
  "\<not> i < length pixels \<Longrightarrow> processImage_loop s pixels i st = st"
  by (subst processImage_loop.simps) simp

lemma w_loop_totalTAC:
  "st_totalTAC (processImage_loop s pixels i st) =
     st_totalTAC st
       + sum_list (map (pixel_tac s) (filter (\<lambda>p. px_a p \<noteq> 0) (drop i pixels)))"
proof (induction s pixels i st rule: processImage_loop.induct)
  case (1 s pixels i st)
  show ?case
  proof (cases "i < length pixels")
    case True
    have d: "drop i pixels = pixels ! i # drop (Suc i) pixels"
      using True by (simp add: Cons_nth_drop_Suc)
    show ?thesis
      using 1 [OF True] True
      by (simp add: w_loop_step d w_body_totalTAC)
  next
    case False
    then show ?thesis
      by (simp add: w_loop_done)
  qed
qed

lemma w_loop_maxTAC:
  "st_maxTAC (processImage_loop s pixels i st) =
     foldl max (st_maxTAC st)
       (map (pixel_tac s) (filter (\<lambda>p. px_a p \<noteq> 0) (drop i pixels)))"
proof (induction s pixels i st rule: processImage_loop.induct)
  case (1 s pixels i st)
  show ?case
  proof (cases "i < length pixels")
    case True
    have d: "drop i pixels = pixels ! i # drop (Suc i) pixels"
      using True by (simp add: Cons_nth_drop_Suc)
    show ?thesis
      using 1 [OF True] True
      by (simp add: w_loop_step d w_body_maxTAC)
  next
    case False
    then show ?thesis
      by (simp add: w_loop_done)
  qed
qed

lemma w_loop_outOfGamutCount:
  "st_outOfGamutCount (processImage_loop s pixels i st) =
     st_outOfGamutCount st
       + length (filter (\<lambda>p. px_a p \<noteq> 0 \<and> pixel_oog s p) (drop i pixels))"
proof (induction s pixels i st rule: processImage_loop.induct)
  case (1 s pixels i st)
  show ?case
  proof (cases "i < length pixels")
    case True
    have d: "drop i pixels = pixels ! i # drop (Suc i) pixels"
      using True by (simp add: Cons_nth_drop_Suc)
    show ?thesis
      using 1 [OF True] True
      by (simp add: w_loop_step d w_body_outOfGamutCount)
  next
    case False
    then show ?thesis
      by (simp add: w_loop_done)
  qed
qed

lemma w_loop_processedCount:
  "st_processedCount (processImage_loop s pixels i st) =
     st_processedCount st + length (filter (\<lambda>p. px_a p \<noteq> 0) (drop i pixels))"
proof (induction s pixels i st rule: processImage_loop.induct)
  case (1 s pixels i st)
  show ?case
  proof (cases "i < length pixels")
    case True
    have d: "drop i pixels = pixels ! i # drop (Suc i) pixels"
      using True by (simp add: Cons_nth_drop_Suc)
    show ?thesis
      using 1 [OF True] True
      by (simp add: w_loop_step d w_body_processedCount)
  next
    case False
    then show ?thesis
      by (simp add: w_loop_done)
  qed
qed

lemma w_loop_outputPixels_length:
  "length (st_outputPixels (processImage_loop s pixels i st)) = length (st_outputPixels st)"
proof (induction s pixels i st rule: processImage_loop.induct)
  case (1 s pixels i st)
  show ?case
  proof (cases "i < length pixels")
    case True
    have d: "drop i pixels = pixels ! i # drop (Suc i) pixels"
      using True by (simp add: Cons_nth_drop_Suc)
    show ?thesis
      using 1 [OF True] True
      by (simp add: w_loop_step d w_body_outputPixels)
  next
    case False
    then show ?thesis
      by (simp add: w_loop_done)
  qed
qed

lemma w_loop_gamutPixels_length:
  "length (st_gamutPixels (processImage_loop s pixels i st)) = length (st_gamutPixels st)"
proof (induction s pixels i st rule: processImage_loop.induct)
  case (1 s pixels i st)
  show ?case
  proof (cases "i < length pixels")
    case True
    have d: "drop i pixels = pixels ! i # drop (Suc i) pixels"
      using True by (simp add: Cons_nth_drop_Suc)
    show ?thesis
      using 1 [OF True] True
      by (simp add: w_loop_step d w_body_gamutPixels)
  next
    case False
    then show ?thesis
      by (simp add: w_loop_done)
  qed
qed

lemma w_loop_outputPixels_nth:
  "j < length (st_outputPixels st) \<Longrightarrow> length (st_outputPixels st) = length pixels \<Longrightarrow>
   st_outputPixels (processImage_loop s pixels i st) ! j =
     (if j < i then st_outputPixels st ! j else pixel_output s (pixels ! j))"
proof (induction s pixels i st rule: processImage_loop.induct)
  case (1 s pixels i st)
  show ?case
  proof (cases "i < length pixels")
    case True
    have d: "drop i pixels = pixels ! i # drop (Suc i) pixels"
      using True by (simp add: Cons_nth_drop_Suc)
    show ?thesis
      using 1(1) [OF True] 1(2,3) True
      by (auto simp: w_loop_step d w_body_outputPixels nth_list_update less_Suc_eq)
  next
    case False
    then show ?thesis using 1(2,3)
      by (simp add: w_loop_done)
  qed
qed

lemma w_loop_gamutPixels_nth:
  "j < length (st_gamutPixels st) \<Longrightarrow> length (st_gamutPixels st) = length pixels \<Longrightarrow>
   st_gamutPixels (processImage_loop s pixels i st) ! j =
     (if j < i then st_gamutPixels st ! j
      else pixel_overlay s (pixels ! j) (st_gamutPixels st ! j))"
proof (induction s pixels i st rule: processImage_loop.induct)
  case (1 s pixels i st)
  show ?case
  proof (cases "i < length pixels")
    case True
    have d: "drop i pixels = pixels ! i # drop (Suc i) pixels"
      using True by (simp add: Cons_nth_drop_Suc)
    show ?thesis
      using 1(1) [OF True] 1(2,3) True
      by (auto simp: w_loop_step d w_body_gamutPixels nth_list_update less_Suc_eq)
  next
    case False
    then show ?thesis using 1(2,3)
      by (simp add: w_loop_done)
  qed
qed

section \<open>The worker's sampler returns\<close>

lemma extractDominantColors_loop_total:
  "0 < sampleRate \<Longrightarrow> \<exists>b'. extractDominantColors_loop pixels sampleRate i b = Some b'"
proof (induction "length pixels - i" arbitrary: i b rule: less_induct)
  case less
  show ?case
  proof (cases "i < length pixels")
    case True
    then have lt: "length pixels - (i + sampleRate) < length pixels - i"
      using less.prems by simp
    have "\<exists>b'. extractDominantColors_loop pixels sampleRate (i + sampleRate) c = Some b'" for c
      using less.hyps [OF lt less.prems] .
    then show ?thesis
      using True by (subst extractDominantColors_loop.simps) (simp add: Let_def)
  next
    case False
    then show ?thesis
      by (subst extractDominantColors_loop.simps) simp
  qed
qed

lemma extractDominantColors_total:
  "0 < sampleRate \<Longrightarrow> \<exists>d. extractDominantColors pixels sampleRate = Some d"
  using extractDominantColors_loop_total [of sampleRate pixels 0 "[]"]
  by (auto simp: extractDominantColors_def)

lemma extractDominantColors_loop_skips:
  "0 < sampleRate \<Longrightarrow> \<forall>p \<in> set pixels. px_a p < 128 \<Longrightarrow>
   extractDominantColors_loop pixels sampleRate i b = Some b"
proof (induction "length pixels - i" arbitrary: i rule: less_induct)
  case less
  show ?case
  proof (cases "i < length pixels")
    case True
    then have lt: "length pixels - (i + sampleRate) < length pixels - i"
      using less.prems by simp
    have skip: "px_a (pixels ! i) < 128"
      using True less.prems(2) by simp
    have "extractDominantColors_loop pixels sampleRate (i + sampleRate) b = Some b"
      using less.hyps [OF lt less.prems] .
    then show ?thesis
      using True skip by (subst extractDominantColors_loop.simps) simp
  next
    case False
    then show ?thesis
      by (subst extractDominantColors_loop.simps) simp
  qed
qed

lemma extractDominantColors_all_skipped:
  "0 < sampleRate \<Longrightarrow> \<forall>p \<in> set pixels. px_a p < 128 \<Longrightarrow>
   extractDominantColors pixels sampleRate = Some []"
  by (simp add: extractDominantColors_def extractDominantColors_loop_skips top5_def)

section \<open>What the worker's \<open>processImage\<close> returns\<close>

lemma processImage_returns: "\<exists>posted res. processImage pixels s = Some (posted, res)"
proof -
  obtain d where "extractDominantColors pixels 8 = Some d"
    using extractDominantColors_total [of 8 pixels] by auto
  then show ?thesis
    by (simp add: processImage_def Let_def)
qed

lemma w_final_totalTAC:
  "st_totalTAC (processImage_loop s pixels 0 (processImage_init pixels)) =
     sum_list (map (pixel_tac s) (opaque_pixels pixels))"
  by (simp add: w_loop_totalTAC processImage_init_def opaque_pixels_def)

lemma w_final_maxTAC:
  "st_maxTAC (processImage_loop s pixels 0 (processImage_init pixels)) = image_maxTAC s pixels"
  by (simp add: w_loop_maxTAC processImage_init_def opaque_pixels_def image_maxTAC_def)

lemma w_final_outOfGamutCount:
  "st_outOfGamutCount (processImage_loop s pixels 0 (processImage_init pixels)) =
     image_oogCount s pixels"
  by (simp add: w_loop_outOfGamutCount processImage_init_def opaque_pixels_def
      image_oogCount_def conj_commute)

lemma w_final_processedCount:
  "st_processedCount (processImage_loop s pixels 0 (processImage_init pixels)) =
     length (opaque_pixels pixels)"
  by (simp add: w_loop_processedCount processImage_init_def opaque_pixels_def)

lemma w_final_outputPixels:
  "st_outputPixels (processImage_loop s pixels 0 (processImage_init pixels)) =
     map (pixel_output s) pixels"
  by (rule nth_equalityI)
    (simp_all add: w_loop_outputPixels_length w_loop_outputPixels_nth processImage_init_def)

lemma w_final_gamutPixels:
  "st_gamutPixels (processImage_loop s pixels 0 (processImage_init pixels)) =
     map (\<lambda>p. pixel_overlay s p \<lparr>px_r = 0, px_g = 0, px_b = 0, px_a = 0\<rparr>) pixels"
  by (rule nth_equalityI)
    (simp_all add: w_loop_gamutPixels_length w_loop_gamutPixels_nth processImage_init_def)

lemmas w_final =
  w_final_totalTAC w_final_maxTAC w_final_outOfGamutCount w_final_processedCount
  w_final_outputPixels w_final_gamutPixels

lemma processImage_result:
  assumes "processImage pixels s = Some (posted, res)"
  shows "outputPixels res = map (pixel_output s) pixels"
    and "gamutPixels res =
           map (\<lambda>p. pixel_overlay s p \<lparr>px_r = 0, px_g = 0, px_b = 0, px_a = 0\<rparr>) pixels"
    and "avgTAC (stats res) = js_round (image_avgTAC s pixels)"
    and "maxTAC (stats res) = js_round (image_maxTAC s pixels)"
    and "outOfGamutCount (stats res) = image_oogCount s pixels"
    and "outOfGamutPercent (stats res) =
           real_of_int (js_round (image_oogPercent s pixels * 10)) / 10"
    and "extractDominantColors pixels 8 = Some (dominantColors (stats res))"
    and "level (risk (stats res)) =
           spec_risk_level (image_maxTAC s pixels) (image_oogPercent s pixels)
             (p_inkLimit (PAPER_PROFILES (paperType s)))"
    and "inkLimit (stats res) = p_inkLimit (PAPER_PROFILES (paperType s))"
proof -
  obtain d where d: "extractDominantColors pixels 8 = Some d"
    using extractDominantColors_total [of 8 pixels] by auto
  let ?st = "processImage_loop s pixels 0 (processImage_init pixels)"
  have res: "res = processImage_finish s ?st d"
    using assms d by (simp add: processImage_def Let_def)
  show "outputPixels res = map (pixel_output s) pixels"
    by (simp add: res processImage_finish_def Let_def w_final)
  show "gamutPixels res =
          map (\<lambda>p. pixel_overlay s p \<lparr>px_r = 0, px_g = 0, px_b = 0, px_a = 0\<rparr>) pixels"
    by (simp add: res processImage_finish_def Let_def w_final)
  show "avgTAC (stats res) = js_round (image_avgTAC s pixels)"
    by (simp add: res processImage_finish_def Let_def w_final image_avgTAC_def)
  show "maxTAC (stats res) = js_round (image_maxTAC s pixels)"
    by (simp add: res processImage_finish_def Let_def w_final)
  show "outOfGamutCount (stats res) = image_oogCount s pixels"
    by (simp add: res processImage_finish_def Let_def w_final)
  show "outOfGamutPercent (stats res) =
          real_of_int (js_round (image_oogPercent s pixels * 10)) / 10"
    by (simp add: res processImage_finish_def Let_def w_final image_oogPercent_def)
  show "extractDominantColors pixels 8 = Some (dominantColors (stats res))"
    by (simp add: res processImage_finish_def Let_def d)
  show "level (risk (stats res)) =
          spec_risk_level (image_maxTAC s pixels) (image_oogPercent s pixels)
            (p_inkLimit (PAPER_PROFILES (paperType s)))"
    by (simp add: res processImage_finish_def Let_def w_final image_oogPercent_def
        spec_risk_level_def)
  show "inkLimit (stats res) = p_inkLimit (PAPER_PROFILES (paperType s))"
    by (simp add: res processImage_finish_def Let_def)
qed

section \<open>The loop of colorEngine.js in closed form\<close>

lemma ce_body_totalTAC:
  "ce_totalTAC (processImage_ce_body s pixels i st) =
     (if px_a (pixels ! i) = 0 then ce_totalTAC st
      else ce_totalTAC st + pixel_tac_ce s (pixels ! i))"
  by (simp add: processImage_ce_body_def Let_def pixel_tac_ce_def inflated_inks_ce_def shifted_inks_ce_def
      converted_inks_ce_def pixel_oog_ce_def pixel_output_ce_def pixel_overlay_ce_def)

lemma ce_body_maxTAC:
  "ce_maxTAC (processImage_ce_body s pixels i st) =
     (if px_a (pixels ! i) = 0 then ce_maxTAC st
      else max (ce_maxTAC st) (pixel_tac_ce s (pixels ! i)))"
  by (simp add: processImage_ce_body_def Let_def pixel_tac_ce_def inflated_inks_ce_def shifted_inks_ce_def
      converted_inks_ce_def pixel_oog_ce_def pixel_output_ce_def pixel_overlay_ce_def max_def)

lemma ce_body_outOfGamutCount:
  "ce_outOfGamutCount (processImage_ce_body s pixels i st) =
     (if px_a (pixels ! i) \<noteq> 0 \<and> pixel_oog_ce s (pixels ! i)
      then ce_outOfGamutCount st + 1 else ce_outOfGamutCount st)"
  by (simp add: processImage_ce_body_def Let_def pixel_tac_ce_def inflated_inks_ce_def shifted_inks_ce_def
      converted_inks_ce_def pixel_oog_ce_def pixel_output_ce_def pixel_overlay_ce_def)

lemma ce_body_processedCount:
  "ce_processedCount (processImage_ce_body s pixels i st) =
     (if px_a (pixels ! i) \<noteq> 0 then ce_processedCount st + 1 else ce_processedCount st)"
  by (simp add: processImage_ce_body_def Let_def pixel_tac_ce_def inflated_inks_ce_def shifted_inks_ce_def
      converted_inks_ce_def pixel_oog_ce_def pixel_output_ce_def pixel_overlay_ce_def)

lemma ce_body_outputPixels:
  "ce_outputPixels (processImage_ce_body s pixels i st) =
     (ce_outputPixels st)[i := pixel_output_ce s (pixels ! i)]"
  by (simp add: processImage_ce_body_def Let_def pixel_tac_ce_def inflated_inks_ce_def shifted_inks_ce_def
      converted_inks_ce_def pixel_oog_ce_def pixel_output_ce_def pixel_overlay_ce_def)

lemma ce_body_gamutPixels:
  "ce_gamutPixels (processImage_ce_body s pixels i st) =
     (ce_gamutPixels st)[i := pixel_overlay_ce s (pixels ! i)]"
  by (simp add: processImage_ce_body_def Let_def pixel_tac_ce_def inflated_inks_ce_def shifted_inks_ce_def
      converted_inks_ce_def pixel_oog_ce_def pixel_output_ce_def pixel_overlay_ce_def)

lemma ce_loop_step:
  "i < length pixels \<Longrightarrow>
   processImage_ce_loop s pixels i st = processImage_ce_loop s pixels (Suc i) (processImage_ce_body s pixels i st)"
  by (subst processImage_ce_loop.simps) simp

lemma ce_loop_done:
  "\<not> i < length pixels \<Longrightarrow> processImage_ce_loop s pixels i st = st"
  by (subst processImage_ce_loop.simps) simp

lemma ce_loop_totalTAC:
  "ce_totalTAC (processImage_ce_loop s pixels i st) =
     ce_totalTAC st
       + sum_list (map (pixel_tac_ce s) (filter (\<lambda>p. px_a p \<noteq> 0) (drop i pixels)))"
proof (induction s pixels i st rule: processImage_ce_loop.induct)
  case (1 s pixels i st)
  show ?case
  proof (cases "i < length pixels")
    case True
    have d: "drop i pixels = pixels ! i # drop (Suc i) pixels"
      using True by (simp add: Cons_nth_drop_Suc)
    show ?thesis
      using 1 [OF True] True
      by (simp add: ce_loop_step d ce_body_totalTAC)
  next
    case False
    then show ?thesis
      by (simp add: ce_loop_done)
  qed
qed

lemma ce_loop_maxTAC:
  "ce_maxTAC (processImage_ce_loop s pixels i st) =
     foldl max (ce_maxTAC st)
       (map (pixel_tac_ce s) (filter (\<lambda>p. px_a p \<noteq> 0) (drop i pixels)))"
proof (induction s pixels i st rule: processImage_ce_loop.induct)
  case (1 s pixels i st)
  show ?case
  proof (cases "i < length pixels")
    case True
    have d: "drop i pixels = pixels ! i # drop (Suc i) pixels"
      using True by (simp add: Cons_nth_drop_Suc)
    show ?thesis
      using 1 [OF True] True
      by (simp add: ce_loop_step d ce_body_maxTAC)
  next
    case False
    then show ?thesis
      by (simp add: ce_loop_done)
  qed
qed

lemma ce_loop_outOfGamutCount:
  "ce_outOfGamutCount (processImage_ce_loop s pixels i st) =
     ce_outOfGamutCount st
       + length (filter (\<lambda>p. px_a p \<noteq> 0 \<and> pixel_oog_ce s p) (drop i pixels))"
proof (induction s pixels i st rule: processImage_ce_loop.induct)
  case (1 s pixels i st)
  show ?case
  proof (cases "i < length pixels")
    case True
    have d: "drop i pixels = pixels ! i # drop (Suc i) pixels"
      using True by (simp add: Cons_nth_drop_Suc)
    show ?thesis
      using 1 [OF True] True
      by (simp add: ce_loop_step d ce_body_outOfGamutCount)
  next
    case False
    then show ?thesis
      by (simp add: ce_loop_done)
  qed
qed

lemma ce_loop_processedCount:
  "ce_processedCount (processImage_ce_loop s pixels i st) =
     ce_processedCount st + length (filter (\<lambda>p. px_a p \<noteq> 0) (drop i pixels))"
proof (induction s pixels i st rule: processImage_ce_loop.induct)
  case (1 s pixels i st)
  show ?case
  proof (cases "i < length pixels")
    case True
    have d: "drop i pixels = pixels ! i # drop (Suc i) pixels"
      using True by (simp add: Cons_nth_drop_Suc)
    show ?thesis
      using 1 [OF True] True
      by (simp add: ce_loop_step d ce_body_processedCount)
  next
    case False
    then show ?thesis
      by (simp add: ce_loop_done)
  qed
qed

lemma ce_loop_outputPixels_length:
  "length (ce_outputPixels (processImage_ce_loop s pixels i st)) = length (ce_outputPixels st)"
proof (induction s pixels i st rule: processImage_ce_loop.induct)
  case (1 s pixels i st)
  show ?case
  proof (cases "i < length pixels")
    case True
    have d: "drop i pixels = pixels ! i # drop (Suc i) pixels"
      using True by (simp add: Cons_nth_drop_Suc)
    show ?thesis
      using 1 [OF True] True
      by (simp add: ce_loop_step d ce_body_outputPixels)
  next
    case False
    then show ?thesis
      by (simp add: ce_loop_done)
  qed
qed

lemma ce_loop_gamutPixels_length:
  "length (ce_gamutPixels (processImage_ce_loop s pixels i st)) = length (ce_gamutPixels st)"
proof (induction s pixels i st rule: processImage_ce_loop.induct)
  case (1 s pixels i st)
  show ?case
  proof (cases "i < length pixels")
    case True
    have d: "drop i pixels = pixels ! i # drop (Suc i) pixels"
      using True by (simp add: Cons_nth_drop_Suc)
    show ?thesis
      using 1 [OF True] True
      by (simp add: ce_loop_step d ce_body_gamutPixels)
  next
    case False
    then show ?thesis
      by (simp add: ce_loop_done)
  qed
qed

lemma ce_loop_outputPixels_nth:
  "j < length (ce_outputPixels st) \<Longrightarrow> length (ce_outputPixels st) = length pixels \<Longrightarrow>
   ce_outputPixels (processImage_ce_loop s pixels i st) ! j =
     (if j < i then ce_outputPixels st ! j else pixel_output_ce s (pixels ! j))"
proof (induction s pixels i st rule: processImage_ce_loop.induct)
  case (1 s pixels i st)
  show ?case
  proof (cases "i < length pixels")
    case True
    have d: "drop i pixels = pixels ! i # drop (Suc i) pixels"
      using True by (simp add: Cons_nth_drop_Suc)
    show ?thesis
      using 1(1) [OF True] 1(2,3) True
      by (auto simp: ce_loop_step d ce_body_outputPixels nth_list_update less_Suc_eq)
  next
    case False
    then show ?thesis using 1(2,3)
      by (simp add: ce_loop_done)
  qed
qed

lemma ce_loop_gamutPixels_nth:
  "j < length (ce_gamutPixels st) \<Longrightarrow> length (ce_gamutPixels st) = length pixels \<Longrightarrow>
   ce_gamutPixels (processImage_ce_loop s pixels i st) ! j =
     (if j < i then ce_gamutPixels st ! j
      else pixel_overlay_ce s (pixels ! j))"
proof (induction s pixels i st rule: processImage_ce_loop.induct)
  case (1 s pixels i st)
  show ?case
  proof (cases "i < length pixels")
    case True
    have d: "drop i pixels = pixels ! i # drop (Suc i) pixels"
      using True by (simp add: Cons_nth_drop_Suc)
    show ?thesis
      using 1(1) [OF True] 1(2,3) True
      by (auto simp: ce_loop_step d ce_body_gamutPixels nth_list_update less_Suc_eq)
  next
    case False
    then show ?thesis using 1(2,3)
      by (simp add: ce_loop_done)
  qed
qed

section \<open>What colorEngine.js's \<open>processImage\<close> returns\<close>

lemma extractDominantColors_ce_loop_total:
  "0 < sampleRate \<Longrightarrow> \<exists>b'. extractDominantColors_ce_loop pixels sampleRate i b = Some b'"
proof (induction "length pixels - i" arbitrary: i b rule: less_induct)
  case less
  show ?case
  proof (cases "i < length pixels")
    case True
    then have lt: "length pixels - (i + sampleRate) < length pixels - i"
      using less.prems by simp
    have "\<exists>b'. extractDominantColors_ce_loop pixels sampleRate (i + sampleRate) c = Some b'" for c
      using less.hyps [OF lt less.prems] .
    then show ?thesis
      using True by (subst extractDominantColors_ce_loop.simps) (simp add: Let_def)
  next
    case False
    then show ?thesis
      by (subst extractDominantColors_ce_loop.simps) simp
  qed
qed

lemma extractDominantColors_ce_total:
  "0 < sampleRate \<Longrightarrow> \<exists>d. extractDominantColors_ce pixels sampleRate = Some d"
  using extractDominantColors_ce_loop_total [of sampleRate pixels 0 "[]"]
  by (auto simp: extractDominantColors_ce_def)

lemma processImage_ce_returns: "\<exists>res. processImage_ce pixels s = Some res"
proof -
  obtain d where "extractDominantColors_ce pixels 8 = Some d"
    using extractDominantColors_ce_total [of 8 pixels] by auto
  then show ?thesis
    by (simp add: processImage_ce_def Let_def)
qed

text \<open>Over the reals the two copies compute the same inks, coverage, flag and output pixel.\<close>

lemma byte_val_nonneg: "0 \<le> byte_val x / 255"
  unfolding byte_val_def by (rule divide_nonneg_pos) (rule of_nat_0_le_iff, simp)

lemma byte_val_le: "byte_val x / 255 \<le> 1"
proof -
  have "unat x < 2 ^ LENGTH(8)"
    by (rule unsigned_less)
  then have "unat x \<le> 255"
    by simp
  then have "real (unat x) \<le> real 255"
    by (rule of_nat_mono)
  then show ?thesis
    unfolding byte_val_def by simp
qed

lemma ce_profile_fields:
  "p_gamutReduction (PAPER_PROFILES_ce pt) = p_gamutReduction (PAPER_PROFILES pt)"
  "p_shadowGain (PAPER_PROFILES_ce pt) = p_shadowGain (PAPER_PROFILES pt)"
  "p_highlightGain (PAPER_PROFILES_ce pt) = p_highlightGain (PAPER_PROFILES pt)"
  "p_inkLimit (PAPER_PROFILES_ce pt) = p_inkLimit (PAPER_PROFILES pt)"
  "p_name (PAPER_PROFILES_ce pt) = p_name (PAPER_PROFILES pt)"
  by (cases pt; simp)+

lemma converted_inks_ce_eq: "converted_inks_ce p = converted_inks p"
  unfolding converted_inks_ce_def converted_inks_def
  by (rule rgbToCmyk_same_on_unit [OF byte_val_nonneg byte_val_nonneg byte_val_nonneg, symmetric])

lemma shifted_inks_ce_eq: "shifted_inks_ce s p = shifted_inks s p"
  by (simp add: shifted_inks_ce_def shifted_inks_def converted_inks_ce_eq ce_profile_fields
      Let_def)

lemma inflated_inks_ce_eq: "inflated_inks_ce s p = inflated_inks s p"
  by (simp add: inflated_inks_ce_def inflated_inks_def shifted_inks_ce_eq ce_profile_fields
      Let_def distrib_left mult.assoc)

lemma pixel_tac_ce_eq: "pixel_tac_ce s = pixel_tac s"
  by (rule ext) (simp add: pixel_tac_ce_def pixel_tac_def inflated_inks_ce_eq totalInkCoverage_def)

lemma isOutOfGamut_ce_eq: "isOutOfGamut_ce r g b pt = isOutOfGamut r g b pt"
  unfolding isOutOfGamut_ce_def isOutOfGamut_def
    Let_def [of "PAPER_PROFILES_ce pt"] Let_def [of "PAPER_PROFILES pt"] ce_profile_fields
  by (rule refl)

lemma pixel_oog_ce_eq: "pixel_oog_ce s = pixel_oog s"
  by (rule ext) (simp add: pixel_oog_ce_def pixel_oog_def isOutOfGamut_ce_eq)

lemma pixel_output_ce_eq: "pixel_output_ce s = pixel_output s"
  by (rule ext) (simp add: pixel_output_ce_def pixel_output_def inflated_inks_ce_eq)

lemma ce_final_totalTAC:
  "ce_totalTAC (processImage_ce_loop s pixels 0 (processImage_ce_init pixels)) =
     sum_list (map (pixel_tac s) (opaque_pixels pixels))"
  by (simp add: ce_loop_totalTAC processImage_ce_init_def opaque_pixels_def pixel_tac_ce_eq)

lemma ce_final_maxTAC:
  "ce_maxTAC (processImage_ce_loop s pixels 0 (processImage_ce_init pixels)) =
     image_maxTAC s pixels"
  by (simp add: ce_loop_maxTAC processImage_ce_init_def opaque_pixels_def image_maxTAC_def
      pixel_tac_ce_eq)

lemma ce_final_outOfGamutCount:
  "ce_outOfGamutCount (processImage_ce_loop s pixels 0 (processImage_ce_init pixels)) =
     image_oogCount s pixels"
  by (simp add: ce_loop_outOfGamutCount processImage_ce_init_def opaque_pixels_def
      image_oogCount_def conj_commute pixel_oog_ce_eq)

lemma ce_final_processedCount:
  "ce_processedCount (processImage_ce_loop s pixels 0 (processImage_ce_init pixels)) =
     length (opaque_pixels pixels)"
  by (simp add: ce_loop_processedCount processImage_ce_init_def opaque_pixels_def)

lemma ce_final_outputPixels:
  "ce_outputPixels (processImage_ce_loop s pixels 0 (processImage_ce_init pixels)) =
     map (pixel_output s) pixels"
  by (rule nth_equalityI)
    (simp_all add: ce_loop_outputPixels_length ce_loop_outputPixels_nth processImage_ce_init_def
      pixel_output_ce_eq)

lemma ce_final_gamutPixels:
  "ce_gamutPixels (processImage_ce_loop s pixels 0 (processImage_ce_init pixels)) =
     map (pixel_overlay_ce s) pixels"
  by (rule nth_equalityI)
    (simp_all add: ce_loop_gamutPixels_length ce_loop_gamutPixels_nth processImage_ce_init_def)

lemmas ce_final =
  ce_final_totalTAC ce_final_maxTAC ce_final_outOfGamutCount ce_final_processedCount
  ce_final_outputPixels ce_final_gamutPixels

lemma processImage_ce_result:
  assumes "processImage_ce pixels s = Some res"
  shows "outputPixels res = map (pixel_output s) pixels"
    and "gamutPixels res = map (pixel_overlay_ce s) pixels"
    and "avgTAC (stats res) = js_round (image_avgTAC s pixels)"
    and "maxTAC (stats res) = js_round (image_maxTAC s pixels)"
    and "outOfGamutCount (stats res) = image_oogCount s pixels"
    and "outOfGamutPercent (stats res) =
           real_of_int (js_round (image_oogPercent s pixels * 10)) / 10"
    and "extractDominantColors_ce pixels 8 = Some (dominantColors (stats res))"
    and "risk (stats res) =
           assessPrintRisk (image_avgTAC s pixels) (image_maxTAC s pixels)
             (image_oogPercent s pixels) (paperType s)"
    and "inkLimit (stats res) = p_inkLimit (PAPER_PROFILES (paperType s))"
proof -
  obtain d where d: "extractDominantColors_ce pixels 8 = Some d"
    using extractDominantColors_ce_total [of 8 pixels] by auto
  note r = assms [unfolded processImage_ce_def Let_def d option.case, simplified, symmetric]
  show "outputPixels res = map (pixel_output s) pixels"
    by (subst r) (simp add: ce_final)
  show "gamutPixels res = map (pixel_overlay_ce s) pixels"
    by (subst r) (simp add: ce_final)
  show "avgTAC (stats res) = js_round (image_avgTAC s pixels)"
    by (subst r) (simp add: ce_final image_avgTAC_def)
  show "maxTAC (stats res) = js_round (image_maxTAC s pixels)"
    by (subst r) (simp add: ce_final)
  show "outOfGamutCount (stats res) = image_oogCount s pixels"
    by (subst r) (simp add: ce_final)
  show "outOfGamutPercent (stats res) =
          real_of_int (js_round (image_oogPercent s pixels * 10)) / 10"
    by (subst r) (simp add: ce_final image_oogPercent_def)
  show "extractDominantColors_ce pixels 8 = Some (dominantColors (stats res))"
    by (subst r) (simp add: d)
  show "risk (stats res) =
          assessPrintRisk (image_avgTAC s pixels) (image_maxTAC s pixels)
            (image_oogPercent s pixels) (paperType s)"
    by (subst r) (simp add: ce_final image_avgTAC_def image_oogPercent_def)
  show "inkLimit (stats res) = p_inkLimit (PAPER_PROFILES (paperType s))"
    by (subst r) (simp add: ce_profile_fields)
qed

section \<open>Channel values and coverage of a pixel\<close>

lemma converted_inks_unit: "unit_cmyk (converted_inks p)"
  unfolding unit_cmyk_def converted_inks_ce_eq [symmetric] converted_inks_ce_def
  by (rule rgbToCmyk_unit) (rule byte_val_nonneg byte_val_le)+

lemma shifted_inks_unit: "unit_cmyk (shifted_inks s p)"
  by (simp add: unit_cmyk_def shifted_inks_def Let_def applyDotGain_range)

lemma inflate_unit:
  fixes c g f :: real
  assumes "0 \<le> c" "c \<le> 1" "0 < g" "0 \<le> f"
  shows "0 \<le> min 1 (c + c * g * f) \<and> min 1 (c + c * g * f) \<le> 1"
proof -
  have "0 \<le> c * g * f"
    using assms by (intro mult_nonneg_nonneg) simp_all
  then show ?thesis
    using assms by simp
qed

lemma inflated_inks_unit: "unit_cmyk (inflated_inks s p)"
proof -
  note u = shifted_inks_unit [of s p, unfolded unit_cmyk_def]
  show ?thesis
  proof (cases "p_gamutReduction (PAPER_PROFILES (paperType s)) > 0")
    case True
    then show ?thesis
      using u inflate_unit [of _ "p_gamutReduction (PAPER_PROFILES (paperType s))"]
      by (simp add: inflated_inks_def Let_def unit_cmyk_def)
  next
    case False
    then show ?thesis
      using u by (simp add: inflated_inks_def Let_def unit_cmyk_def)
  qed
qed

lemma pixel_tac_range: "0 \<le> pixel_tac s p \<and> pixel_tac s p \<le> 400"
  using inflated_inks_unit [of s p] by (simp add: pixel_tac_def Let_def unit_cmyk_def)

lemma finish_stats_cong:
  assumes "paperType s = paperType s'"
    and "st_totalTAC st = st_totalTAC st'" and "st_maxTAC st = st_maxTAC st'"
    and "st_outOfGamutCount st = st_outOfGamutCount st'"
    and "st_processedCount st = st_processedCount st'"
  shows "stats (processImage_finish s st d) = stats (processImage_finish s' st' d)"
  by (simp add: processImage_finish_def Let_def assms)

section \<open>Transparent pixels\<close>

lemma processImage_SomeD:
  assumes "processImage pixels s = Some (posted, res)"
  shows "\<exists>d. extractDominantColors pixels 8 = Some d \<and>
    res = processImage_finish s (processImage_loop s pixels 0 (processImage_init pixels)) d \<and>
    posted = st_posted (processImage_loop s pixels 0 (processImage_init pixels))"
  using assms by (auto simp: processImage_def Let_def split: option.splits)

lemma finish_stats_apart_dominant:
  assumes "paperType s = paperType s'"
    and "st_totalTAC st = st_totalTAC st'" and "st_maxTAC st = st_maxTAC st'"
    and "st_outOfGamutCount st = st_outOfGamutCount st'"
    and "st_processedCount st = st_processedCount st'"
  shows "(stats (processImage_finish s st d))\<lparr>dominantColors := x\<rparr> =
         (stats (processImage_finish s' st' d'))\<lparr>dominantColors := x\<rparr>"
  by (simp add: processImage_finish_def Let_def assms)

lemma opaque_pixels_idem: "opaque_pixels (opaque_pixels pixels) = opaque_pixels pixels"
  by (simp add: opaque_pixels_def)

lemma opaque_pixels_none:
  "\<forall>p \<in> set pixels. px_a p = 0 \<Longrightarrow> opaque_pixels pixels = []"
  by (simp add: opaque_pixels_def)

lemma js_round_0: "js_round 0 = 0"
  by (simp add: js_round_def)

lemma image_of_opaque:
  "image_maxTAC s (opaque_pixels pixels) = image_maxTAC s pixels"
  "image_avgTAC s (opaque_pixels pixels) = image_avgTAC s pixels"
  "image_oogCount s (opaque_pixels pixels) = image_oogCount s pixels"
  "image_oogPercent s (opaque_pixels pixels) = image_oogPercent s pixels"
  by (simp_all add: image_maxTAC_def image_avgTAC_def image_oogCount_def image_oogPercent_def
      opaque_pixels_idem)

lemma transparent_pixels_worker:
  "\<exists>posted res posted' res'.
     processImage pixels s = Some (posted, res) \<and>
     processImage (opaque_pixels pixels) s = Some (posted', res') \<and>
     (\<forall>i < length pixels. px_a (pixels ! i) = 0 \<longrightarrow>
        outputPixels res ! i = \<lparr>px_r = 255, px_g = 255, px_b = 255, px_a = 255\<rparr> \<and>
        px_a (gamutPixels res ! i) = 0) \<and>
     (stats res)\<lparr>dominantColors := []\<rparr> = (stats res')\<lparr>dominantColors := []\<rparr> \<and>
     ((\<forall>p \<in> set pixels. px_a p = 0) \<longrightarrow>
        avgTAC (stats res) = 0 \<and> maxTAC (stats res) = 0 \<and>
        outOfGamutCount (stats res) = 0 \<and> outOfGamutPercent (stats res) = 0 \<and>
        (pixels \<noteq> [] \<longrightarrow>
           onmessage \<lparr>req_type = ''process'', req_pixels = Some pixels, req_settings = s\<rparr> =
             Some (posted @ [Result (outputPixels res) (gamutPixels res) (stats res)])))"
proof -
  obtain posted res where r: "processImage pixels s = Some (posted, res)"
    using processImage_returns by blast
  obtain posted' res' where r': "processImage (opaque_pixels pixels) s = Some (posted', res')"
    using processImage_returns by blast
  note f = processImage_result [OF r]
  have out: "outputPixels res ! i = \<lparr>px_r = 255, px_g = 255, px_b = 255, px_a = 255\<rparr> \<and>
      px_a (gamutPixels res ! i) = 0" if "i < length pixels" "px_a (pixels ! i) = 0" for i
    using that by (simp add: f pixel_output_def pixel_overlay_def)
  obtain d where d: "res = processImage_finish s
      (processImage_loop s pixels 0 (processImage_init pixels)) d"
    using processImage_SomeD [OF r] by blast
  obtain d' where d': "res' = processImage_finish s
      (processImage_loop s (opaque_pixels pixels) 0 (processImage_init (opaque_pixels pixels))) d'"
    using processImage_SomeD [OF r'] by blast
  have same: "(stats res)\<lparr>dominantColors := []\<rparr> = (stats res')\<lparr>dominantColors := []\<rparr>"
    unfolding d d'
    by (rule finish_stats_apart_dominant)
      (simp_all add: w_final opaque_pixels_idem image_of_opaque image_oogCount_def)
  have none: "avgTAC (stats res) = 0 \<and> maxTAC (stats res) = 0 \<and>
      outOfGamutCount (stats res) = 0 \<and> outOfGamutPercent (stats res) = 0"
    if "\<forall>p \<in> set pixels. px_a p = 0"
    using opaque_pixels_none [OF that]
    by (simp add: f image_avgTAC_def image_maxTAC_def image_oogCount_def image_oogPercent_def
        js_round_0)
  have msg: "onmessage \<lparr>req_type = ''process'', req_pixels = Some pixels, req_settings = s\<rparr> =
      Some (posted @ [Result (outputPixels res) (gamutPixels res) (stats res)])"
    if "pixels \<noteq> []"
    using that r by (simp add: onmessage_def)
  show ?thesis
    using r r' out same none msg by blast
qed

lemma transparent_pixels_colorEngine:
  "\<exists>res res'.
     processImage_ce pixels s = Some res \<and>
     processImage_ce (opaque_pixels pixels) s = Some res' \<and>
     (\<forall>i < length pixels. px_a (pixels ! i) = 0 \<longrightarrow>
        outputPixels res ! i = \<lparr>px_r = 255, px_g = 255, px_b = 255, px_a = 255\<rparr> \<and>
        px_a (gamutPixels res ! i) = 0) \<and>
     (stats res)\<lparr>dominantColors := []\<rparr> = (stats res')\<lparr>dominantColors := []\<rparr> \<and>
     ((\<forall>p \<in> set pixels. px_a p = 0) \<longrightarrow>
        avgTAC (stats res) = 0 \<and> maxTAC (stats res) = 0 \<and>
        outOfGamutCount (stats res) = 0 \<and> outOfGamutPercent (stats res) = 0)"
proof -
  obtain res where r: "processImage_ce pixels s = Some res"
    using processImage_ce_returns by blast
  obtain res' where r': "processImage_ce (opaque_pixels pixels) s = Some res'"
    using processImage_ce_returns by blast
  note f = processImage_ce_result [OF r]
  note f' = processImage_ce_result [OF r']
  have out: "outputPixels res ! i = \<lparr>px_r = 255, px_g = 255, px_b = 255, px_a = 255\<rparr> \<and>
      px_a (gamutPixels res ! i) = 0" if "i < length pixels" "px_a (pixels ! i) = 0" for i
    using that by (simp add: f pixel_output_def pixel_overlay_ce_def)
  have same: "(stats res)\<lparr>dominantColors := []\<rparr> = (stats res')\<lparr>dominantColors := []\<rparr>"
    by (rule stats.equality) (simp_all add: f(3-6,8,9) f'(3-6,8,9) image_of_opaque)
  have none: "avgTAC (stats res) = 0 \<and> maxTAC (stats res) = 0 \<and>
      outOfGamutCount (stats res) = 0 \<and> outOfGamutPercent (stats res) = 0"
    if "\<forall>p \<in> set pixels. px_a p = 0"
    using opaque_pixels_none [OF that]
    by (simp add: f image_avgTAC_def image_maxTAC_def image_oogCount_def image_oogPercent_def
        js_round_0)
  show ?thesis
    using r r' out same none by blast
qed

text \<open>
  C5. In the worker and in colorEngine.js alike: every pixel with alpha 0 becomes opaque
  white in the output buffer and gets alpha 0 in the overlay buffer; the statistics, apart
  from the dominant colours (which are sampled by position), are those of the image with
  its transparent pixels removed, so that these pixels take no part in the average, the
  maximum or the gamut counts; and for an image that is transparent everywhere the
  average, the maximum, the out-of-gamut count and the out-of-gamut percentage are 0 and
  the worker, unless the buffer is empty, answers with a result and not with an error.
\<close>

theorem C5_transparent_pixels_skipped:
  "(\<exists>posted res posted' res'.
     processImage pixels s = Some (posted, res) \<and>
     processImage (opaque_pixels pixels) s = Some (posted', res') \<and>
     (\<forall>i < length pixels. px_a (pixels ! i) = 0 \<longrightarrow>
        outputPixels res ! i = \<lparr>px_r = 255, px_g = 255, px_b = 255, px_a = 255\<rparr> \<and>
        px_a (gamutPixels res ! i) = 0) \<and>
     (stats res)\<lparr>dominantColors := []\<rparr> = (stats res')\<lparr>dominantColors := []\<rparr> \<and>
     ((\<forall>p \<in> set pixels. px_a p = 0) \<longrightarrow>
        avgTAC (stats res) = 0 \<and> maxTAC (stats res) = 0 \<and>
        outOfGamutCount (stats res) = 0 \<and> outOfGamutPercent (stats res) = 0 \<and>
        (pixels \<noteq> [] \<longrightarrow>
           onmessage \<lparr>req_type = ''process'', req_pixels = Some pixels, req_settings = s\<rparr> =
             Some (posted @ [Result (outputPixels res) (gamutPixels res) (stats res)])))) \<and>
   (\<exists>res res'.
     processImage_ce pixels s = Some res \<and>
     processImage_ce (opaque_pixels pixels) s = Some res' \<and>
     (\<forall>i < length pixels. px_a (pixels ! i) = 0 \<longrightarrow>
        outputPixels res ! i = \<lparr>px_r = 255, px_g = 255, px_b = 255, px_a = 255\<rparr> \<and>
        px_a (gamutPixels res ! i) = 0) \<and>
     (stats res)\<lparr>dominantColors := []\<rparr> = (stats res')\<lparr>dominantColors := []\<rparr> \<and>
     ((\<forall>p \<in> set pixels. px_a p = 0) \<longrightarrow>
        avgTAC (stats res) = 0 \<and> maxTAC (stats res) = 0 \<and>
        outOfGamutCount (stats res) = 0 \<and> outOfGamutPercent (stats res) = 0))"
  using transparent_pixels_worker [of pixels s] transparent_pixels_colorEngine [of pixels s]
  by (rule conjI)

theorem C5_transparent_pixels_witness:
  "\<exists>posted res.
     processImage [\<lparr>px_r = 10, px_g = 20, px_b = 30, px_a = 0\<rparr>]
       \<lparr>paperType = Coated, dotGain = 15 / 100, showC = True, showM = True, showY = True,
        showK = True, gamutOverlay = True\<rparr> = Some (posted, res) \<and>
     outputPixels res ! 0 = \<lparr>px_r = 255, px_g = 255, px_b = 255, px_a = 255\<rparr> \<and>
     px_a (gamutPixels res ! 0) = 0 \<and>
     avgTAC (stats res) = 0 \<and> outOfGamutPercent (stats res) = 0 \<and>
     onmessage \<lparr>req_type = ''process'',
       req_pixels = Some [\<lparr>px_r = 10, px_g = 20, px_b = 30, px_a = 0\<rparr>],
       req_settings = \<lparr>paperType = Coated, dotGain = 15 / 100, showC = True, showM = True,
         showY = True, showK = True, gamutOverlay = True\<rparr>\<rparr> =
       Some (posted @ [Result (outputPixels res) (gamutPixels res) (stats res)])"
  using C5_transparent_pixels_skipped [of "[\<lparr>px_r = 10, px_g = 20, px_b = 30, px_a = 0\<rparr>]"
      "\<lparr>paperType = Coated, dotGain = 15 / 100, showC = True, showM = True, showY = True,
        showK = True, gamutOverlay = True\<rparr>"]
  by simp blast

section \<open>Display flags\<close>

text \<open>
  C10. Two settings records with the same paper and the same tone-shift magnitude, which
  therefore differ at most in \<open>showC\<close>, \<open>showM\<close>, \<open>showY\<close>, \<open>showK\<close> and
  \<open>gamutOverlay\<close>, give the same statistics record on every pixel buffer, in the worker
  and in colorEngine.js.
\<close>

theorem C10_stats_independent_of_display_flags:
  assumes "paperType s' = paperType s" and "dotGain s' = dotGain s"
  shows "(\<exists>posted res posted' res'.
            processImage pixels s = Some (posted, res) \<and>
            processImage pixels s' = Some (posted', res') \<and> stats res = stats res') \<and>
         (\<exists>res res'.
            processImage_ce pixels s = Some res \<and>
            processImage_ce pixels s' = Some res' \<and> stats res = stats res')"
proof -
  have tac: "pixel_tac s' = pixel_tac s"
    by (rule ext)
      (simp add: pixel_tac_def inflated_inks_def shifted_inks_def Let_def assms)
  have oog: "pixel_oog s' = pixel_oog s"
    by (rule ext) (simp add: pixel_oog_def assms)
  have img: "image_avgTAC s' pixels = image_avgTAC s pixels"
    "image_maxTAC s' pixels = image_maxTAC s pixels"
    "image_oogCount s' pixels = image_oogCount s pixels"
    "image_oogPercent s' pixels = image_oogPercent s pixels"
    by (simp_all add: image_avgTAC_def image_maxTAC_def image_oogCount_def image_oogPercent_def
        tac oog)
  obtain posted res where r: "processImage pixels s = Some (posted, res)"
    using processImage_returns by blast
  obtain posted' res' where r': "processImage pixels s' = Some (posted', res')"
    using processImage_returns by blast
  obtain d where d: "extractDominantColors pixels 8 = Some d"
    "res = processImage_finish s (processImage_loop s pixels 0 (processImage_init pixels)) d"
    using processImage_SomeD [OF r] by blast
  obtain d' where d': "extractDominantColors pixels 8 = Some d'"
    "res' = processImage_finish s' (processImage_loop s' pixels 0 (processImage_init pixels)) d'"
    using processImage_SomeD [OF r'] by blast
  have dd: "d' = d"
    using d(1) d'(1) by simp
  have w: "stats res = stats res'"
    unfolding d(2) d'(2) dd
    by (rule finish_stats_cong)
      (simp_all add: w_final assms tac oog image_maxTAC_def image_oogCount_def)
  obtain c where c: "processImage_ce pixels s = Some c"
    using processImage_ce_returns by blast
  obtain c' where c': "processImage_ce pixels s' = Some c'"
    using processImage_ce_returns by blast
  note f = processImage_ce_result [OF c]
  note f' = processImage_ce_result [OF c']
  have "dominantColors (stats c) = dominantColors (stats c')"
    using f(7) f'(7) by simp
  then have "stats c = stats c'"
    by (intro stats.equality) (simp_all add: f(3-6,8,9) f'(3-6,8,9) img assms)
  then show ?thesis
    using r r' w c c' by blast
qed

theorem C10_stats_flags_witness:
  "(\<exists>posted res posted' res'.
      processImage [\<lparr>px_r = 255, px_g = 0, px_b = 0, px_a = 255\<rparr>]
        \<lparr>paperType = Uncoated, dotGain = 22 / 100, showC = True, showM = True, showY = True,
         showK = True, gamutOverlay = False\<rparr> = Some (posted, res) \<and>
      processImage [\<lparr>px_r = 255, px_g = 0, px_b = 0, px_a = 255\<rparr>]
        \<lparr>paperType = Uncoated, dotGain = 22 / 100, showC = False, showM = True, showY = False,
         showK = True, gamutOverlay = True\<rparr> = Some (posted', res') \<and>
      stats res = stats res')"
  using C10_stats_independent_of_display_flags
    [of "\<lparr>paperType = Uncoated, dotGain = 22 / 100, showC = False, showM = True, showY = False,
         showK = True, gamutOverlay = True\<rparr>"
        "\<lparr>paperType = Uncoated, dotGain = 22 / 100, showC = True, showM = True, showY = True,
         showK = True, gamutOverlay = False\<rparr>"
        "[\<lparr>px_r = 255, px_g = 0, px_b = 0, px_a = 255\<rparr>]"]
  by simp

section \<open>The claims about single functions and the verdict\<close>

lemma top5_single: "top5 [e] = [e]"
  by (simp add: top5_def)

lemma byte_val_numeral [simp]: "byte_val 255 = 255" "byte_val 0 = 0" "byte_val 1 = 1"
  by (simp_all add: byte_val_def)

text \<open>
  C7. The claim says that the sampler skips every sampled pixel whose alpha is below 128,
  so that an image with alpha 0 everywhere has no dominant colours. worker.js's sampler
  does (lemma \<open>extractDominantColors_all_skipped\<close>); colorEngine.js's sampler never
  reads the alpha byte. On the image of one pixel \<open>(10, 20, 30)\<close> with alpha 0,
  colorEngine.js's \<open>extractDominantColors\<close> returns one entry, the bucket
  \<open>(0, 32, 32)\<close> with count 1, its \<open>processImage\<close> puts that entry in the statistics,
  and the worker's \<open>processImage\<close> returns no dominant colour.
\<close>

theorem C7_colorEngine_sampler_counts_transparent:
  "extractDominantColors_ce [\<lparr>px_r = 10, px_g = 20, px_b = 30, px_a = 0\<rparr>] 8 =
     Some [\<lparr>dce_r = 0, dce_g = 32, dce_b = 32,
            dce_cmyk = \<lparr>cmyk_c = 1, cmyk_m = 0, cmyk_y = 0, cmyk_k = 223 / 255\<rparr>,
            dce_count = 1\<rparr>] \<and>
   map_option (dominantColors \<circ> stats)
     (processImage_ce [\<lparr>px_r = 10, px_g = 20, px_b = 30, px_a = 0\<rparr>] s) =
     Some [\<lparr>dce_r = 0, dce_g = 32, dce_b = 32,
            dce_cmyk = \<lparr>cmyk_c = 1, cmyk_m = 0, cmyk_y = 0, cmyk_k = 223 / 255\<rparr>,
            dce_count = 1\<rparr>] \<and>
   map_option (dominantColors \<circ> stats \<circ> snd)
     (processImage [\<lparr>px_r = 10, px_g = 20, px_b = 30, px_a = 0\<rparr>] s) = Some []"
proof -
  let ?img = "[\<lparr>px_r = 10, px_g = 20, px_b = 30, px_a = 0\<rparr>]"
  have q: "js_round (byte_val 10 / 32) = 0" "js_round (byte_val 20 / 32) = 1"
    "js_round (byte_val 30 / 32) = 1"
    by (simp_all add: js_round_def byte_val_def)
  have "extractDominantColors_ce_loop ?img 8 8 b = Some b" for b
    by (subst extractDominantColors_ce_loop.simps) simp
  then have loop: "extractDominantColors_ce_loop ?img 8 0 [] = Some [((0, 32, 32), 1)]"
    by (subst extractDominantColors_ce_loop.simps) (simp add: q)
  have ce: "extractDominantColors_ce ?img 8 =
     Some [\<lparr>dce_r = 0, dce_g = 32, dce_b = 32,
            dce_cmyk = \<lparr>cmyk_c = 1, cmyk_m = 0, cmyk_y = 0, cmyk_k = 223 / 255\<rparr>,
            dce_count = 1\<rparr>]"
    by (simp add: extractDominantColors_ce_def loop top5_single dominant_ce_of_entry_def
        rgbToCmyk_def Let_def)
  have w: "extractDominantColors ?img 8 = Some []"
    by (rule extractDominantColors_all_skipped) simp_all
  show ?thesis
    by (simp add: ce w processImage_ce_def processImage_def processImage_finish_def Let_def)
qed

text \<open>
  C6. A \<open>process\<close> request whose pixel buffer is absent or has length 0 is answered by
  exactly one message, an error with a readable text, in worker.js and in the worker
  inlined in main.js: no progress message, no result, no buffers and no statistics are
  posted.
\<close>

theorem C6_empty_buffer_fails:
  assumes "req_type e = ''process''" and "req_pixels e = None \<or> req_pixels e = Some []"
  shows "onmessage e =
           Some [Error ''No pixel data received. Image may not have loaded correctly.''] \<and>
         onmessage_inline e = [Error ''No pixel data received.'']"
  using assms by (auto simp: onmessage_def onmessage_inline_def)

theorem C6_empty_buffer_witness:
  "onmessage \<lparr>req_type = ''process'', req_pixels = Some [],
      req_settings = \<lparr>paperType = Coated, dotGain = 15 / 100, showC = True, showM = True,
        showY = True, showK = True, gamutOverlay = False\<rparr>\<rparr> =
     Some [Error ''No pixel data received. Image may not have loaded correctly.''] \<and>
   onmessage_inline \<lparr>req_type = ''process'', req_pixels = Some [],
      req_settings = \<lparr>paperType = Coated, dotGain = 15 / 100, showC = True, showM = True,
        showY = True, showK = True, gamutOverlay = False\<rparr>\<rparr> =
     [Error ''No pixel data received.'']"
  by (rule C6_empty_buffer_fails) simp_all

text \<open>
  C2. For every pixel and every settings record the four channel values lie in [0,1] after
  the conversion, after the tone shift and after the gamut-reduction inflation, and the
  total coverage lies in [0,400], in the worker and in colorEngine.js; at a pixel with
  nonzero alpha this total coverage is what the loop adds to its running sum.
\<close>

theorem C2_channels_and_coverage_bounded:
  "unit_cmyk (converted_inks p) \<and> unit_cmyk (shifted_inks s p) \<and>
   unit_cmyk (inflated_inks s p) \<and> 0 \<le> pixel_tac s p \<and> pixel_tac s p \<le> 400 \<and>
   unit_cmyk (converted_inks_ce p) \<and> unit_cmyk (shifted_inks_ce s p) \<and>
   unit_cmyk (inflated_inks_ce s p) \<and> 0 \<le> pixel_tac_ce s p \<and> pixel_tac_ce s p \<le> 400 \<and>
   (px_a (pixels ! i) \<noteq> 0 \<longrightarrow>
      st_totalTAC (processImage_body s pixels i st) = st_totalTAC st + pixel_tac s (pixels ! i) \<and>
      ce_totalTAC (processImage_ce_body s pixels i ct) =
        ce_totalTAC ct + pixel_tac_ce s (pixels ! i))"
  using converted_inks_unit [of p] shifted_inks_unit [of s p] inflated_inks_unit [of s p]
    pixel_tac_range [of s p]
  by (simp add: converted_inks_ce_eq shifted_inks_ce_eq inflated_inks_ce_eq pixel_tac_ce_eq
      w_body_totalTAC ce_body_totalTAC)

text \<open>
  C1. The level of the verdict that the worker's \<open>processImage\<close> returns is the
  three-tier decision of the specification, taken on the maximum coverage and the
  out-of-gamut percentage of the image as the loop accumulates them, against the ink
  limit of the paper; the \<open>maxTAC\<close> and \<open>outOfGamutPercent\<close> of the statistics
  record are these two numbers rounded, to an integer and to one decimal. The level that
  colorEngine.js's \<open>assessPrintRisk\<close> returns is the same decision on its arguments, and
  its \<open>processImage\<close> calls it on the same two numbers. In particular the level is
  \<open>danger\<close> when the maximum coverage exceeds the limit by more than 30, and \<open>safe\<close>
  when the maximum coverage is at most the limit and the percentage at most 10.
\<close>

theorem C1_three_tier_risk:
  "(\<exists>posted res. processImage pixels s = Some (posted, res) \<and>
      maxTAC (stats res) = js_round (image_maxTAC s pixels) \<and>
      outOfGamutPercent (stats res) =
        real_of_int (js_round (image_oogPercent s pixels * 10)) / 10 \<and>
      level (risk (stats res)) =
        spec_risk_level (image_maxTAC s pixels) (image_oogPercent s pixels)
          (p_inkLimit (PAPER_PROFILES (paperType s))) \<and>
      (image_maxTAC s pixels > real_of_int (p_inkLimit (PAPER_PROFILES (paperType s))) + 30
         \<longrightarrow> level (risk (stats res)) = ''danger'') \<and>
      (image_maxTAC s pixels \<le> real_of_int (p_inkLimit (PAPER_PROFILES (paperType s))) \<and>
       image_oogPercent s pixels \<le> 10 \<longrightarrow> level (risk (stats res)) = ''safe'')) \<and>
   (\<exists>res. processImage_ce pixels s = Some res \<and>
      level (risk (stats res)) =
        spec_risk_level (image_maxTAC s pixels) (image_oogPercent s pixels)
          (p_inkLimit (PAPER_PROFILES_ce (paperType s)))) \<and>
   level (assessPrintRisk avgT maxT pct pt) =
     spec_risk_level maxT pct (p_inkLimit (PAPER_PROFILES_ce pt)) \<and>
   (maxT > real_of_int (p_inkLimit (PAPER_PROFILES_ce pt)) + 30
      \<longrightarrow> level (assessPrintRisk avgT maxT pct pt) = ''danger'') \<and>
   (maxT \<le> real_of_int (p_inkLimit (PAPER_PROFILES_ce pt)) \<and> pct \<le> 10
      \<longrightarrow> level (assessPrintRisk avgT maxT pct pt) = ''safe'')"
proof -
  obtain posted res where r: "processImage pixels s = Some (posted, res)"
    using processImage_returns by blast
  note f = processImage_result(4,6,8) [OF r]
  have a: "level (assessPrintRisk avgT maxT pct pt) =
     spec_risk_level maxT pct (p_inkLimit (PAPER_PROFILES_ce pt))" for avgT maxT pct pt
    by (simp add: assessPrintRisk_def spec_risk_level_def Let_def)
  obtain c where c: "processImage_ce pixels s = Some c"
    using processImage_ce_returns by blast
  have ce: "level (risk (stats c)) =
      spec_risk_level (image_maxTAC s pixels) (image_oogPercent s pixels)
        (p_inkLimit (PAPER_PROFILES_ce (paperType s)))"
    by (simp add: processImage_ce_result(8) [OF c] a)
  have w: "\<exists>posted res. processImage pixels s = Some (posted, res) \<and>
      maxTAC (stats res) = js_round (image_maxTAC s pixels) \<and>
      outOfGamutPercent (stats res) =
        real_of_int (js_round (image_oogPercent s pixels * 10)) / 10 \<and>
      level (risk (stats res)) =
        spec_risk_level (image_maxTAC s pixels) (image_oogPercent s pixels)
          (p_inkLimit (PAPER_PROFILES (paperType s))) \<and>
      (image_maxTAC s pixels > real_of_int (p_inkLimit (PAPER_PROFILES (paperType s))) + 30
         \<longrightarrow> level (risk (stats res)) = ''danger'') \<and>
      (image_maxTAC s pixels \<le> real_of_int (p_inkLimit (PAPER_PROFILES (paperType s))) \<and>
       image_oogPercent s pixels \<le> 10 \<longrightarrow> level (risk (stats res)) = ''safe'')"
    using r f by (auto simp: spec_risk_level_def)
  have e: "\<exists>res. processImage_ce pixels s = Some res \<and>
      level (risk (stats res)) =
        spec_risk_level (image_maxTAC s pixels) (image_oogPercent s pixels)
          (p_inkLimit (PAPER_PROFILES_ce (paperType s)))"
    using c ce by blast
  have p: "(maxT > real_of_int (p_inkLimit (PAPER_PROFILES_ce pt)) + 30
      \<longrightarrow> level (assessPrintRisk avgT maxT pct pt) = ''danger'') \<and>
    (maxT \<le> real_of_int (p_inkLimit (PAPER_PROFILES_ce pt)) \<and> pct \<le> 10
      \<longrightarrow> level (assessPrintRisk avgT maxT pct pt) = ''safe'')"
    by (auto simp: a spec_risk_level_def)
  show ?thesis
    using w e a p by blast
qed


theorem C2_witness:
  "pixel_tac \<lparr>paperType = Coated, dotGain = 3 / 20, showC = True, showM = True,
      showY = True, showK = True, gamutOverlay = False\<rparr>
      \<lparr>px_r = 255, px_g = 0, px_b = 0, px_a = 255\<rparr> = 200 \<and>
   st_totalTAC (processImage_body
      \<lparr>paperType = Coated, dotGain = 3 / 20, showC = True, showM = True,
        showY = True, showK = True, gamutOverlay = False\<rparr>
      [\<lparr>px_r = 255, px_g = 0, px_b = 0, px_a = 255\<rparr>] 0
      (processImage_init [\<lparr>px_r = 255, px_g = 0, px_b = 0, px_a = 255\<rparr>])) = 200 \<and>
   ce_totalTAC (processImage_ce_body
      \<lparr>paperType = Coated, dotGain = 3 / 20, showC = True, showM = True,
        showY = True, showK = True, gamutOverlay = False\<rparr>
      [\<lparr>px_r = 255, px_g = 0, px_b = 0, px_a = 255\<rparr>] 0
      (processImage_ce_init [\<lparr>px_r = 255, px_g = 0, px_b = 0, px_a = 255\<rparr>])) = 200"
proof -
  let ?s = "\<lparr>paperType = Coated, dotGain = 3 / 20, showC = True, showM = True,
      showY = True, showK = True, gamutOverlay = False\<rparr>"
  let ?p = "\<lparr>px_r = 255, px_g = 0, px_b = 0, px_a = 255\<rparr>"
  have t: "pixel_tac ?s ?p = 200"
    by (simp add: pixel_tac_def inflated_inks_def shifted_inks_def converted_inks_def
        rgbToCmyk_w_def applyDotGain_def Let_def)
  show ?thesis
    using C2_channels_and_coverage_bounded [of ?p ?s "[?p]" 0 "processImage_init [?p]"
        "processImage_ce_init [?p]"]
    by (simp add: t pixel_tac_ce_eq processImage_init_def processImage_ce_init_def)
qed

theorem C1_witness:
  "(\<exists>posted res.
      processImage [\<lparr>px_r = 0, px_g = 0, px_b = 1, px_a = 255\<rparr>]
        \<lparr>paperType = Newsprint, dotGain = 0, showC = True, showM = True,
         showY = True, showK = True, gamutOverlay = False\<rparr> = Some (posted, res) \<and>
      level (risk (stats res)) = ''danger'') \<and>
   (\<exists>posted res.
      processImage [\<lparr>px_r = 255, px_g = 255, px_b = 255, px_a = 255\<rparr>]
        \<lparr>paperType = Coated, dotGain = 3 / 20, showC = True, showM = True,
         showY = True, showK = True, gamutOverlay = False\<rparr> = Some (posted, res) \<and>
      level (risk (stats res)) = ''safe'') \<and>
   level (assessPrintRisk 100 331 0 Coated) = ''danger'' \<and>
   level (assessPrintRisk 100 300 10 Coated) = ''safe''"
proof -
  let ?sn = "\<lparr>paperType = Newsprint, dotGain = 0, showC = True, showM = True,
         showY = True, showK = True, gamutOverlay = False\<rparr>"
  let ?sc = "\<lparr>paperType = Coated, dotGain = 3 / 20, showC = True, showM = True,
         showY = True, showK = True, gamutOverlay = False\<rparr>"
  let ?blue = "\<lparr>px_r = 0, px_g = 0, px_b = 1, px_a = 255\<rparr>"
  let ?white = "\<lparr>px_r = 255, px_g = 255, px_b = 255, px_a = 255\<rparr>"
  have tb: "pixel_tac ?sn ?blue = 76400 / 255"
    by (simp add: pixel_tac_def inflated_inks_def shifted_inks_def converted_inks_def
        rgbToCmyk_w_def applyDotGain_def Let_def)
  have mb: "image_maxTAC ?sn [?blue] = 76400 / 255"
    by (simp add: image_maxTAC_def opaque_pixels_def tb)
  have tw: "pixel_tac ?sc ?white = 0"
    by (simp add: pixel_tac_def inflated_inks_def shifted_inks_def converted_inks_def
        rgbToCmyk_w_def applyDotGain_def Let_def)
  have mw: "image_maxTAC ?sc [?white] = 0"
    by (simp add: image_maxTAC_def opaque_pixels_def tw)
  have ow: "image_oogPercent ?sc [?white] = 0"
    by (simp add: image_oogPercent_def image_oogCount_def opaque_pixels_def pixel_oog_def
        isOutOfGamut_def Let_def)
  show ?thesis
    using C1_three_tier_risk [of "[?blue]" ?sn 100 331 0 Coated]
      C1_three_tier_risk [of "[?white]" ?sc 100 300 10 Coated]
    by (auto simp: mb mw ow spec_risk_level_def)
qed

section \<open>The chunked loop of main-demo.js in closed form\<close>

lemma PAPERS_eq: "PAPERS pt = PAPER_PROFILES pt"
  by (cases pt) simp_all

lemma spread_positive:
  fixes rn gn bn :: real
  shows "(0 < max (max rn gn) bn - min (min rn gn) bn) = (max (max rn gn) bn \<noteq> min (min rn gn) bn)"
  by (auto simp: max_def min_def)

lemma outOfGamut_eq: "outOfGamut r g b pt = isOutOfGamut r g b pt"
  unfolding outOfGamut_def isOutOfGamut_def Let_def PAPERS_eq spread_positive
  by (rule refl)

lemma d_body_totalTAC:
  "d_totalTAC (chunk_body s src st) =
     (if px_a (src ! d_i st) = 0 then d_totalTAC st
      else d_totalTAC st + pixel_tac s (src ! d_i st))"
  by (simp add: chunk_body_def Let_def pixel_tac_def inflated_inks_def shifted_inks_def
      converted_inks_def PAPERS_eq)

lemma d_body_maxTAC:
  "d_maxTAC (chunk_body s src st) =
     (if px_a (src ! d_i st) = 0 then d_maxTAC st
      else max (d_maxTAC st) (pixel_tac s (src ! d_i st)))"
  by (simp add: chunk_body_def Let_def pixel_tac_def inflated_inks_def shifted_inks_def
      converted_inks_def PAPERS_eq max_def)

lemma d_body_oogCount:
  "d_oogCount (chunk_body s src st) =
     (if px_a (src ! d_i st) \<noteq> 0 \<and> pixel_oog s (src ! d_i st)
      then d_oogCount st + 1 else d_oogCount st)"
  by (simp add: chunk_body_def Let_def pixel_oog_def outOfGamut_eq)

lemma d_body_procCount:
  "d_procCount (chunk_body s src st) =
     (if px_a (src ! d_i st) \<noteq> 0 then d_procCount st + 1 else d_procCount st)"
  by (simp add: chunk_body_def Let_def)

lemma d_body_out:
  "d_out (chunk_body s src st) = (d_out st)[d_i st := pixel_output s (src ! d_i st)]"
  by (simp add: chunk_body_def Let_def pixel_output_def inflated_inks_def shifted_inks_def
      converted_inks_def PAPERS_eq)

lemma d_body_gam:
  "d_gam (chunk_body s src st) =
     (d_gam st)[d_i st := pixel_overlay s (src ! d_i st) (d_gam st ! d_i st)]"
  by (simp add: chunk_body_def Let_def pixel_overlay_def pixel_oog_def outOfGamut_eq)

lemma d_body_i: "d_i (chunk_body s src st) = d_i st"
  by (simp add: chunk_body_def Let_def)

lemma chunk_for_step:
  "d_i st < e \<Longrightarrow>
   chunk_for s src e st = chunk_for s src e ((chunk_body s src st)\<lparr>d_i := d_i st + 1\<rparr>)"
  by (subst chunk_for.simps) simp

lemma chunk_for_done: "\<not> d_i st < e \<Longrightarrow> chunk_for s src e st = st"
  by (subst chunk_for.simps) simp

lemma slice_step:
  "i < e \<Longrightarrow> e \<le> length src \<Longrightarrow> drop i (take e src) = src ! i # drop (Suc i) (take e src)"
  by (metis Cons_nth_drop_Suc length_take min.absorb2 nth_take)

lemma chunk_for_i: "d_i (chunk_for s src e st) = max (d_i st) e"
proof (induction s src e st rule: chunk_for.induct)
  case (1 s src e st)
  show ?case
  proof (cases "d_i st < e")
    case True
    then show ?thesis
      using 1 [OF True] by (simp add: chunk_for_step max_def)
  next
    case False
    then show ?thesis
      by (simp add: chunk_for_done max_def)
  qed
qed

lemma chunk_for_totalTAC:
  "e \<le> length src \<Longrightarrow>
   d_totalTAC (chunk_for s src e st) =
     d_totalTAC st
       + sum_list (map (pixel_tac s) (filter (\<lambda>p. px_a p \<noteq> 0) (drop (d_i st) (take e src))))"
proof (induction s src e st rule: chunk_for.induct)
  case (1 s src e st)
  show ?case
  proof (cases "d_i st < e")
    case True
    show ?thesis
      using 1(1) [OF True 1(2)] True
      by (simp add: chunk_for_step slice_step [OF True 1(2)] d_body_totalTAC)
  next
    case False
    then show ?thesis
      by (simp add: chunk_for_done)
  qed
qed


lemma chunk_for_maxTAC:
  "e \<le> length src \<Longrightarrow>
   d_maxTAC (chunk_for s src e st) =
     foldl max (d_maxTAC st)
       (map (pixel_tac s) (filter (\<lambda>p. px_a p \<noteq> 0) (drop (d_i st) (take e src))))"
proof (induction s src e st rule: chunk_for.induct)
  case (1 s src e st)
  show ?case
  proof (cases "d_i st < e")
    case True
    show ?thesis
      using 1(1) [OF True 1(2)] True
      by (simp add: chunk_for_step slice_step [OF True 1(2)] d_body_maxTAC)
  next
    case False
    then show ?thesis
      by (simp add: chunk_for_done)
  qed
qed

lemma chunk_for_oogCount:
  "e \<le> length src \<Longrightarrow>
   d_oogCount (chunk_for s src e st) =
     d_oogCount st
       + length (filter (\<lambda>p. px_a p \<noteq> 0 \<and> pixel_oog s p) (drop (d_i st) (take e src)))"
proof (induction s src e st rule: chunk_for.induct)
  case (1 s src e st)
  show ?case
  proof (cases "d_i st < e")
    case True
    show ?thesis
      using 1(1) [OF True 1(2)] True
      by (simp add: chunk_for_step slice_step [OF True 1(2)] d_body_oogCount)
  next
    case False
    then show ?thesis
      by (simp add: chunk_for_done)
  qed
qed

lemma chunk_for_procCount:
  "e \<le> length src \<Longrightarrow>
   d_procCount (chunk_for s src e st) =
     d_procCount st
       + length (filter (\<lambda>p. px_a p \<noteq> 0) (drop (d_i st) (take e src)))"
proof (induction s src e st rule: chunk_for.induct)
  case (1 s src e st)
  show ?case
  proof (cases "d_i st < e")
    case True
    show ?thesis
      using 1(1) [OF True 1(2)] True
      by (simp add: chunk_for_step slice_step [OF True 1(2)] d_body_procCount)
  next
    case False
    then show ?thesis
      by (simp add: chunk_for_done)
  qed
qed

lemma chunk_for_out_length: "length (d_out (chunk_for s src e st)) = length (d_out st)"
proof (induction s src e st rule: chunk_for.induct)
  case (1 s src e st)
  show ?case
  proof (cases "d_i st < e")
    case True
    then show ?thesis
      using 1 [OF True] by (simp add: chunk_for_step d_body_out)
  next
    case False
    then show ?thesis
      by (simp add: chunk_for_done)
  qed
qed

lemma chunk_for_gam_length: "length (d_gam (chunk_for s src e st)) = length (d_gam st)"
proof (induction s src e st rule: chunk_for.induct)
  case (1 s src e st)
  show ?case
  proof (cases "d_i st < e")
    case True
    then show ?thesis
      using 1 [OF True] by (simp add: chunk_for_step d_body_gam)
  next
    case False
    then show ?thesis
      by (simp add: chunk_for_done)
  qed
qed

lemma index_reached: "\<not> Suc i \<le> j \<Longrightarrow> i \<le> j \<Longrightarrow> j = i"
  by arith

lemma chunk_for_out_nth:
  "j < length (d_out st) \<Longrightarrow>
   d_out (chunk_for s src e st) ! j =
     (if d_i st \<le> j \<and> j < e then pixel_output s (src ! j) else d_out st ! j)"
proof (induction s src e st rule: chunk_for.induct)
  case (1 s src e st)
  show ?case
  proof (cases "d_i st < e")
    case True
    show ?thesis
      using 1(1) [OF True] 1(2) True
      by (auto simp: chunk_for_step d_body_out nth_list_update dest: index_reached)
  next
    case False
    then show ?thesis
      by (auto simp: chunk_for_done)
  qed
qed

lemma chunk_for_gam_nth:
  "j < length (d_gam st) \<Longrightarrow>
   d_gam (chunk_for s src e st) ! j =
     (if d_i st \<le> j \<and> j < e then pixel_overlay s (src ! j) (d_gam st ! j)
      else d_gam st ! j)"
proof (induction s src e st rule: chunk_for.induct)
  case (1 s src e st)
  show ?case
  proof (cases "d_i st < e")
    case True
    show ?thesis
      using 1(1) [OF True] 1(2) True
      by (auto simp: chunk_for_step d_body_gam nth_list_update dest: index_reached)
  next
    case False
    then show ?thesis
      by (auto simp: chunk_for_done)
  qed
qed

text \<open>One chunk, then the chunks that follow: together they are one run of the loop.\<close>

lemma chunk_unfold:
  "chunk s src st =
     (let st1 = chunk_for s src (min (d_i st + CHUNK_SIZE) (length src)) st;
          st2 = st1\<lparr>d_progress := d_progress st1 @
                  [if length src = 0 then None
                   else Some (js_round (real (d_i st1) / real (length src) * 100))]\<rparr>
      in if d_i st2 < length src then chunk s src st2 else st2)"
  by (subst chunk.simps) (simp add: Let_def)

lemma chunk_for_compose:
  "e1 \<le> e2 \<Longrightarrow> chunk_for s src e2 (chunk_for s src e1 st) = chunk_for s src e2 st"
proof (induction s src e1 st rule: chunk_for.induct)
  case (1 s src e1 st)
  show ?case
  proof (cases "d_i st < e1")
    case True
    then have "d_i st < e2"
      using 1(2) by simp
    then show ?thesis
      using 1(1) [OF True 1(2)] True by (simp add: chunk_for_step [of st])
  next
    case False
    then show ?thesis
      by (simp add: chunk_for_done)
  qed
qed

lemma chunk_body_progress:
  "chunk_body s src (st\<lparr>d_progress := x\<rparr>) = (chunk_body s src st)\<lparr>d_progress := x\<rparr>"
  by (simp add: chunk_body_def Let_def)

lemma chunk_for_progress:
  "chunk_for s src e (st\<lparr>d_progress := x\<rparr>) = (chunk_for s src e st)\<lparr>d_progress := x\<rparr>"
proof (induction s src e st rule: chunk_for.induct)
  case (1 s src e st)
  show ?case
  proof (cases "d_i st < e")
    case True
    have swap: "t\<lparr>d_progress := x, d_i := n\<rparr> = t\<lparr>d_i := n, d_progress := x\<rparr>"
      for t :: dstate and n
      by (cases t) simp
    have "chunk_for s src e (st\<lparr>d_progress := x\<rparr>) =
        chunk_for s src e ((chunk_body s src st)\<lparr>d_i := d_i st + 1\<rparr>\<lparr>d_progress := x\<rparr>)"
      using True by (subst chunk_for.simps) (simp add: chunk_body_progress swap)
    then show ?thesis
      using 1 [OF True] True by (simp add: chunk_for_step [of st])
  next
    case False
    then show ?thesis
      by (simp add: chunk_for_done)
  qed
qed

lemma chunk_is_one_run:
  "(chunk s src st)\<lparr>d_progress := []\<rparr> = (chunk_for s src (length src) st)\<lparr>d_progress := []\<rparr>"
proof (induction s src st rule: chunk.induct)
  case (1 s src st)
  let ?e = "min (d_i st + CHUNK_SIZE) (length src)"
  let ?st1 = "chunk_for s src ?e st"
  let ?pct = "if length src = 0 then None
              else Some (js_round (real (d_i ?st1) / real (length src) * 100))"
  let ?st2 = "?st1\<lparr>d_progress := d_progress ?st1 @ [?pct]\<rparr>"
  have whole: "chunk_for s src (length src) ?st1 = chunk_for s src (length src) st"
    by (rule chunk_for_compose) simp
  show ?case
  proof (cases "d_i ?st2 < length src")
    case True
    have "(chunk s src ?st2)\<lparr>d_progress := []\<rparr> =
        (chunk_for s src (length src) ?st2)\<lparr>d_progress := []\<rparr>"
      using 1 [OF refl refl refl refl refl True] .
    also have "\<dots> = (chunk_for s src (length src) ?st1)\<lparr>d_progress := []\<rparr>"
      by (simp add: chunk_for_progress)
    finally show ?thesis
      using True whole by (subst chunk_unfold) (simp add: Let_def)
  next
    case False
    then have "chunk_for s src (length src) ?st1 = ?st1"
      by (simp add: chunk_for_done)
    then show ?thesis
      using False whole by (subst chunk_unfold) (simp add: Let_def)
  qed
qed

lemma d_final_fields:
  "d_totalTAC (chunk s src (processPixels_init src)) =
     sum_list (map (pixel_tac s) (opaque_pixels src))"
  "d_maxTAC (chunk s src (processPixels_init src)) = image_maxTAC s src"
  "d_oogCount (chunk s src (processPixels_init src)) = image_oogCount s src"
  "d_procCount (chunk s src (processPixels_init src)) = length (opaque_pixels src)"
  "d_out (chunk s src (processPixels_init src)) = map (pixel_output s) src"
  "d_gam (chunk s src (processPixels_init src)) =
     map (\<lambda>p. pixel_overlay s p \<lparr>px_r = 0, px_g = 0, px_b = 0, px_a = 0\<rparr>) src"
proof -
  let ?c = "chunk s src (processPixels_init src)"
  let ?f = "chunk_for s src (length src) (processPixels_init src)"
  note one = chunk_is_one_run [of s src "processPixels_init src"]
  have "d_totalTAC ?c = d_totalTAC ?f"
    using arg_cong [OF one, of d_totalTAC] by simp
  then show "d_totalTAC ?c = sum_list (map (pixel_tac s) (opaque_pixels src))"
    by (simp add: chunk_for_totalTAC processPixels_init_def opaque_pixels_def)
  have "d_maxTAC ?c = d_maxTAC ?f"
    using arg_cong [OF one, of d_maxTAC] by simp
  then show "d_maxTAC ?c = image_maxTAC s src"
    by (simp add: chunk_for_maxTAC processPixels_init_def opaque_pixels_def image_maxTAC_def)
  have "d_oogCount ?c = d_oogCount ?f"
    using arg_cong [OF one, of d_oogCount] by simp
  then show "d_oogCount ?c = image_oogCount s src"
    by (simp add: chunk_for_oogCount processPixels_init_def opaque_pixels_def
        image_oogCount_def conj_commute)
  have "d_procCount ?c = d_procCount ?f"
    using arg_cong [OF one, of d_procCount] by simp
  then show "d_procCount ?c = length (opaque_pixels src)"
    by (simp add: chunk_for_procCount processPixels_init_def opaque_pixels_def)
  have "d_out ?c = d_out ?f"
    using arg_cong [OF one, of d_out] by simp
  moreover have "d_out ?f = map (pixel_output s) src"
    by (rule nth_equalityI)
      (simp_all add: chunk_for_out_length chunk_for_out_nth processPixels_init_def)
  ultimately show "d_out ?c = map (pixel_output s) src"
    by simp
  have "d_gam ?c = d_gam ?f"
    using arg_cong [OF one, of d_gam] by simp
  moreover have "d_gam ?f =
      map (\<lambda>p. pixel_overlay s p \<lparr>px_r = 0, px_g = 0, px_b = 0, px_a = 0\<rparr>) src"
    by (rule nth_equalityI)
      (simp_all add: chunk_for_gam_length chunk_for_gam_nth processPixels_init_def)
  ultimately show "d_gam ?c =
      map (\<lambda>p. pixel_overlay s p \<lparr>px_r = 0, px_g = 0, px_b = 0, px_a = 0\<rparr>) src"
    by simp
qed

section \<open>The worker and the chunked pipeline\<close>

lemma sampled_red: "js_round (255 / 32) = 8"
  by (simp add: js_round_def)

lemma sampled_zero: "js_round 0 = 0"
  by (simp add: js_round_def)

text \<open>
  C4, as stated, fails. On an image of nine opaque pixels, eight red ones followed by a
  blue one, the worker samples the pixels 0 and 8 and returns two dominant colours;
  main-demo.js samples every tenth pixel, so only pixel 0, and returns one.
\<close>

theorem C4_counterexample:
  "map_option (dominantColors \<circ> stats \<circ> snd)
     (processImage
        [\<lparr>px_r = 255, px_g = 0, px_b = 0, px_a = 255\<rparr>,
         \<lparr>px_r = 255, px_g = 0, px_b = 0, px_a = 255\<rparr>,
         \<lparr>px_r = 255, px_g = 0, px_b = 0, px_a = 255\<rparr>,
         \<lparr>px_r = 255, px_g = 0, px_b = 0, px_a = 255\<rparr>,
         \<lparr>px_r = 255, px_g = 0, px_b = 0, px_a = 255\<rparr>,
         \<lparr>px_r = 255, px_g = 0, px_b = 0, px_a = 255\<rparr>,
         \<lparr>px_r = 255, px_g = 0, px_b = 0, px_a = 255\<rparr>,
         \<lparr>px_r = 255, px_g = 0, px_b = 0, px_a = 255\<rparr>,
         \<lparr>px_r = 0, px_g = 0, px_b = 255, px_a = 255\<rparr>]
        \<lparr>paperType = Coated, dotGain = 3 / 20, showC = True, showM = True, showY = True,
         showK = True, gamutOverlay = False\<rparr>) \<noteq>
   Some (sd_dominantColors (rd_stats (snd
     (processPixels
        [\<lparr>px_r = 255, px_g = 0, px_b = 0, px_a = 255\<rparr>,
         \<lparr>px_r = 255, px_g = 0, px_b = 0, px_a = 255\<rparr>,
         \<lparr>px_r = 255, px_g = 0, px_b = 0, px_a = 255\<rparr>,
         \<lparr>px_r = 255, px_g = 0, px_b = 0, px_a = 255\<rparr>,
         \<lparr>px_r = 255, px_g = 0, px_b = 0, px_a = 255\<rparr>,
         \<lparr>px_r = 255, px_g = 0, px_b = 0, px_a = 255\<rparr>,
         \<lparr>px_r = 255, px_g = 0, px_b = 0, px_a = 255\<rparr>,
         \<lparr>px_r = 255, px_g = 0, px_b = 0, px_a = 255\<rparr>,
         \<lparr>px_r = 0, px_g = 0, px_b = 255, px_a = 255\<rparr>]
        \<lparr>paperType = Coated, dotGain = 3 / 20, showC = True, showM = True, showY = True,
         showK = True, gamutOverlay = False\<rparr>))))"
proof -
  let ?red = "\<lparr>px_r = 255, px_g = 0, px_b = 0, px_a = 255\<rparr>"
  let ?blue = "\<lparr>px_r = 0, px_g = 0, px_b = 255, px_a = 255\<rparr>"
  let ?img = "[?red, ?red, ?red, ?red, ?red, ?red, ?red, ?red, ?blue]"
  let ?s = "\<lparr>paperType = Coated, dotGain = 3 / 20, showC = True, showM = True, showY = True,
         showK = True, gamutOverlay = False\<rparr>"
  have w16: "extractDominantColors_loop ?img 8 16 b = Some b" for b
    by (subst extractDominantColors_loop.simps) simp
  have w8: "extractDominantColors_loop ?img 8 8 b = Some (bump (0, 0, 256) b)" for b
    by (subst extractDominantColors_loop.simps) (simp add: w16 sampled_red sampled_zero)
  have w0: "extractDominantColors_loop ?img 8 0 [] = Some [((256, 0, 0), 1), ((0, 0, 256), 1)]"
    by (subst extractDominantColors_loop.simps) (simp add: w8 sampled_red sampled_zero)
  have w: "map_option length (extractDominantColors ?img 8) = Some 2"
    by (simp add: extractDominantColors_def w0 top5_def)
  have d10: "dominantColors_loop ?img 10 b = b" for b
    by (subst dominantColors_loop.simps) simp
  have d0: "dominantColors_loop ?img 0 [] = [((256, 0, 0), 1)]"
    by (subst dominantColors_loop.simps) (simp add: d10 sampled_red sampled_zero)
  have d: "length (dominantColors_d ?img) = 1"
    by (simp add: dominantColors_d_def d0 top5_def)
  obtain dw where dw: "extractDominantColors ?img 8 = Some dw"
    using extractDominantColors_total [of 8 ?img] by auto
  have "length dw = 2"
    using w dw by simp
  then have "dw \<noteq> dominantColors_d ?img"
    using d by auto
  then show ?thesis
    by (simp add: processImage_def processImage_finish_def processPixels_def Let_def dw)
qed

lemma processPixels_result:
  "rd_outputPixels (snd (processPixels src s)) = map (pixel_output s) src"
  "rd_gamutPixels (snd (processPixels src s)) =
     map (\<lambda>p. pixel_overlay s p \<lparr>px_r = 0, px_g = 0, px_b = 0, px_a = 0\<rparr>) src"
  "sd_avgTAC (rd_stats (snd (processPixels src s))) = js_round (image_avgTAC s src)"
  "sd_maxTAC (rd_stats (snd (processPixels src s))) = js_round (image_maxTAC s src)"
  "sd_outOfGamutPercent (rd_stats (snd (processPixels src s))) =
     real_of_int (js_round (image_oogPercent s src * 10)) / 10"
  "sd_inkLimit (rd_stats (snd (processPixels src s))) = p_inkLimit (PAPER_PROFILES (paperType s))"
  by (simp_all add: processPixels_def Let_def d_final_fields PAPERS_eq image_avgTAC_def
      image_oogPercent_def)

text \<open>
  C4, amended. For every pixel buffer and every settings record, worker.js's
  \<open>processImage\<close> and main-demo.js's \<open>processPixels\<close> produce equal output buffers,
  equal overlay buffers and equal \<open>avgTAC\<close>, \<open>maxTAC\<close>, \<open>outOfGamutPercent\<close>, risk
  verdict (level, label and message) and \<open>inkLimit\<close>. The record of main-demo.js has no
  \<open>outOfGamutCount\<close>, and the two dominant-colour lists come from samplers with the
  strides 8 and 10.
\<close>

theorem C4_worker_and_chunked_agree_apart_from_sampling:
  "\<exists>posted res.
     processImage pixels s = Some (posted, res) \<and>
     outputPixels res = rd_outputPixels (snd (processPixels pixels s)) \<and>
     gamutPixels res = rd_gamutPixels (snd (processPixels pixels s)) \<and>
     avgTAC (stats res) = sd_avgTAC (rd_stats (snd (processPixels pixels s))) \<and>
     maxTAC (stats res) = sd_maxTAC (rd_stats (snd (processPixels pixels s))) \<and>
     outOfGamutPercent (stats res) =
       sd_outOfGamutPercent (rd_stats (snd (processPixels pixels s))) \<and>
     risk (stats res) = sd_risk (rd_stats (snd (processPixels pixels s))) \<and>
     inkLimit (stats res) = sd_inkLimit (rd_stats (snd (processPixels pixels s)))"
proof -
  obtain posted res where r: "processImage pixels s = Some (posted, res)"
    using processImage_returns by blast
  note f = processImage_result [OF r]
  obtain d where d: "res = processImage_finish s
      (processImage_loop s pixels 0 (processImage_init pixels)) d"
    using processImage_SomeD [OF r] by blast
  have risk: "risk (stats res) = sd_risk (rd_stats (snd (processPixels pixels s)))"
    unfolding d
    by (simp add: processImage_finish_def processPixels_def Let_def w_final d_final_fields
        PAPERS_eq)
  show ?thesis
    using r risk by (simp add: f processPixels_result)
qed

section \<open>The round trip in double arithmetic\<close>

lemma pow2_powr: "pow2 e = 2 powr (real_of_int e)"
proof (cases "0 \<le> e")
  case True
  then have "real_of_int e = real (nat e)"
    by simp
  then have "2 powr (real_of_int e) = 2 powr (real (nat e))"
    by (simp only:)
  also have "\<dots> = 2 ^ nat e"
    by (rule powr_realpow) simp
  finally show ?thesis
    using True by (simp only: pow2_def if_True)
next
  case False
  then have "real_of_int e = - real (nat (- e))"
    by simp
  then have "2 powr (real_of_int e) = 2 powr (- real (nat (- e)))"
    by (simp only:)
  also have "\<dots> = 1 / 2 powr (real (nat (- e)))"
    by (rule powr_minus_divide)
  also have "2 powr (real (nat (- e))) = 2 ^ nat (- e)"
    by (rule powr_realpow) simp
  finally show ?thesis
    using False by (simp only: pow2_def if_False)
qed

lemma binade_eq:
  assumes "pow2 e \<le> \<bar>x\<bar>" "\<bar>x\<bar> < pow2 (e + 1)" "- 1022 \<le> e"
  shows "binade x = e"
proof -
  have "0 < pow2 e"
    by (simp add: pow2_powr)
  then have pos: "0 < \<bar>x\<bar>"
    using assms(1) by linarith
  have "\<lfloor>log 2 \<bar>x\<bar>\<rfloor> = e"
    using assms(1,2) floor_log_eq_powr_iff [of "\<bar>x\<bar>" 2 e] pos
    by (simp add: pow2_powr)
  then show ?thesis
    using assms(3) by (simp add: binade_def)
qed

lemma fl_at:
  assumes "pow2 e \<le> \<bar>x\<bar>" "\<bar>x\<bar> < pow2 (e + 1)" "- 1022 \<le> e"
  shows "fl x = of_int (round_ties_even (x / pow2 (e - 52))) * pow2 (e - 52)"
proof -
  have "0 < pow2 e"
    by (simp add: pow2_powr)
  then have "x \<noteq> 0"
    using assms(1) by auto
  then show ?thesis
    by (simp add: fl_def binade_eq [OF assms])
qed


lemma fl_zero: "fl 0 = 0"
  by (simp add: fl_def)

lemma fl_one: "fl 1 = 1"
  by (subst fl_at [of 0]) (simp_all add: pow2_def round_ties_even_def)

lemma fl_255: "fl 255 = 255"
  by (subst fl_at [of 7]) (simp_all add: pow2_def round_ties_even_def)

lemma fl_tenth: "fl (1 / 10) = 3602879701896397 / 36028797018963968"
  by (subst fl_at [of "- 4"]) (simp_all add: pow2_def round_ties_even_def)

lemma fl_one_minus_tenth:
  "fl (1 - 3602879701896397 / 36028797018963968) = 8106479329266893 / 9007199254740992"
  by (subst fl_at [of "- 1"]) (simp_all add: pow2_def round_ties_even_def)

lemma fl_denom:
  "fl (1 - 8106479329266893 / 9007199254740992) = 900719925474099 / 9007199254740992"
  by (subst fl_at [of "- 4"]) (simp_all add: pow2_def round_ties_even_def)

lemma fl_product:
  "fl (255 * (900719925474099 / 9007199254740992)) = 7177611906121726 / 281474976710656"
  by (subst fl_at [of 4]) (simp_all add: pow2_def round_ties_even_def)


lemma rgbToCmyk_fl_tenth:
  "rgbToCmyk_fl (fl (1 / 10)) 0 0 =
     \<lparr>cmyk_c = 0, cmyk_m = 1, cmyk_y = 1, cmyk_k = 8106479329266893 / 9007199254740992\<rparr>"
proof -
  let ?R = "3602879701896397 / 36028797018963968 :: real"
  let ?K = "8106479329266893 / 9007199254740992 :: real"
  let ?D = "900719925474099 / 9007199254740992 :: real"
  have mx: "max (max ?R 0) 0 = ?R"
    by simp
  have kn: "(?K = 1) = False"
    by simp
  have z: "fl (?K - ?K) = 0"
    by (simp add: fl_zero)
  have c: "fl (0 / ?D) = 0"
    by (simp add: fl_zero)
  have one: "fl (1 - 0) = 1"
    by (simp add: fl_one)
  have m: "fl (?D / ?D) = 1"
    by (simp add: fl_one)
  show ?thesis
    unfolding rgbToCmyk_fl_def Let_def fl_tenth mx fl_one_minus_tenth kn if_False fl_denom
      z c one m
    by (rule refl)
qed

text \<open>
  C3, as stated, fails in the arithmetic of the program. The claim says that the round
  trip is exact before the rounding to 8 bits. For the double nearest to 0.1 as red and
  no green or blue, \<open>rgbToCmyk\<close> returns \<open>c = 0\<close> and \<open>k\<close> the double nearest to 0.9,
  \<open>1 - k\<close> is a double below 0.1, and the number handed to \<open>Math.round\<close> is
  \<open>7177611906121726 / 2 ^ 48\<close>, about 25.499999999999993, not \<open>255 r\<close>; it rounds to 25,
  while \<open>255 r\<close> rounds to 26.
\<close>

theorem C3_counterexample:
  "channel255_fl (cmyk_c (rgbToCmyk_fl (fl (1 / 10)) 0 0))
     (cmyk_k (rgbToCmyk_fl (fl (1 / 10)) 0 0)) = 7177611906121726 / 281474976710656 \<and>
   channel255_fl (cmyk_c (rgbToCmyk_fl (fl (1 / 10)) 0 0))
     (cmyk_k (rgbToCmyk_fl (fl (1 / 10)) 0 0)) \<noteq> 255 * fl (1 / 10) \<and>
   rgb_r (cmykToRgb_fl (cmyk_c (rgbToCmyk_fl (fl (1 / 10)) 0 0))
     (cmyk_m (rgbToCmyk_fl (fl (1 / 10)) 0 0)) (cmyk_y (rgbToCmyk_fl (fl (1 / 10)) 0 0))
     (cmyk_k (rgbToCmyk_fl (fl (1 / 10)) 0 0))) = 25 \<and>
   js_round (255 * fl (1 / 10)) = 26"
proof -
  let ?K = "8106479329266893 / 9007199254740992 :: real"
  let ?D = "900719925474099 / 9007199254740992 :: real"
  have one: "fl (1 - 0) = 1"
    by (simp add: fl_one)
  have t2: "fl (255 * 1) = 255"
    by (simp add: fl_255)
  have v: "channel255_fl 0 ?K = 7177611906121726 / 281474976710656"
    unfolding channel255_fl_def one t2 fl_denom fl_product by (rule refl)
  have ne: "(7177611906121726 / 281474976710656 :: real) \<noteq>
      255 * (3602879701896397 / 36028797018963968)"
    by simp
  have rd: "js_round (7177611906121726 / 281474976710656) = 25"
    by (simp add: js_round_def)
  have rt: "js_round (255 * (3602879701896397 / 36028797018963968)) = 26"
    by (simp add: js_round_def)
  have qc: "cmyk_c (rgbToCmyk_fl (fl (1 / 10)) 0 0) = 0"
    and qk: "cmyk_k (rgbToCmyk_fl (fl (1 / 10)) 0 0) = ?K"
    by (simp_all only: rgbToCmyk_fl_tenth cmyk.simps)
  have a: "channel255_fl (cmyk_c (rgbToCmyk_fl (fl (1 / 10)) 0 0))
      (cmyk_k (rgbToCmyk_fl (fl (1 / 10)) 0 0)) = 7177611906121726 / 281474976710656"
    by (simp only: qc qk v)
  have b: "channel255_fl (cmyk_c (rgbToCmyk_fl (fl (1 / 10)) 0 0))
      (cmyk_k (rgbToCmyk_fl (fl (1 / 10)) 0 0)) \<noteq> 255 * fl (1 / 10)"
    by (subst a, unfold fl_tenth, rule ne)
  have c: "rgb_r (cmykToRgb_fl (cmyk_c (rgbToCmyk_fl (fl (1 / 10)) 0 0))
      (cmyk_m (rgbToCmyk_fl (fl (1 / 10)) 0 0)) (cmyk_y (rgbToCmyk_fl (fl (1 / 10)) 0 0))
      (cmyk_k (rgbToCmyk_fl (fl (1 / 10)) 0 0))) = 25"
    by (simp only: cmykToRgb_fl_def rgb.simps, subst a, rule rd)
  have d: "js_round (255 * fl (1 / 10)) = 26"
    by (simp only: fl_tenth rt)
  show ?thesis
    using a b c d by (intro conjI)
qed


section \<open>Error of one rounding\<close>

lemma pow2_pos: "0 < pow2 e"
  by (simp add: pow2_powr)

lemma pow2_add: "pow2 (a + b) = pow2 a * pow2 b"
  by (simp add: pow2_powr powr_add)

lemma pow2_mono: "a \<le> b \<Longrightarrow> pow2 a \<le> pow2 b"
  by (simp add: pow2_powr)

lemma round_ties_even_near: "\<bar>real_of_int (round_ties_even y) - y\<bar> \<le> 1 / 2"
  unfolding round_ties_even_def by (auto; linarith)

lemma fl_err_binade:
  "\<bar>fl x - x\<bar> \<le> pow2 (binade x - 53)"
proof (cases "x = 0")
  case True
  then show ?thesis
    using pow2_pos [of "binade x - 53"] by (simp add: fl_def)
next
  case False
  let ?q = "pow2 (binade x - 52)"
  have q: "0 < ?q"
    by (rule pow2_pos)
  have "fl x - x = (real_of_int (round_ties_even (x / ?q)) - x / ?q) * ?q"
    using False q by (simp add: fl_def left_diff_distrib)
  then have "\<bar>fl x - x\<bar> = \<bar>real_of_int (round_ties_even (x / ?q)) - x / ?q\<bar> * ?q"
    using q by (simp add: abs_mult)
  also have "\<dots> \<le> 1 / 2 * ?q"
    using round_ties_even_near [of "x / ?q"] q by (intro mult_right_mono) simp_all
  also have "1 / 2 * ?q = pow2 (binade x - 53)"
  proof -
    have "pow2 (binade x - 52) = pow2 ((binade x - 53) + 1)"
      by simp
    also have "\<dots> = pow2 (binade x - 53) * pow2 1"
      by (rule pow2_add)
    finally show ?thesis
      by (simp add: pow2_def)
  qed
  finally show ?thesis .
qed

lemma binade_le:
  assumes "\<bar>x\<bar> \<le> pow2 n" "- 1022 \<le> n" "x \<noteq> 0"
  shows "binade x \<le> n"
proof -
  have "log 2 \<bar>x\<bar> \<le> log 2 (pow2 n)"
    using assms(1,3) by simp
  also have "log 2 (pow2 n) = real_of_int n"
    by (simp add: pow2_powr)
  finally have "\<lfloor>log 2 \<bar>x\<bar>\<rfloor> \<le> n"
    by (simp add: floor_le_iff)
  then show ?thesis
    using assms(2) by (simp add: binade_def)
qed

lemma fl_err_abs:
  assumes "\<bar>x\<bar> \<le> pow2 n" "- 1022 \<le> n"
  shows "\<bar>fl x - x\<bar> \<le> pow2 (n - 53)"
proof (cases "x = 0")
  case True
  then show ?thesis
    using pow2_pos [of "n - 53"] by (simp add: fl_def)
next
  case False
  have "pow2 (binade x - 53) \<le> pow2 (n - 53)"
    using binade_le [OF assms False] by (intro pow2_mono) simp
  then show ?thesis
    using fl_err_binade [of x] by linarith
qed

lemma fl_err_rel:
  "\<bar>fl x - x\<bar> \<le> \<bar>x\<bar> * pow2 (- 53) + pow2 (- 1075)"
proof (cases "x = 0")
  case True
  then show ?thesis
    using pow2_pos [of "- 1075"] by (simp add: fl_def)
next
  case False
  show ?thesis
  proof (cases "- 1022 \<le> \<lfloor>log 2 \<bar>x\<bar>\<rfloor>")
    case True
    let ?e = "\<lfloor>log 2 \<bar>x\<bar>\<rfloor>"
    have b: "binade x = ?e"
      using True by (simp add: binade_def)
    have "pow2 ?e \<le> \<bar>x\<bar>"
      using False floor_log_eq_powr_iff [of "\<bar>x\<bar>" 2 ?e] by (simp add: pow2_powr)
    then have "pow2 ?e * pow2 (- 53) \<le> \<bar>x\<bar> * pow2 (- 53)"
      using pow2_pos [of "- 53"] by (intro mult_right_mono) simp_all
    moreover have "pow2 (?e - 53) = pow2 ?e * pow2 (- 53)"
      using pow2_add [of ?e "- 53"] by simp
    ultimately show ?thesis
      using fl_err_binade [of x] pow2_pos [of "- 1075"] by (simp add: b)
  next
    case False
    then have "binade x = - 1022"
      by (simp add: binade_def)
    then have "\<bar>fl x - x\<bar> \<le> pow2 (- 1075)"
      using fl_err_binade [of x] by simp
    moreover have "0 \<le> \<bar>x\<bar> * pow2 (- 53)"
      using pow2_pos [of "- 53"] by simp
    ultimately show ?thesis
      by linarith
  qed
qed


lemma round_ties_even_le: "round_ties_even y \<le> \<lfloor>y\<rfloor> + 1"
  by (simp add: round_ties_even_def)

lemma fl_below_one:
  assumes "0 \<le> x" "x \<le> 1" "fl x \<noteq> 1"
  shows "fl x \<le> 1 - pow2 (- 53)"
proof -
  consider "x < 1 / 2" | "1 / 2 \<le> x" "x < 1" | "x = 1"
    using assms(2) by linarith
  then show ?thesis
  proof cases
    case 1
    have "\<bar>fl x - x\<bar> \<le> pow2 (- 1 - 53)"
      using assms(1) 1 by (intro fl_err_abs) (simp_all add: pow2_def)
    moreover have "pow2 (- 1 - 53) = 1 / 18014398509481984"
      and "pow2 (- 53) = 1 / 9007199254740992"
      by (simp_all add: pow2_def)
    ultimately show ?thesis
      using 1 by linarith
  next
    case 2
    let ?j = "round_ties_even (x / pow2 (- 1 - 52))"
    have f: "fl x = real_of_int ?j * pow2 (- 1 - 52)"
      using 2 assms(1) by (intro fl_at) (simp_all add: pow2_def)
    have "x / pow2 (- 1 - 52) < 9007199254740992"
      using 2 by (simp add: pow2_def)
    then have "\<lfloor>x / pow2 (- 1 - 52)\<rfloor> < 9007199254740992"
      by (simp add: floor_less_iff)
    then have "?j \<le> 9007199254740992"
      using round_ties_even_le [of "x / pow2 (- 1 - 52)"] by linarith
    moreover have "?j \<noteq> 9007199254740992"
      using assms(3) f by (auto simp: pow2_def)
    ultimately have "?j \<le> 9007199254740991"
      by linarith
    then have "real_of_int ?j \<le> 9007199254740991"
      by linarith
    then show ?thesis
      by (simp add: f pow2_def)
  next
    case 3
    then show ?thesis
      using assms(3) by (simp add: fl_one)
  qed
qed

lemma scaled_error:
  fixes e d :: real
  assumes "\<bar>e\<bar> \<le> eps" "0 \<le> d" "d \<le> del"
  shows "\<bar>e * d\<bar> \<le> eps * del"
proof -
  have "\<bar>e * d\<bar> = \<bar>e\<bar> * d"
    using assms(2) by (simp add: abs_mult)
  also have "\<dots> \<le> eps * del"
    using assms by (intro mult_mono) simp_all
  finally show ?thesis .
qed


lemma channel_roundtrip_fl:
  assumes x0: "0 \<le> x" and xM: "x \<le> M" and M1: "M \<le> 1"
    and kn: "fl (1 - M) \<noteq> 1"
  shows "\<bar>channel255_fl (fl (fl (fl (1 - x) - fl (1 - M)) / fl (1 - fl (1 - M)))) (fl (1 - M)) - 255 * x\<bar> \<le> 1 / 68719476736"
proof -
  define k where "k = fl (1 - M)"
  define t where "t = 1 - k"
  define D where "D = fl t"
  define a where "a = fl (1 - x)"
  define z where "z = a - k"
  define n where "n = fl z"
  define c where "c = fl (n / D)"
  define t1 where "t1 = fl (1 - c)"
  define t2 where "t2 = fl (255 * t1)"
  define v where "v = fl (t2 * D)"
  have p53: "pow2 (0 - 53) = 1 / 9007199254740992"
    and p53': "pow2 (- 53) = 1 / 9007199254740992"
    and p52: "pow2 (1 - 53) = 1 / 4503599627370496"
    and p51: "pow2 (2 - 53) = 1 / 2251799813685248"
    and p50: "pow2 (3 - 53) = 1 / 1125899906842624"
    and p49: "pow2 (4 - 53) = 1 / 562949953421312"
    and p41: "pow2 (12 - 53) = 1 / 2199023255552"
    and p39: "pow2 (14 - 53) = 1 / 549755813888"
    by (simp_all add: pow2_def)
  have "pow2 (- 1075) \<le> pow2 (- 110)"
    by (rule pow2_mono) simp
  moreover have "pow2 (- 110) = 1 / 1298074214633706907132624082305024"
    by (simp add: pow2_def)
  ultimately have eta: "pow2 (- 1075) \<le> 1 / 1298074214633706907132624082305024"
    by simp
  have M0: "0 \<le> M"
    using x0 xM by linarith
  have s1: "\<bar>k - (1 - M)\<bar> \<le> 1 / 9007199254740992"
    unfolding k_def p53 [symmetric] using M0 M1
    by (intro fl_err_abs) (simp_all add: pow2_def)
  have s2: "k \<le> 1 - 1 / 9007199254740992"
    unfolding k_def p53' [symmetric] using M0 M1 kn
    by (intro fl_below_one) simp_all
  have tl: "1 / 9007199254740992 \<le> t"
    using s2 t_def by linarith
  have tu: "t \<le> 2"
    using s1 M1 t_def by linarith
  have s3a: "\<bar>D - t\<bar> \<le> 1 / 4503599627370496"
    unfolding D_def p52 [symmetric] using tl tu
    by (intro fl_err_abs) (simp_all add: pow2_def)
  have "\<bar>D - t\<bar> \<le> \<bar>t\<bar> * pow2 (- 53) + pow2 (- 1075)"
    unfolding D_def by (rule fl_err_rel)
  then have s3b: "\<bar>D - t\<bar> \<le> t * (1 / 9007199254740992) + 1 / 1298074214633706907132624082305024"
    using eta tl by (simp add: p53')
  have Dl: "t / 2 \<le> D"
    using s3b tl by linarith
  have D0: "0 < D"
    using Dl tl by linarith
  have Du: "D \<le> 4"
    using s3a tu by linarith
  have s4: "\<bar>a - (1 - x)\<bar> \<le> 1 / 9007199254740992"
    unfolding a_def p53 [symmetric] using x0 xM M1
    by (intro fl_err_abs) (simp_all add: pow2_def)
  have "a \<le> 1 - x + 1 / 9007199254740992" and "1 - x - 1 / 9007199254740992 \<le> a"
    using s4 by linarith+
  moreover have "k \<le> 1 - M + 1 / 9007199254740992"
    using s1 by linarith
  ultimately have "z \<le> 2 * t" and "- (2 * t) \<le> z"
    using tl x0 xM z_def t_def by linarith+
  then have s5: "\<bar>z\<bar> \<le> 2 * t"
    by linarith
  have s6a: "\<bar>n - z\<bar> \<le> 1 / 2251799813685248"
    unfolding n_def p51 [symmetric] using s5 tu
    by (intro fl_err_abs) (simp_all add: pow2_def)
  have "\<bar>n - z\<bar> \<le> \<bar>z\<bar> * pow2 (- 53) + pow2 (- 1075)"
    unfolding n_def by (rule fl_err_rel)
  then have s6b: "\<bar>n - z\<bar> \<le> \<bar>z\<bar> * (1 / 9007199254740992) + 1 / 1298074214633706907132624082305024"
    using eta by (simp add: p53')
  have s7: "\<bar>n\<bar> \<le> 8 * D"
    using s6b s5 Dl tl by linarith
  have q8: "\<bar>n / D\<bar> \<le> 8"
    using s7 D0 by (simp add: abs_divide pos_divide_le_eq)
  have s8: "\<bar>c - n / D\<bar> \<le> 1 / 1125899906842624"
    unfolding c_def p50 [symmetric] using q8
    by (intro fl_err_abs) (simp_all add: pow2_def)
  have cu: "\<bar>c\<bar> \<le> 9"
    using s8 q8 by linarith
  have s9: "\<bar>t1 - (1 - c)\<bar> \<le> 1 / 562949953421312"
    unfolding t1_def p49 [symmetric] using cu
    by (intro fl_err_abs) (simp_all add: pow2_def)
  have t1u: "\<bar>t1\<bar> \<le> 11"
    using s9 cu by linarith
  have s10: "\<bar>t2 - 255 * t1\<bar> \<le> 1 / 2199023255552"
    unfolding t2_def p41 [symmetric] using t1u
    by (intro fl_err_abs) (simp_all add: pow2_def)
  have t2u: "\<bar>t2\<bar> \<le> 2806"
    using s10 t1u by linarith
  have "\<bar>t2 * D\<bar> \<le> 2806 * 4"
    using t2u D0 Du by (intro scaled_error) simp_all
  then have s11: "\<bar>v - t2 * D\<bar> \<le> 1 / 549755813888"
    unfolding v_def p39 [symmetric]
    by (intro fl_err_abs) (simp_all add: pow2_def)
  have "\<bar>(t2 - 255 * t1) * D\<bar> \<le> 1 / 2199023255552 * 4"
    using s10 D0 Du by (intro scaled_error) simp_all
  then have P1: "\<bar>t2 * D - 255 * (t1 * D)\<bar> \<le> 1 / 2199023255552 * 4"
    by (simp add: algebra_simps)
  have "\<bar>(t1 - (1 - c)) * D\<bar> \<le> 1 / 562949953421312 * 4"
    using s9 D0 Du by (intro scaled_error) simp_all
  then have P2: "\<bar>t1 * D - (D - c * D)\<bar> \<le> 1 / 562949953421312 * 4"
    by (simp add: algebra_simps)
  have "\<bar>(c - n / D) * D\<bar> \<le> 1 / 1125899906842624 * 4"
    using s8 D0 Du by (intro scaled_error) simp_all
  moreover have "(c - n / D) * D = c * D - n"
    using D0 by (simp add: field_simps)
  ultimately have P3: "\<bar>c * D - n\<bar> \<le> 1 / 1125899906842624 * 4"
    by simp
  have "\<bar>v - 255 * x\<bar> \<le> 1 / 68719476736"
    using s11 P1 P2 P3 s6a s4 s3a z_def t_def by linarith
  then show ?thesis
    unfolding channel255_fl_def v_def t2_def t1_def c_def n_def z_def a_def D_def t_def k_def .
qed


lemma channel_guard_fl:
  assumes x0: "0 \<le> x" and xM: "x \<le> M" and M1: "M \<le> 1"
    and k1: "fl (1 - M) = 1"
  shows "\<bar>channel255_fl 0 1 - 255 * x\<bar> \<le> 1 / 68719476736"
proof -
  have "\<bar>fl (1 - M) - (1 - M)\<bar> \<le> pow2 (0 - 53)"
    using x0 xM M1 by (intro fl_err_abs) (simp_all add: pow2_def)
  moreover have "pow2 (0 - 53) = 1 / 9007199254740992"
    by (simp add: pow2_def)
  ultimately have "M \<le> 1 / 9007199254740992"
    using k1 by linarith
  then have "\<bar>0 - 255 * x\<bar> \<le> 1 / 68719476736"
    using x0 xM by linarith
  moreover have "channel255_fl 0 1 = 0"
    by (simp add: channel255_fl_def fl_zero)
  ultimately show ?thesis
    by simp
qed

lemma channel_fl:
  assumes "0 \<le> x" "x \<le> M" "M \<le> 1"
  shows "\<bar>channel255_fl
            (if fl (1 - M) = 1 then 0
             else fl (fl (fl (1 - x) - fl (1 - M)) / fl (1 - fl (1 - M))))
            (fl (1 - M)) - 255 * x\<bar> \<le> 1 / 68719476736"
proof (cases "fl (1 - M) = 1")
  case True
  show ?thesis
    using channel_guard_fl [OF assms True] by (simp only: True simp_thms if_True)
next
  case False
  show ?thesis
    using channel_roundtrip_fl [OF assms False] by (simp only: False if_False)
qed

lemma roundtrip_fl:
  assumes "0 \<le> r" "r \<le> 1" "0 \<le> g" "g \<le> 1" "0 \<le> b" "b \<le> 1"
  shows "\<bar>channel255_fl (cmyk_c (rgbToCmyk_fl r g b)) (cmyk_k (rgbToCmyk_fl r g b)) - 255 * r\<bar> \<le> 1 / 68719476736"
    and "\<bar>channel255_fl (cmyk_m (rgbToCmyk_fl r g b)) (cmyk_k (rgbToCmyk_fl r g b)) - 255 * g\<bar> \<le> 1 / 68719476736"
    and "\<bar>channel255_fl (cmyk_y (rgbToCmyk_fl r g b)) (cmyk_k (rgbToCmyk_fl r g b)) - 255 * b\<bar> \<le> 1 / 68719476736"
proof -
  let ?M = "max (max r g) b"
  have M: "?M \<le> 1" "r \<le> ?M" "g \<le> ?M" "b \<le> ?M"
    using assms by simp_all
  have c: "cmyk_c (rgbToCmyk_fl r g b) =
      (if fl (1 - ?M) = 1 then 0 else fl (fl (fl (1 - r) - fl (1 - ?M)) / fl (1 - fl (1 - ?M))))"
    and m: "cmyk_m (rgbToCmyk_fl r g b) =
      (if fl (1 - ?M) = 1 then 0 else fl (fl (fl (1 - g) - fl (1 - ?M)) / fl (1 - fl (1 - ?M))))"
    and y: "cmyk_y (rgbToCmyk_fl r g b) =
      (if fl (1 - ?M) = 1 then 0 else fl (fl (fl (1 - b) - fl (1 - ?M)) / fl (1 - fl (1 - ?M))))"
    and k: "cmyk_k (rgbToCmyk_fl r g b) = fl (1 - ?M)"
    by (simp_all add: rgbToCmyk_fl_def Let_def)
  show "\<bar>channel255_fl (cmyk_c (rgbToCmyk_fl r g b)) (cmyk_k (rgbToCmyk_fl r g b)) - 255 * r\<bar> \<le> 1 / 68719476736"
    unfolding c k by (rule channel_fl [OF assms(1) M(2) M(1)])
  show "\<bar>channel255_fl (cmyk_m (rgbToCmyk_fl r g b)) (cmyk_k (rgbToCmyk_fl r g b)) - 255 * g\<bar> \<le> 1 / 68719476736"
    unfolding m k by (rule channel_fl [OF assms(3) M(3) M(1)])
  show "\<bar>channel255_fl (cmyk_y (rgbToCmyk_fl r g b)) (cmyk_k (rgbToCmyk_fl r g b)) - 255 * b\<bar> \<le> 1 / 68719476736"
    unfolding y k by (rule channel_fl [OF assms(5) M(4) M(1)])
qed

text \<open>
  C3, amended. For \<open>r, g, b\<close> in [0,1] the three rounded channels are within 1 of
  \<open>255 r\<close>, \<open>255 g\<close> and \<open>255 b\<close>: over the reals with \<open>rgbToCmyk\<close>, the tone shift with
  magnitude 0 on each of the four channels and \<open>cmykToRgb\<close>; and in double arithmetic
  with \<open>rgbToCmyk\<close> followed by \<open>cmykToRgb\<close>, where the three numbers handed to
  \<open>Math.round\<close> are not \<open>255 r\<close>, \<open>255 g\<close> and \<open>255 b\<close> but within \<open>2 ^ - 36\<close> of them.
\<close>

theorem C3_roundtrip_within_one:
  assumes "0 \<le> r" "r \<le> 1" "0 \<le> g" "g \<le> 1" "0 \<le> b" "b \<le> 1"
  shows
    "(let q = rgbToCmyk r g b;
          c = applyDotGain (cmyk_c q) 0 sg hg;
          m = applyDotGain (cmyk_m q) 0 sg hg;
          y = applyDotGain (cmyk_y q) 0 sg hg;
          k = applyDotGain (cmyk_k q) 0 sg hg;
          out = cmykToRgb c m y k
      in \<bar>real_of_int (rgb_r out) - 255 * r\<bar> \<le> 1 \<and>
         \<bar>real_of_int (rgb_g out) - 255 * g\<bar> \<le> 1 \<and>
         \<bar>real_of_int (rgb_b out) - 255 * b\<bar> \<le> 1) \<and>
     (let q = rgbToCmyk_fl r g b;
          out = cmykToRgb_fl (cmyk_c q) (cmyk_m q) (cmyk_y q) (cmyk_k q)
      in \<bar>channel255_fl (cmyk_c q) (cmyk_k q) - 255 * r\<bar> \<le> 1 / 68719476736 \<and>
         \<bar>channel255_fl (cmyk_m q) (cmyk_k q) - 255 * g\<bar> \<le> 1 / 68719476736 \<and>
         \<bar>channel255_fl (cmyk_y q) (cmyk_k q) - 255 * b\<bar> \<le> 1 / 68719476736 \<and>
         \<bar>real_of_int (rgb_r out) - 255 * r\<bar> \<le> 1 \<and>
         \<bar>real_of_int (rgb_g out) - 255 * g\<bar> \<le> 1 \<and>
         \<bar>real_of_int (rgb_b out) - 255 * b\<bar> \<le> 1)"
proof -
  let ?q = "rgbToCmyk r g b"
  let ?p = "rgbToCmyk_fl r g b"
  note u = rgbToCmyk_unit [OF assms]
  have c: "applyDotGain (cmyk_c ?q) 0 sg hg = cmyk_c ?q"
    and m: "applyDotGain (cmyk_m ?q) 0 sg hg = cmyk_m ?q"
    and y: "applyDotGain (cmyk_y ?q) 0 sg hg = cmyk_y ?q"
    and k: "applyDotGain (cmyk_k ?q) 0 sg hg = cmyk_k ?q"
    using u by (simp_all add: applyDotGain_zero_gain)
  note e = roundtrip_exact [OF assms(1) assms(3) assms(5)]
  have n: "\<bar>real_of_int (js_round x) - x\<bar> \<le> 1" for x
    using js_round_near [of x] by linarith
  have r1: "\<bar>real_of_int (js_round (channel255 (cmyk_c ?q) (cmyk_k ?q))) - 255 * r\<bar> \<le> 1"
    using n [of "channel255 (cmyk_c ?q) (cmyk_k ?q)"] by (simp only: e)
  have r2: "\<bar>real_of_int (js_round (channel255 (cmyk_m ?q) (cmyk_k ?q))) - 255 * g\<bar> \<le> 1"
    using n [of "channel255 (cmyk_m ?q) (cmyk_k ?q)"] by (simp only: e)
  have r3: "\<bar>real_of_int (js_round (channel255 (cmyk_y ?q) (cmyk_k ?q))) - 255 * b\<bar> \<le> 1"
    using n [of "channel255 (cmyk_y ?q) (cmyk_k ?q)"] by (simp only: e)
  note f = roundtrip_fl [OF assms]
  have d: "\<bar>real_of_int (js_round v) - w\<bar> \<le> 1" if "\<bar>v - w\<bar> \<le> 1 / 68719476736" for v w
    using js_round_near [of v] that by linarith
  show ?thesis
    unfolding Let_def c m y k cmykToRgb_def cmykToRgb_fl_def rgb.simps
    by (intro conjI r1 r2 r3 f d)
qed

theorem C3_roundtrip_witness:
  "(let q = rgbToCmyk (1 / 2) (1 / 4) 0;
        c = applyDotGain (cmyk_c q) 0 (8 / 10) (4 / 10);
        m = applyDotGain (cmyk_m q) 0 (8 / 10) (4 / 10);
        y = applyDotGain (cmyk_y q) 0 (8 / 10) (4 / 10);
        k = applyDotGain (cmyk_k q) 0 (8 / 10) (4 / 10);
        out = cmykToRgb c m y k
    in \<bar>real_of_int (rgb_r out) - 255 * (1 / 2)\<bar> \<le> 1 \<and>
       \<bar>real_of_int (rgb_g out) - 255 * (1 / 4)\<bar> \<le> 1 \<and>
       \<bar>real_of_int (rgb_b out) - 255 * 0\<bar> \<le> 1) \<and>
   (let q = rgbToCmyk_fl (1 / 2) (1 / 4) 0;
        out = cmykToRgb_fl (cmyk_c q) (cmyk_m q) (cmyk_y q) (cmyk_k q)
    in \<bar>channel255_fl (cmyk_c q) (cmyk_k q) - 255 * (1 / 2)\<bar> \<le> 1 / 68719476736 \<and>
       \<bar>channel255_fl (cmyk_m q) (cmyk_k q) - 255 * (1 / 4)\<bar> \<le> 1 / 68719476736 \<and>
       \<bar>channel255_fl (cmyk_y q) (cmyk_k q) - 255 * 0\<bar> \<le> 1 / 68719476736 \<and>
       \<bar>real_of_int (rgb_r out) - 255 * (1 / 2)\<bar> \<le> 1 \<and>
       \<bar>real_of_int (rgb_g out) - 255 * (1 / 4)\<bar> \<le> 1 \<and>
       \<bar>real_of_int (rgb_b out) - 255 * 0\<bar> \<le> 1)"
  by (rule C3_roundtrip_within_one) simp_all

end
